(* ===== verification/MmsPrelude.thy ===== *)
theory MmsPrelude
  imports Main "HOL-Library.AList" "HOL-Library.Multiset" "HOL-Library.Word"
begin

text \<open>
  Shared vocabulary of the development: byte strings, error values, the result of running a
  Go function (it returns, it panics, or it waits for ever on a lock or channel), Go maps as
  association lists with their laws (locale \<open>go_map\<close>), buffered channels, and the parts of
  the Go standard library the sources use on strings (\<open>strings.ToLower\<close>,
  \<open>strings.EqualFold\<close>, \<open>strconv.FormatInt\<close>).
\<close>

named_theorems go_simps \<open>rewrite rules of the Go library operations\<close>
named_theorems inv_intros \<open>invariants kept by an operation\<close>

section \<open>Strings, errors, results\<close>

text \<open>A Go string and a byte slice are both sequences of bytes; a \<open>char\<close> is one byte.\<close>

type_synonym bytes = string

text \<open>
  Go error values. \<open>Errorf\<close> is \<open>errors.New\<close> or \<open>fmt.Errorf\<close> without a cause, \<open>Wrapf\<close> is
  \<open>fmt.Errorf\<close> with a cause, \<open>Extern\<close> is an error made by a library. The remaining three
  are the error types of utils/auth/auth.go.
\<close>

datatype error =
    Errorf string
  | Wrapf string error
  | Extern string
  | CertValErr string
  | SigAlgErr string
  | MrnMismatchErr string

text \<open>
  What running a Go function can do: return a value, panic, or wait for a lock or a channel
  that the function itself cannot free. Each carries the state at that moment.
\<close>

datatype ('s, 'a) result =
    Return 's 'a
  | Panic 's string
  | Wait 's string

definition nil_deref :: string where
  "nil_deref = ''invalid memory address or nil pointer dereference''"

fun bind_result :: "('s, 'a) result \<Rightarrow> ('s \<Rightarrow> 'a \<Rightarrow> ('t, 'b) result) \<Rightarrow> ('s \<Rightarrow> 't) \<Rightarrow> ('t, 'b) result" where
  "bind_result (Return s a) f g = f s a"
| "bind_result (Panic s w) f g = Panic (g s) w"
| "bind_result (Wait s w) f g = Wait (g s) w"

fun returns :: "('s, 'a) result \<Rightarrow> bool" where
  "returns (Return s a) = True"
| "returns (Panic s w) = False"
| "returns (Wait s w) = False"

fun state_of :: "('s, 'a) result \<Rightarrow> 's" where
  "state_of (Return s a) = s"
| "state_of (Panic s w) = s"
| "state_of (Wait s w) = s"

lemma returnsE: "returns r \<Longrightarrow> (\<And>s a. r = Return s a \<Longrightarrow> P) \<Longrightarrow> P"
  by (cases r) auto

section \<open>Go maps\<close>

text \<open>
  A Go map is an association list with distinct keys. \<open>range\<close> visits the entries in the
  order of the list; Go leaves that order open, so every theorem is stated for all lists and
  speaks about lookups and sets of entries.
\<close>

type_synonym ('k, 'v) gomap = "('k \<times> 'v) list"

definition mget :: "('k, 'v) gomap \<Rightarrow> 'k \<Rightarrow> 'v option" where
  "mget m k = map_of m k"

definition mput :: "'k \<Rightarrow> 'v \<Rightarrow> ('k, 'v) gomap \<Rightarrow> ('k, 'v) gomap" where
  "mput k v m = AList.update k v m"

definition mdel :: "'k \<Rightarrow> ('k, 'v) gomap \<Rightarrow> ('k, 'v) gomap" where
  "mdel k m = AList.delete k m"

definition keys_ok :: "('k, 'v) gomap \<Rightarrow> bool" where
  "keys_ok m \<longleftrightarrow> distinct (map fst m)"

text \<open>The interface the components rely on, and what follows from it.\<close>

locale go_map =
  fixes get :: "'m \<Rightarrow> 'k \<Rightarrow> 'v option"
    and put :: "'k \<Rightarrow> 'v \<Rightarrow> 'm \<Rightarrow> 'm"
    and del :: "'k \<Rightarrow> 'm \<Rightarrow> 'm"
    and ok :: "'m \<Rightarrow> bool"
  assumes get_put: "get (put k v m) j = (if j = k then Some v else get m j)"
    and get_del: "get (del k m) j = (if j = k then None else get m j)"
    and ok_put: "ok m \<Longrightarrow> ok (put k v m)"
    and ok_del: "ok m \<Longrightarrow> ok (del k m)"
begin

lemma get_put_same: "get (put k v m) k = Some v"
  by (simp add: get_put)

lemma get_put_other: "j \<noteq> k \<Longrightarrow> get (put k v m) j = get m j"
  by (simp add: get_put)

lemma get_del_same: "get (del k m) k = None"
  by (simp add: get_del)

lemma get_del_put: "get (del k (put k v m)) j = get (del k m) j"
  by (simp add: get_put get_del)

lemma get_put_del: "get (put k v (del k m)) j = get (put k v m) j"
  by (simp add: get_put get_del)

lemma get_fold_put:
  "get (fold (\<lambda>x. put (f x) (g x)) xs m) j =
     (case map_of (rev (map (\<lambda>x. (f x, g x)) xs)) j of Some v \<Rightarrow> Some v | None \<Rightarrow> get m j)"
  by (induction xs arbitrary: m) (auto simp: get_put map_add_def split: option.splits)

lemma get_fold_del: "get (fold del ks m) j = (if j \<in> set ks then None else get m j)"
  by (induction ks arbitrary: m) (auto simp: get_del)

lemma ok_fold_put: "ok m \<Longrightarrow> ok (fold (\<lambda>x. put (f x) (g x)) xs m)"
  by (induction xs arbitrary: m) (auto simp: ok_put)

lemma ok_fold_del: "ok m \<Longrightarrow> ok (fold del ks m)"
  by (induction ks arbitrary: m) (auto simp: ok_del)

end

lemma map_of_update_if:
  "map_of (AList.update k v al) j = (if j = k then Some v else map_of al j)"
  by (simp add: update_conv')

lemma map_of_delete_if:
  "map_of (AList.delete k al) j = (if j = k then None else map_of al j)"
  by (simp add: delete_conv')

interpretation gm: go_map mget mput mdel keys_ok
  by unfold_locales
    (auto simp: mget_def mput_def mdel_def keys_ok_def map_of_update_if map_of_delete_if
      distinct_update distinct_delete)

lemmas [simp, go_simps] = gm.get_put gm.get_del
lemmas [intro, inv_intros] = gm.ok_put gm.ok_del

lemma mget_Nil [simp]: "mget [] k = None"
  by (simp add: mget_def)

lemma mget_Cons [simp]: "mget ((k, v) # m) j = (if j = k then Some v else mget m j)"
  by (auto simp: mget_def)

lemma keys_ok_Nil [simp]: "keys_ok []"
  by (simp add: keys_ok_def)

lemma keys_ok_Cons: "keys_ok ((k, v) # m) \<longleftrightarrow> k \<notin> fst ` set m \<and> keys_ok m"
  by (simp add: keys_ok_def)

lemma mget_Some_in: "mget m k = Some v \<Longrightarrow> (k, v) \<in> set m"
  by (simp add: mget_def map_of_SomeD)

lemma mget_in_iff: "keys_ok m \<Longrightarrow> (k, v) \<in> set m \<longleftrightarrow> mget m k = Some v"
  by (simp add: mget_def keys_ok_def)

lemma mget_None_iff: "mget m k = None \<longleftrightarrow> k \<notin> fst ` set m"
  by (simp add: mget_def map_of_eq_None_iff)

lemma set_mput_subset: "set (mput k v m) \<subseteq> insert (k, v) (set m)"
  by (induction m) (auto simp: mput_def split: if_splits)

lemma set_mdel: "set (mdel k m) = {e \<in> set m. fst e \<noteq> k}"
  by (auto simp: mdel_def AList.delete_eq)

lemma mdel_filter: "mdel k m = filter (\<lambda>e. fst e \<noteq> k) m"
  by (auto simp: mdel_def AList.delete_eq intro!: filter_cong)

lemma keys_ok_filter: "keys_ok m \<Longrightarrow> keys_ok (filter P m)"
  by (simp add: keys_ok_def distinct_map_filter)

lemma mget_filter:
  assumes "keys_ok m"
  shows "mget (filter P m) k = (case mget m k of None \<Rightarrow> None | Some v \<Rightarrow> if P (k, v) then Some v else None)"
proof (cases "mget m k")
  case None
  then have "k \<notin> fst ` set (filter P m)" by (auto simp: mget_None_iff)
  then have "mget (filter P m) k = None" unfolding mget_None_iff .
  with None show ?thesis by simp
next
  case (Some v)
  have ok: "keys_ok (filter P m)" using assms by (rule keys_ok_filter)
  have only: "(k, u) \<in> set m \<Longrightarrow> u = v" for u
    using assms Some by (simp add: mget_in_iff)
  show ?thesis
  proof (cases "P (k, v)")
    case True
    with Some assms have "(k, v) \<in> set (filter P m)" by (simp add: mget_in_iff)
    with ok have "mget (filter P m) k = Some v" by (simp only: mget_in_iff)
    with Some True show ?thesis by simp
  next
    case False
    with only have "k \<notin> fst ` set (filter P m)" by auto
    then have "mget (filter P m) k = None" unfolding mget_None_iff .
    with Some False show ?thesis by simp
  qed
qed

lemma map_of_rev_keys_ok: "keys_ok m \<Longrightarrow> map_of (rev m) = map_of m"
proof (rule ext)
  fix k
  assume ok: "keys_ok m"
  show "map_of (rev m) k = map_of m k"
  proof (cases "map_of m k")
    case None
    then have "map_of (rev m) k = None" by (simp add: map_of_eq_None_iff)
    with None show ?thesis by simp
  next
    case (Some v)
    with ok show ?thesis
      by (auto simp: keys_ok_def rev_map [symmetric] dest: map_of_SomeD intro!: map_of_is_SomeI)
  qed
qed

text \<open>An entry in the middle of a map, which is where a range over the map meets it.\<close>

lemma mget_mid [simp]: "keys_ok (A @ (k, v) # B) \<Longrightarrow> mget (A @ (k, v) # B) k = Some v"
  by (simp add: mget_in_iff [symmetric])

lemma mdel_mid [simp]: "keys_ok (A @ (k, v) # B) \<Longrightarrow> mdel k (A @ (k, v) # B) = A @ B"
proof -
  assume "keys_ok (A @ (k, v) # B)"
  then have "k \<notin> fst ` set A" "k \<notin> fst ` set B" by (auto simp: keys_ok_def)
  then have "filter (\<lambda>e. fst e \<noteq> k) A = A" "filter (\<lambda>e. fst e \<noteq> k) B = B"
    by (auto simp: filter_id_conv)
  then show ?thesis by (simp add: mdel_filter)
qed

lemma keys_ok_mid: "keys_ok (A @ e # B) \<Longrightarrow> keys_ok (A @ B)"
  by (auto simp: keys_ok_def)

text \<open>Deleting every key of a list of entries.\<close>

definition mdel_all :: "('k \<times> 'w) list \<Rightarrow> ('k, 'v) gomap \<Rightarrow> ('k, 'v) gomap" where
  "mdel_all es m = fold (\<lambda>(k, _). mdel k) es m"

lemma mdel_all_filter: "mdel_all es m = filter (\<lambda>e. fst e \<notin> fst ` set es) m"
proof (induction es arbitrary: m)
  case Nil
  then show ?case by (simp add: mdel_all_def)
next
  case (Cons e es)
  have "mdel_all (e # es) m = mdel_all es (mdel (fst e) m)"
    by (simp add: mdel_all_def case_prod_beta)
  also have "\<dots> = filter (\<lambda>e. fst e \<notin> fst ` set es) (filter (\<lambda>x. fst x \<noteq> fst e) m)"
    by (simp only: Cons.IH mdel_filter)
  also have "\<dots> = filter (\<lambda>x. fst x \<notin> fst ` set (e # es)) m"
    unfolding filter_filter by (rule filter_cong) auto
  finally show ?case .
qed

lemma mdel_all_self [simp]: "mdel_all m m = []"
  by (auto simp: mdel_all_filter filter_empty_conv)

text \<open>A property of all entries of a map, kept by the map operations.\<close>

definition all_entries :: "('k \<Rightarrow> 'v \<Rightarrow> bool) \<Rightarrow> ('k, 'v) gomap \<Rightarrow> bool" where
  "all_entries P m \<longleftrightarrow> (\<forall>(k, v) \<in> set m. P k v)"

lemma all_entries_Nil [simp]: "all_entries P []"
  by (simp add: all_entries_def)

lemma all_entries_mput [intro, inv_intros]:
  "all_entries P m \<Longrightarrow> P k v \<Longrightarrow> all_entries P (mput k v m)"
  using set_mput_subset [of k v m] by (auto simp: all_entries_def)

lemma all_entries_mdel [intro, inv_intros]: "all_entries P m \<Longrightarrow> all_entries P (mdel k m)"
  by (auto simp: all_entries_def set_mdel)

lemma all_entries_filter [intro]: "all_entries P m \<Longrightarrow> all_entries P (filter Q m)"
  by (auto simp: all_entries_def)

lemma all_entries_get: "all_entries P m \<Longrightarrow> mget m k = Some v \<Longrightarrow> P k v"
  by (auto simp: all_entries_def dest: mget_Some_in)

lemma all_entries_mono:
  "all_entries P m \<Longrightarrow> (\<And>k v. P k v \<Longrightarrow> Q k v) \<Longrightarrow> all_entries Q m"
  by (auto simp: all_entries_def)

section \<open>Buffered channels\<close>

record 'a Chan =
  cbuf :: "'a list"
  ccap :: nat
  cclosed :: bool

text \<open>
  \<open>ch <- m\<close>: a send on a closed channel panics, on a full one it waits for a receiver.
\<close>

definition chan_send :: "'a Chan \<Rightarrow> 'a \<Rightarrow> ('a Chan, unit) result" where
  "chan_send ch m =
     (if cclosed ch then Panic ch ''send on closed channel''
      else if length (cbuf ch) < ccap ch then Return (ch\<lparr>cbuf := cbuf ch @ [m]\<rparr>) ()
      else Wait ch ''channel is full'')"

text \<open>\<open>close(ch)\<close>: what is in the channel can still be received.\<close>

definition chan_close :: "'a Chan \<Rightarrow> ('a Chan, unit) result" where
  "chan_close ch =
     (if cclosed ch then Panic ch ''close of closed channel'' else Return (ch\<lparr>cclosed := True\<rparr>) ())"

definition chan_ready :: "'a Chan \<Rightarrow> bool" where
  "chan_ready ch \<longleftrightarrow> \<not> cclosed ch \<and> length (cbuf ch) < ccap ch"

lemma chan_send_ready [simp]:
  "chan_ready ch \<Longrightarrow> chan_send ch m = Return (ch\<lparr>cbuf := cbuf ch @ [m]\<rparr>) ()"
  by (simp add: chan_send_def chan_ready_def)

lemma chan_send_cases:
  "chan_send ch m = r \<Longrightarrow>
   (\<And>ch'. r = Return ch' () \<Longrightarrow> ch' = ch\<lparr>cbuf := cbuf ch @ [m]\<rparr> \<Longrightarrow> P) \<Longrightarrow>
   (\<And>w. r = Panic ch w \<Longrightarrow> P) \<Longrightarrow> (\<And>w. r = Wait ch w \<Longrightarrow> P) \<Longrightarrow> P"
  by (auto simp: chan_send_def split: if_splits)

section \<open>Strings of the Go library\<close>

text \<open>
  \<open>strings.ToLower\<close> and \<open>strings.EqualFold\<close> on ASCII bytes, which is what maritime resource
  names and subjects are made of; bytes from 128 on are left as they are.
\<close>

definition lower_char :: "char \<Rightarrow> char" where
  "lower_char c = (if 65 \<le> (of_char c :: nat) \<and> (of_char c :: nat) \<le> 90
                   then char_of ((of_char c :: nat) + 32) else c)"

definition ToLower :: "string \<Rightarrow> string" where
  "ToLower s = map lower_char s"

definition EqualFold :: "string \<Rightarrow> string \<Rightarrow> bool" where
  "EqualFold s t \<longleftrightarrow> ToLower s = ToLower t"

lemma lower_char_idem [simp]: "lower_char (lower_char c) = lower_char c"
proof (cases "65 \<le> (of_char c :: nat) \<and> (of_char c :: nat) \<le> 90")
  case True
  then have "of_char (lower_char c) = (of_char c :: nat) + 32"
    by (simp add: lower_char_def)
  with True show ?thesis by (simp add: lower_char_def)
next
  case False
  then have "lower_char c = c" by (simp only: lower_char_def if_False)
  then show ?thesis by simp
qed

lemma ToLower_idem [simp]: "ToLower (ToLower s) = ToLower s"
  by (simp add: ToLower_def)

lemma ToLower_empty_iff [simp]: "ToLower s = [] \<longleftrightarrow> s = []"
  by (simp add: ToLower_def)

lemma EqualFold_refl [simp]: "EqualFold s s"
  by (simp add: EqualFold_def)

lemma EqualFold_sym: "EqualFold s t \<Longrightarrow> EqualFold t s"
  by (simp add: EqualFold_def)

lemma EqualFold_trans: "EqualFold s t \<Longrightarrow> EqualFold t u \<Longrightarrow> EqualFold s u"
  by (simp add: EqualFold_def)

lemma EqualFold_ToLower [simp]: "EqualFold (ToLower s) t \<longleftrightarrow> EqualFold s t"
  by (simp add: EqualFold_def)

text \<open>\<open>strconv.FormatInt(i, 10)\<close> and \<open>strconv.Itoa\<close>.\<close>

definition digit_char :: "nat \<Rightarrow> char" where
  "digit_char d = char_of (48 + d)"

fun format_nat :: "nat \<Rightarrow> string" where
  "format_nat n = (if n < 10 then [digit_char n] else format_nat (n div 10) @ [digit_char (n mod 10)])"

declare format_nat.simps [simp del]

definition FormatInt :: "int \<Rightarrow> string" where
  "FormatInt i = (if i < 0 then CHR ''-'' # format_nat (nat (- i)) else format_nat (nat i))"

definition parse_nat :: "string \<Rightarrow> nat" where
  "parse_nat s = foldl (\<lambda>n c. 10 * n + ((of_char c :: nat) - 48)) 0 s"

lemma of_digit_char: "d < 10 \<Longrightarrow> of_char (digit_char d) = (48 + d :: nat)"
  by (simp add: digit_char_def)

lemma parse_format_nat: "parse_nat (format_nat n) = n"
proof (induction n rule: format_nat.induct)
  case (1 n)
  show ?case
  proof (cases "n < 10")
    case True
    then show ?thesis by (simp add: format_nat.simps [of n] parse_nat_def of_digit_char)
  next
    case False
    with 1 have "parse_nat (format_nat (n div 10)) = n div 10" by simp
    with False show ?thesis
      by (simp add: format_nat.simps [of n] parse_nat_def of_digit_char)
  qed
qed

lemma format_nat_digits: "c \<in> set (format_nat n) \<Longrightarrow> 48 \<le> (of_char c :: nat)"
proof (induction n rule: format_nat.induct)
  case (1 n)
  then show ?case
    by (cases "n < 10") (auto simp: format_nat.simps [of n] of_digit_char)
qed

lemma FormatInt_inj: "FormatInt i = FormatInt j \<longleftrightarrow> i = j"
proof
  assume eq: "FormatInt i = FormatInt j"
  have minus: "CHR ''-'' \<notin> set (format_nat n)" for n
    using format_nat_digits [of "CHR ''-''" n] by fastforce
  have inj: "format_nat m = format_nat n \<Longrightarrow> m = n" for m n
    by (metis parse_format_nat)
  from eq show "i = j"
    by (cases "i < 0"; cases "j < 0")
      (auto simp: FormatInt_def dest!: inj dest: arg_cong [where f = set] intro: minus
        simp: minus [simplified] set_eq_iff, (metis list.set_intros(1) minus)+)
qed simp

section \<open>Slices\<close>

text \<open>A list without the later copies of its elements.\<close>

fun dedup :: "'a list \<Rightarrow> 'a list" where
  "dedup [] = []"
| "dedup (x # xs) = x # filter (\<lambda>y. y \<noteq> x) (dedup xs)"

lemma set_dedup [simp]: "set (dedup xs) = set xs"
  by (induction xs) auto

lemma distinct_dedup [simp]: "distinct (dedup xs)"
  by (induction xs) auto

text \<open>
  The loop of the unsubscribe handlers: the first interest equal to the subject up to case is
  overwritten by the last one and the slice is cut by one.
\<close>

fun index_fold :: "string \<Rightarrow> string list \<Rightarrow> nat option" where
  "index_fold s [] = None"
| "index_fold s (x # xs) = (if EqualFold s x then Some 0 else map_option Suc (index_fold s xs))"

definition swap_remove :: "string \<Rightarrow> string list \<Rightarrow> string list" where
  "swap_remove s xs =
     (case index_fold s xs of
        None \<Rightarrow> xs
      | Some i \<Rightarrow> butlast ((xs[i := last xs])[length xs - 1 := '''']))"

lemma index_fold_Some:
  "index_fold s xs = Some i \<Longrightarrow> i < length xs \<and> EqualFold s (xs ! i) \<and> (\<forall>j < i. \<not> EqualFold s (xs ! j))"
proof (induction xs arbitrary: i)
  case Nil
  then show ?case by simp
next
  case (Cons x xs)
  show ?case
  proof (cases "EqualFold s x")
    case True
    with Cons.prems show ?thesis by simp
  next
    case False
    with Cons.prems obtain k where k: "index_fold s xs = Some k" "i = Suc k" by auto
    with Cons.IH [of k] False show ?thesis by (auto simp: less_Suc_eq_0_disj)
  qed
qed

lemma index_fold_None: "index_fold s xs = None \<longleftrightarrow> (\<forall>x \<in> set xs. \<not> EqualFold s x)"
  by (induction xs) auto

lemma mset_swap_remove:
  "index_fold s xs = Some i \<Longrightarrow> mset (swap_remove s xs) = mset xs - {#xs ! i#}"
proof -
  assume idx: "index_fold s xs = Some i"
  then have i: "i < length xs" using index_fold_Some by blast
  then have ne: "xs \<noteq> []" by auto
  then obtain ys y where xs: "xs = ys @ [y]" by (metis rev_exhaust)
  have "swap_remove s xs = butlast (xs[i := y])"
    using idx xs i by (cases "i < length ys") (auto simp: swap_remove_def list_update_append)
  also have "mset \<dots> = mset xs - {#xs ! i#}"
  proof (cases "i < length ys")
    case True
    then show ?thesis
      by (simp add: xs list_update_append nth_append mset_update)
  next
    case False
    with i xs have "i = length ys" by simp
    then show ?thesis by (simp add: xs)
  qed
  finally show ?thesis .
qed

end
