(* ===== verification/Mmtp.thy ===== *)
theory Mmtp
  imports MmsPrelude
begin

text \<open>
  The MMTP messages of mmtp/mmtp.pb.go: its enumerations, its structs as records, its oneof
  wrappers as datatypes, and its generated getters. A pointer is an \<open>option\<close> (\<open>None\<close> is
  nil), so that the nil-safe getters are functions on options; the fields that protobuf keeps
  for itself (state, unknownFields, sizeCache) are left out. Enumerations are open in proto3:
  an int32 without a name is the constructor ending in \<open>_other\<close>.
\<close>

section \<open>Enumerations\<close>

datatype MsgType =
    MsgType_UNSPECIFIED_MESSAGE
  | MsgType_PROTOCOL_MESSAGE
  | MsgType_RESPONSE_MESSAGE
  | MsgType_other "32 word"

datatype ProtocolMessageType =
    ProtocolMessageType_UNSPECIFIED
  | ProtocolMessageType_SUBSCRIBE_MESSAGE
  | ProtocolMessageType_UNSUBSCRIBE_MESSAGE
  | ProtocolMessageType_SEND_MESSAGE
  | ProtocolMessageType_RECEIVE_MESSAGE
  | ProtocolMessageType_FETCH_MESSAGE
  | ProtocolMessageType_DISCONNECT_MESSAGE
  | ProtocolMessageType_CONNECT_MESSAGE
  | ProtocolMessageType_NOTIFY_MESSAGE
  | ProtocolMessageType_other "32 word"

datatype ResponseEnum =
    ResponseEnum_UNSPECIFIED_RESPONSE
  | ResponseEnum_GOOD
  | ResponseEnum_ERROR
  | ResponseEnum_other "32 word"

fun MsgType_Number :: "MsgType \<Rightarrow> 32 word" where
  "MsgType_Number MsgType_UNSPECIFIED_MESSAGE = 0"
| "MsgType_Number MsgType_PROTOCOL_MESSAGE = 1"
| "MsgType_Number MsgType_RESPONSE_MESSAGE = 2"
| "MsgType_Number (MsgType_other n) = n"

fun ProtocolMessageType_Number :: "ProtocolMessageType \<Rightarrow> 32 word" where
  "ProtocolMessageType_Number ProtocolMessageType_UNSPECIFIED = 0"
| "ProtocolMessageType_Number ProtocolMessageType_SUBSCRIBE_MESSAGE = 1"
| "ProtocolMessageType_Number ProtocolMessageType_UNSUBSCRIBE_MESSAGE = 2"
| "ProtocolMessageType_Number ProtocolMessageType_SEND_MESSAGE = 3"
| "ProtocolMessageType_Number ProtocolMessageType_RECEIVE_MESSAGE = 4"
| "ProtocolMessageType_Number ProtocolMessageType_FETCH_MESSAGE = 5"
| "ProtocolMessageType_Number ProtocolMessageType_DISCONNECT_MESSAGE = 6"
| "ProtocolMessageType_Number ProtocolMessageType_CONNECT_MESSAGE = 7"
| "ProtocolMessageType_Number ProtocolMessageType_NOTIFY_MESSAGE = 8"
| "ProtocolMessageType_Number (ProtocolMessageType_other n) = n"

fun ResponseEnum_Number :: "ResponseEnum \<Rightarrow> 32 word" where
  "ResponseEnum_Number ResponseEnum_UNSPECIFIED_RESPONSE = 0"
| "ResponseEnum_Number ResponseEnum_GOOD = 1"
| "ResponseEnum_Number ResponseEnum_ERROR = 2"
| "ResponseEnum_Number (ResponseEnum_other n) = n"

definition MsgType_name :: "(32 word \<times> string) list" where
  "MsgType_name =
    [(0, ''UNSPECIFIED_MESSAGE''), (1, ''PROTOCOL_MESSAGE''), (2, ''RESPONSE_MESSAGE'')]"

definition MsgType_value :: "(string \<times> 32 word) list" where
  "MsgType_value =
    [(''UNSPECIFIED_MESSAGE'', 0), (''PROTOCOL_MESSAGE'', 1), (''RESPONSE_MESSAGE'', 2)]"

definition ProtocolMessageType_name :: "(32 word \<times> string) list" where
  "ProtocolMessageType_name =
    [(0, ''UNSPECIFIED''), (1, ''SUBSCRIBE_MESSAGE''), (2, ''UNSUBSCRIBE_MESSAGE''),
     (3, ''SEND_MESSAGE''), (4, ''RECEIVE_MESSAGE''), (5, ''FETCH_MESSAGE''),
     (6, ''DISCONNECT_MESSAGE''), (7, ''CONNECT_MESSAGE''), (8, ''NOTIFY_MESSAGE'')]"

definition ProtocolMessageType_value :: "(string \<times> 32 word) list" where
  "ProtocolMessageType_value =
    [(''UNSPECIFIED'', 0), (''SUBSCRIBE_MESSAGE'', 1), (''UNSUBSCRIBE_MESSAGE'', 2),
     (''SEND_MESSAGE'', 3), (''RECEIVE_MESSAGE'', 4), (''FETCH_MESSAGE'', 5),
     (''DISCONNECT_MESSAGE'', 6), (''CONNECT_MESSAGE'', 7), (''NOTIFY_MESSAGE'', 8)]"

definition ResponseEnum_name :: "(32 word \<times> string) list" where
  "ResponseEnum_name = [(0, ''UNSPECIFIED_RESPONSE''), (1, ''GOOD''), (2, ''ERROR'')]"

definition ResponseEnum_value :: "(string \<times> 32 word) list" where
  "ResponseEnum_value = [(''UNSPECIFIED_RESPONSE'', 0), (''GOOD'', 1), (''ERROR'', 2)]"

section \<open>Application messages\<close>

record Recipients =
  Recipients_Recipients :: "string list"

datatype ApplicationMessageHeader_SubjectOrRecipient =
    ApplicationMessageHeader_Subject string
  | ApplicationMessageHeader_Recipients "Recipients option"

record ApplicationMessageHeader =
  SubjectOrRecipient :: "ApplicationMessageHeader_SubjectOrRecipient option"
  Expires :: int
  Sender :: string
  QosProfile :: "string option"
  BodySizeNumBytes :: "32 word"

record ApplicationMessage =
  Header :: "ApplicationMessageHeader option"
  AM_Body :: bytes
  AM_Signature :: bytes

fun GetRecipients_list :: "Recipients option \<Rightarrow> string list" where
  "GetRecipients_list (Some x) = Recipients_Recipients x"
| "GetRecipients_list None = []"

fun GetSubjectOrRecipient ::
    "ApplicationMessageHeader option \<Rightarrow> ApplicationMessageHeader_SubjectOrRecipient option" where
  "GetSubjectOrRecipient (Some x) = SubjectOrRecipient x"
| "GetSubjectOrRecipient None = None"

fun GetSubject :: "ApplicationMessageHeader option \<Rightarrow> string" where
  "GetSubject (Some x) =
     (case SubjectOrRecipient x of
        Some (ApplicationMessageHeader_Subject s) \<Rightarrow> s
      | _ \<Rightarrow> '''')"
| "GetSubject None = ''''"

fun GetRecipients :: "ApplicationMessageHeader option \<Rightarrow> Recipients option" where
  "GetRecipients (Some x) =
     (case SubjectOrRecipient x of
        Some (ApplicationMessageHeader_Recipients r) \<Rightarrow> r
      | _ \<Rightarrow> None)"
| "GetRecipients None = None"

fun GetExpires :: "ApplicationMessageHeader option \<Rightarrow> int" where
  "GetExpires (Some x) = Expires x"
| "GetExpires None = 0"

fun GetSender :: "ApplicationMessageHeader option \<Rightarrow> string" where
  "GetSender (Some x) = Sender x"
| "GetSender None = ''''"

fun GetQosProfile :: "ApplicationMessageHeader option \<Rightarrow> string" where
  "GetQosProfile (Some x) = (case QosProfile x of Some q \<Rightarrow> q | None \<Rightarrow> '''')"
| "GetQosProfile None = ''''"

fun GetBodySizeNumBytes :: "ApplicationMessageHeader option \<Rightarrow> 32 word" where
  "GetBodySizeNumBytes (Some x) = BodySizeNumBytes x"
| "GetBodySizeNumBytes None = 0"

fun GetHeader :: "ApplicationMessage option \<Rightarrow> ApplicationMessageHeader option" where
  "GetHeader (Some x) = Header x"
| "GetHeader None = None"

fun AM_GetBody :: "ApplicationMessage option \<Rightarrow> bytes" where
  "AM_GetBody (Some x) = AM_Body x"
| "AM_GetBody None = []"

fun GetSignature :: "ApplicationMessage option \<Rightarrow> bytes" where
  "GetSignature (Some x) = AM_Signature x"
| "GetSignature None = []"

section \<open>Protocol messages\<close>

datatype SubjectOrDirectMessages =
    Subscribe_Subject string
  | Subscribe_DirectMessages bool

record Subscribe =
  Subscribe_SubjectOrDirectMessages :: "SubjectOrDirectMessages option"

datatype Unsubscribe_SubjectOrDirectMessages =
    Unsubscribe_Subject string
  | Unsubscribe_DirectMessages bool

record Unsubscribe =
  Unsubscribe_SoD :: "Unsubscribe_SubjectOrDirectMessages option"

record Send =
  Send_ApplicationMessage :: "ApplicationMessage option"

text \<open>The slice of a filter distinguishes nil (\<open>None\<close>) from empty: HandleReceive asks for it.\<close>

record Filter =
  MessageUuids :: "string list option"

record Receive =
  Receive_Filter :: "Filter option"

datatype Fetch = Fetch

datatype Disconnect = Disconnect

record Connect =
  OwnMrn :: "string option"
  Connect_ReconnectToken :: "string option"

record MessageMetadata =
  MM_Uuid :: string
  MM_Header :: "ApplicationMessageHeader option"

record MessageContent =
  MC_Uuid :: string
  MC_Msg :: "ApplicationMessage option"

record Notify =
  Notify_MessageMetadata :: "MessageMetadata list"

datatype ProtocolMessage_Body =
    ProtocolMessage_SubscribeMessage "Subscribe option"
  | ProtocolMessage_UnsubscribeMessage "Unsubscribe option"
  | ProtocolMessage_SendMessage "Send option"
  | ProtocolMessage_ReceiveMessage "Receive option"
  | ProtocolMessage_FetchMessage "Fetch option"
  | ProtocolMessage_DisconnectMessage "Disconnect option"
  | ProtocolMessage_ConnectMessage "Connect option"
  | ProtocolMessage_NotifyMessage "Notify option"

record ProtocolMessage =
  ProtocolMsgType :: ProtocolMessageType
  PM_Body :: "ProtocolMessage_Body option"

record ResponseMessage =
  ResponseToUuid :: string
  Response :: ResponseEnum
  ReasonText :: "string option"
  RM_MessageMetadata :: "MessageMetadata list"
  RM_MessageContent :: "MessageContent list"
  RM_ReconnectToken :: "string option"

datatype MmtpMessage_Body =
    MmtpMessage_ProtocolMessage "ProtocolMessage option"
  | MmtpMessage_ResponseMessage "ResponseMessage option"

record MmtpMessage =
  MsgType :: MsgType
  Uuid :: string
  Body :: "MmtpMessage_Body option"

fun GetMsgType :: "MmtpMessage option \<Rightarrow> MsgType" where
  "GetMsgType (Some x) = MsgType x"
| "GetMsgType None = MsgType_UNSPECIFIED_MESSAGE"

fun GetUuid :: "MmtpMessage option \<Rightarrow> string" where
  "GetUuid (Some x) = Uuid x"
| "GetUuid None = ''''"

fun GetBody :: "MmtpMessage option \<Rightarrow> MmtpMessage_Body option" where
  "GetBody (Some x) = Body x"
| "GetBody None = None"

fun GetProtocolMessage :: "MmtpMessage option \<Rightarrow> ProtocolMessage option" where
  "GetProtocolMessage (Some x) =
     (case Body x of Some (MmtpMessage_ProtocolMessage p) \<Rightarrow> p | _ \<Rightarrow> None)"
| "GetProtocolMessage None = None"

fun GetResponseMessage :: "MmtpMessage option \<Rightarrow> ResponseMessage option" where
  "GetResponseMessage (Some x) =
     (case Body x of Some (MmtpMessage_ResponseMessage r) \<Rightarrow> r | _ \<Rightarrow> None)"
| "GetResponseMessage None = None"

fun GetProtocolMsgType :: "ProtocolMessage option \<Rightarrow> ProtocolMessageType" where
  "GetProtocolMsgType (Some x) = ProtocolMsgType x"
| "GetProtocolMsgType None = ProtocolMessageType_UNSPECIFIED"

fun GetSubscribeMessage :: "ProtocolMessage option \<Rightarrow> Subscribe option" where
  "GetSubscribeMessage (Some x) =
     (case PM_Body x of Some (ProtocolMessage_SubscribeMessage b) \<Rightarrow> b | _ \<Rightarrow> None)"
| "GetSubscribeMessage None = None"

fun GetUnsubscribeMessage :: "ProtocolMessage option \<Rightarrow> Unsubscribe option" where
  "GetUnsubscribeMessage (Some x) =
     (case PM_Body x of Some (ProtocolMessage_UnsubscribeMessage b) \<Rightarrow> b | _ \<Rightarrow> None)"
| "GetUnsubscribeMessage None = None"

fun GetSendMessage :: "ProtocolMessage option \<Rightarrow> Send option" where
  "GetSendMessage (Some x) =
     (case PM_Body x of Some (ProtocolMessage_SendMessage b) \<Rightarrow> b | _ \<Rightarrow> None)"
| "GetSendMessage None = None"

fun GetReceiveMessage :: "ProtocolMessage option \<Rightarrow> Receive option" where
  "GetReceiveMessage (Some x) =
     (case PM_Body x of Some (ProtocolMessage_ReceiveMessage b) \<Rightarrow> b | _ \<Rightarrow> None)"
| "GetReceiveMessage None = None"

fun GetFetchMessage :: "ProtocolMessage option \<Rightarrow> Fetch option" where
  "GetFetchMessage (Some x) =
     (case PM_Body x of Some (ProtocolMessage_FetchMessage b) \<Rightarrow> b | _ \<Rightarrow> None)"
| "GetFetchMessage None = None"

fun GetDisconnectMessage :: "ProtocolMessage option \<Rightarrow> Disconnect option" where
  "GetDisconnectMessage (Some x) =
     (case PM_Body x of Some (ProtocolMessage_DisconnectMessage b) \<Rightarrow> b | _ \<Rightarrow> None)"
| "GetDisconnectMessage None = None"

fun GetConnectMessage :: "ProtocolMessage option \<Rightarrow> Connect option" where
  "GetConnectMessage (Some x) =
     (case PM_Body x of Some (ProtocolMessage_ConnectMessage b) \<Rightarrow> b | _ \<Rightarrow> None)"
| "GetConnectMessage None = None"

fun GetNotifyMessage :: "ProtocolMessage option \<Rightarrow> Notify option" where
  "GetNotifyMessage (Some x) =
     (case PM_Body x of Some (ProtocolMessage_NotifyMessage b) \<Rightarrow> b | _ \<Rightarrow> None)"
| "GetNotifyMessage None = None"

fun GetSubjectOrDirectMessages :: "Subscribe option \<Rightarrow> SubjectOrDirectMessages option" where
  "GetSubjectOrDirectMessages (Some x) = Subscribe_SubjectOrDirectMessages x"
| "GetSubjectOrDirectMessages None = None"

fun Subscribe_GetSubject :: "Subscribe option \<Rightarrow> string" where
  "Subscribe_GetSubject (Some x) =
     (case Subscribe_SubjectOrDirectMessages x of Some (Subscribe_Subject s) \<Rightarrow> s | _ \<Rightarrow> '''')"
| "Subscribe_GetSubject None = ''''"

fun GetDirectMessages :: "Subscribe option \<Rightarrow> bool" where
  "GetDirectMessages (Some x) =
     (case Subscribe_SubjectOrDirectMessages x of Some (Subscribe_DirectMessages d) \<Rightarrow> d | _ \<Rightarrow> False)"
| "GetDirectMessages None = False"

fun Unsubscribe_GetSubjectOrDirectMessages ::
    "Unsubscribe option \<Rightarrow> Unsubscribe_SubjectOrDirectMessages option" where
  "Unsubscribe_GetSubjectOrDirectMessages (Some x) = Unsubscribe_SoD x"
| "Unsubscribe_GetSubjectOrDirectMessages None = None"

fun Unsubscribe_GetSubject :: "Unsubscribe option \<Rightarrow> string" where
  "Unsubscribe_GetSubject (Some x) =
     (case Unsubscribe_SoD x of Some (Unsubscribe_Subject s) \<Rightarrow> s | _ \<Rightarrow> '''')"
| "Unsubscribe_GetSubject None = ''''"

fun Unsubscribe_GetDirectMessages :: "Unsubscribe option \<Rightarrow> bool" where
  "Unsubscribe_GetDirectMessages (Some x) =
     (case Unsubscribe_SoD x of Some (Unsubscribe_DirectMessages d) \<Rightarrow> d | _ \<Rightarrow> False)"
| "Unsubscribe_GetDirectMessages None = False"

fun GetApplicationMessage :: "Send option \<Rightarrow> ApplicationMessage option" where
  "GetApplicationMessage (Some x) = Send_ApplicationMessage x"
| "GetApplicationMessage None = None"

fun GetFilter :: "Receive option \<Rightarrow> Filter option" where
  "GetFilter (Some x) = Receive_Filter x"
| "GetFilter None = None"

fun GetMessageUuids :: "Filter option \<Rightarrow> string list option" where
  "GetMessageUuids (Some x) = MessageUuids x"
| "GetMessageUuids None = None"

fun GetOwnMrn :: "Connect option \<Rightarrow> string" where
  "GetOwnMrn (Some x) = (case OwnMrn x of Some s \<Rightarrow> s | None \<Rightarrow> '''')"
| "GetOwnMrn None = ''''"

fun GetReconnectToken :: "Connect option \<Rightarrow> string" where
  "GetReconnectToken (Some x) = (case Connect_ReconnectToken x of Some s \<Rightarrow> s | None \<Rightarrow> '''')"
| "GetReconnectToken None = ''''"

fun Notify_GetMessageMetadata :: "Notify option \<Rightarrow> MessageMetadata list" where
  "Notify_GetMessageMetadata (Some x) = Notify_MessageMetadata x"
| "Notify_GetMessageMetadata None = []"

fun GetResponseToUuid :: "ResponseMessage option \<Rightarrow> string" where
  "GetResponseToUuid (Some x) = ResponseToUuid x"
| "GetResponseToUuid None = ''''"

fun GetResponse :: "ResponseMessage option \<Rightarrow> ResponseEnum" where
  "GetResponse (Some x) = Response x"
| "GetResponse None = ResponseEnum_UNSPECIFIED_RESPONSE"

fun GetReasonText :: "ResponseMessage option \<Rightarrow> string" where
  "GetReasonText (Some x) = (case ReasonText x of Some s \<Rightarrow> s | None \<Rightarrow> '''')"
| "GetReasonText None = ''''"

fun GetMessageMetadata :: "ResponseMessage option \<Rightarrow> MessageMetadata list" where
  "GetMessageMetadata (Some x) = RM_MessageMetadata x"
| "GetMessageMetadata None = []"

fun GetMessageContent :: "ResponseMessage option \<Rightarrow> MessageContent list" where
  "GetMessageContent (Some x) = RM_MessageContent x"
| "GetMessageContent None = []"

fun RM_GetReconnectToken :: "ResponseMessage option \<Rightarrow> string" where
  "RM_GetReconnectToken (Some x) = (case RM_ReconnectToken x of Some s \<Rightarrow> s | None \<Rightarrow> '''')"
| "RM_GetReconnectToken None = ''''"

fun MM_GetUuid :: "MessageMetadata option \<Rightarrow> string" where
  "MM_GetUuid (Some x) = MM_Uuid x"
| "MM_GetUuid None = ''''"

fun MM_GetHeader :: "MessageMetadata option \<Rightarrow> ApplicationMessageHeader option" where
  "MM_GetHeader (Some x) = MM_Header x"
| "MM_GetHeader None = None"

fun MC_GetUuid :: "MessageContent option \<Rightarrow> string" where
  "MC_GetUuid (Some x) = MC_Uuid x"
| "MC_GetUuid None = ''''"

fun GetMsg :: "MessageContent option \<Rightarrow> ApplicationMessage option" where
  "GetMsg (Some x) = MC_Msg x"
| "GetMsg None = None"

section \<open>Getter chains and message shapes\<close>

text \<open>The chains of getters that the handlers write out at every use.\<close>

abbreviation appMsgOf :: "MmtpMessage \<Rightarrow> ApplicationMessage option" where
  "appMsgOf m \<equiv> GetApplicationMessage (GetSendMessage (GetProtocolMessage (Some m)))"

abbreviation headerOf :: "MmtpMessage \<Rightarrow> ApplicationMessageHeader option" where
  "headerOf m \<equiv> GetHeader (appMsgOf m)"

text \<open>Composite literals the sources build: a response and a protocol message.\<close>

definition emptyResponse :: ResponseMessage where
  "emptyResponse = \<lparr>ResponseToUuid = '''', Response = ResponseEnum_UNSPECIFIED_RESPONSE,
     ReasonText = None, RM_MessageMetadata = [], RM_MessageContent = [], RM_ReconnectToken = None\<rparr>"

definition mkResponse :: "string \<Rightarrow> ResponseMessage \<Rightarrow> MmtpMessage" where
  "mkResponse u r = \<lparr>MsgType = MsgType_RESPONSE_MESSAGE, Uuid = u,
     Body = Some (MmtpMessage_ResponseMessage (Some r))\<rparr>"

definition mkProtocol :: "string \<Rightarrow> ProtocolMessageType \<Rightarrow> ProtocolMessage_Body \<Rightarrow> MmtpMessage" where
  "mkProtocol u t b = \<lparr>MsgType = MsgType_PROTOCOL_MESSAGE, Uuid = u,
     Body = Some (MmtpMessage_ProtocolMessage (Some \<lparr>ProtocolMsgType = t, PM_Body = Some b\<rparr>))\<rparr>"

definition goodResponse :: "string \<Rightarrow> ResponseMessage" where
  "goodResponse to = emptyResponse\<lparr>ResponseToUuid := to, Response := ResponseEnum_GOOD\<rparr>"

definition errorResponse :: "string \<Rightarrow> string \<Rightarrow> ResponseMessage" where
  "errorResponse to txt =
     emptyResponse\<lparr>ResponseToUuid := to, Response := ResponseEnum_ERROR, ReasonText := Some txt\<rparr>"

lemmas response_defs = mkResponse_def goodResponse_def errorResponse_def emptyResponse_def

lemma mkProtocol_simps [simp]:
  "Uuid (mkProtocol u t b) = u"
  "MsgType (mkProtocol u t b) = MsgType_PROTOCOL_MESSAGE"
  "Body (mkProtocol u t b) =
     Some (MmtpMessage_ProtocolMessage (Some \<lparr>ProtocolMsgType = t, PM_Body = Some b\<rparr>))"
  by (simp_all add: mkProtocol_def)

lemma mkResponse_simps [simp]:
  "Uuid (mkResponse u r) = u"
  "MsgType (mkResponse u r) = MsgType_RESPONSE_MESSAGE"
  "Body (mkResponse u r) = Some (MmtpMessage_ResponseMessage (Some r))"
  by (simp_all add: mkResponse_def)

lemma Response_simps [simp]:
  "Response (goodResponse t) = ResponseEnum_GOOD"
  "Response (errorResponse t x) = ResponseEnum_ERROR"
  "ResponseToUuid (goodResponse t) = t"
  "ResponseToUuid (errorResponse t x) = t"
  "ReasonText (goodResponse t) = None"
  "ReasonText (errorResponse t x) = Some x"
  "RM_MessageContent (goodResponse t) = []"
  "RM_MessageMetadata (goodResponse t) = []"
  by (simp_all add: response_defs)

text \<open>A header that names something has to be there.\<close>

lemma GetSubject_nonempty_Some: "GetSubject h \<noteq> '''' \<Longrightarrow> \<exists>x. h = Some x"
  by (cases h) auto

lemma GetRecipients_nonempty_Some: "GetRecipients_list (GetRecipients h) \<noteq> [] \<Longrightarrow> \<exists>x. h = Some x"
  by (cases h) auto

lemma GetSubjectOrRecipient_Some: "GetSubjectOrRecipient h = Some x \<Longrightarrow> \<exists>y. h = Some y"
  by (cases h) auto

lemma GetHeader_Some: "GetHeader a = Some h \<Longrightarrow> \<exists>x. a = Some x"
  by (cases a) auto

section \<open>Properties\<close>

text \<open>
  The name and value tables of each enumeration are inverse to each other.
\<close>

lemma enum_tables_inverse:
  "map (\<lambda>(n, s). (s, n)) MsgType_name = MsgType_value
   \<and> map (\<lambda>(n, s). (s, n)) ProtocolMessageType_name = ProtocolMessageType_value
   \<and> map (\<lambda>(n, s). (s, n)) ResponseEnum_name = ResponseEnum_value"
  by (simp add: MsgType_name_def MsgType_value_def ProtocolMessageType_name_def
      ProtocolMessageType_value_def ResponseEnum_name_def ResponseEnum_value_def)

end
