(* ===== verification/Rw.thy ===== *)
theory Rw
  imports Mmtp
begin

text \<open>
  Reading and writing MMTP messages on a websocket: utils/rw/read.go, utils/rw/write.go and
  utils/errMsg/errors.go. Protobuf, the websocket library, google/uuid and the clock are not
  part of the repository: they are the fields of \<open>Env\<close> and of \<open>Conn\<close>, arguments of every
  definition that uses them.
\<close>

section \<open>The environment and a connection\<close>

text \<open>
  \<open>proto.Marshal\<close> and \<open>proto.Unmarshal\<close>, the n-th result of \<open>uuid.NewString\<close>,
  \<open>uuid.Parse\<close> as a test, and the n-th reading of \<open>time.Now().Unix()\<close>.
\<close>

record Env =
  marshal :: "MmtpMessage \<Rightarrow> bytes option"
  unmarshal :: "bytes \<Rightarrow> MmtpMessage option"
  newUuid :: "nat \<Rightarrow> string"
  uuidValid :: "string \<Rightarrow> bool"
  clock :: "nat \<Rightarrow> int"

text \<open>
  What the components rely on: the encoding of a message decodes to that message (asked of
  single messages only, because protobuf identifies nil with empty slices), and generated
  UUIDs are valid, not empty and different from each other.
\<close>

definition codec_ok :: "Env \<Rightarrow> MmtpMessage \<Rightarrow> bool" where
  "codec_ok env m \<longleftrightarrow> (\<forall>b. marshal env m = Some b \<longrightarrow> unmarshal env b = Some m)"

definition uuids_ok :: "Env \<Rightarrow> bool" where
  "uuids_ok env \<longleftrightarrow> inj (newUuid env) \<and> (\<forall>n. newUuid env n \<noteq> '''' \<and> uuidValid env (newUuid env n))"

text \<open>
  A websocket connection: the frames still to be read, whether the n-th write or close fails,
  and the record of what was written and closed.
\<close>

record Conn =
  inbox :: "bytes list"
  writeFails :: "nat \<Rightarrow> bool"
  closeFails :: "nat \<Rightarrow> bool"
  writes :: nat
  frames :: "bytes list"
  closes :: "(nat \<times> string) list"

text \<open>
  The part of the state every handler threads: the connection it serves (nil or not), and how
  often it asked for a UUID and for the time.
\<close>

record Io =
  ws :: "Conn option"
  uuidn :: nat
  clockn :: nat

definition NewString :: "Env \<Rightarrow> Io \<Rightarrow> string \<times> Io" where
  "NewString env io = (newUuid env (uuidn io), io\<lparr>uuidn := Suc (uuidn io)\<rparr>)"

definition NowUnix :: "Env \<Rightarrow> Io \<Rightarrow> int \<times> Io" where
  "NowUnix env io = (clock env (clockn io), io\<lparr>clockn := Suc (clockn io)\<rparr>)"

section \<open>rw.ReadMessage and rw.WriteMessage\<close>

text \<open>
  \<open>c.Read\<close> takes the next frame; a connection without one is closed and reports an error.
\<close>

definition ReadMessage :: "Env \<Rightarrow> Conn option \<Rightarrow> Conn option \<times> (error + MmtpMessage \<times> nat)" where
  "ReadMessage env c =
     (case c of
        None \<Rightarrow> (None, Inl (Errorf ''no websocket connection''))
      | Some w \<Rightarrow>
          (case inbox w of
             [] \<Rightarrow> (Some w, Inl (Wrapf ''could not read message from Agent'' (Extern ''read'')))
           | b # bs \<Rightarrow>
               (case unmarshal env b of
                  None \<Rightarrow> (Some (w\<lparr>inbox := bs\<rparr>),
                           Inl (Wrapf ''could not unmarshal message'' (Extern ''unmarshal'')))
                | Some m \<Rightarrow> (Some (w\<lparr>inbox := bs\<rparr>), Inr (m, length b)))))"

definition WriteMessage :: "Env \<Rightarrow> Conn option \<Rightarrow> MmtpMessage \<Rightarrow> Conn option \<times> error option" where
  "WriteMessage env c m =
     (case c of
        None \<Rightarrow> (None, Some (Errorf ''no websocket connection''))
      | Some w \<Rightarrow>
          (case marshal env m of
             None \<Rightarrow> (Some w, Some (Wrapf ''could not marshal message'' (Extern ''marshal'')))
           | Some b \<Rightarrow>
               (let w' = w\<lparr>writes := Suc (writes w)\<rparr>
                in if writeFails w (writes w)
                   then (Some w', Some (Wrapf ''could not write message'' (Extern ''write'')))
                   else (Some (w'\<lparr>frames := frames w @ [b]\<rparr>), None))))"

text \<open>\<open>c.Close(code, reason)\<close> of the websocket library.\<close>

definition CloseConn :: "nat \<Rightarrow> string \<Rightarrow> Conn \<Rightarrow> Conn \<times> error option" where
  "CloseConn code reason w =
     (w\<lparr>closes := closes w @ [(code, reason)]\<rparr>,
      if closeFails w (length (closes w)) then Some (Extern ''close'') else None)"

definition StatusNormalClosure :: nat where "StatusNormalClosure = 1000"
definition StatusUnsupportedData :: nat where "StatusUnsupportedData = 1003"
definition StatusPolicyViolation :: nat where "StatusPolicyViolation = 1008"
definition StatusInternalError :: nat where "StatusInternalError = 1011"

text \<open>The two calls on the connection of an \<open>Io\<close>.\<close>

definition write_io :: "Env \<Rightarrow> Io \<Rightarrow> MmtpMessage \<Rightarrow> Io \<times> error option" where
  "write_io env io m = (let (c, e) = WriteMessage env (ws io) m in (io\<lparr>ws := c\<rparr>, e))"

definition close_io :: "nat \<Rightarrow> string \<Rightarrow> Io \<Rightarrow> Io \<times> error option" where
  "close_io code reason io =
     (case ws io of
        None \<Rightarrow> (io, Some (Extern ''close''))
      | Some w \<Rightarrow> (let (w', e) = CloseConn code reason w in (io\<lparr>ws := Some w'\<rparr>, e)))"

text \<open>errMsg.SendErrorMessage: an error response; a failed write is only logged.\<close>

definition SendErrorMessage :: "Env \<Rightarrow> string \<Rightarrow> string \<Rightarrow> Io \<Rightarrow> Io" where
  "SendErrorMessage env uid errorText io =
     (let (u, io) = NewString env io;
          resp = mkResponse u (errorResponse uid errorText)
      in fst (write_io env io resp))"

text \<open>
  The step that ends most handlers: a new UUID, a response with it, written to the connection.
\<close>

definition respond :: "Env \<Rightarrow> Io \<Rightarrow> ResponseMessage \<Rightarrow> Io \<times> error option" where
  "respond env io r = (let (u, io) = NewString env io in write_io env io (mkResponse u r))"

section \<open>Facts\<close>

text \<open>Frames on the connection of an \<open>Io\<close>; none when there is no connection.\<close>

definition framesOf :: "Io \<Rightarrow> bytes list" where
  "framesOf io = (case ws io of None \<Rightarrow> [] | Some w \<Rightarrow> frames w)"

definition closesOf :: "Io \<Rightarrow> (nat \<times> string) list" where
  "closesOf io = (case ws io of None \<Rightarrow> [] | Some w \<Rightarrow> closes w)"

definition inboxOf :: "Io \<Rightarrow> bytes list" where
  "inboxOf io = (case ws io of None \<Rightarrow> [] | Some w \<Rightarrow> inbox w)"

text \<open>
  The one outcome of a write: either it fails and no frame is added, or exactly the encoding of
  the message is added.
\<close>

definition wrote :: "Env \<Rightarrow> Io \<Rightarrow> Io \<Rightarrow> MmtpMessage \<Rightarrow> bool" where
  "wrote env io io' m \<longleftrightarrow> (\<exists>b. marshal env m = Some b \<and> framesOf io' = framesOf io @ [b])"

locale message_writer =
  fixes wr :: "'c \<Rightarrow> 'm \<Rightarrow> 'c \<times> error option"
    and enc :: "'m \<Rightarrow> 'b option"
    and log :: "'c \<Rightarrow> 'b list"
  assumes wr_ok: "wr c m = (c', None) \<Longrightarrow> \<exists>b. enc m = Some b \<and> log c' = log c @ [b]"
    and wr_err: "wr c m = (c', Some e) \<Longrightarrow> log c' = log c"
begin

lemma wr_log_mono: "\<exists>bs. log (fst (wr c m)) = log c @ bs \<and> length bs \<le> 1"
proof (cases "wr c m")
  case (Pair c' r)
  show ?thesis
  proof (cases r)
    case None
    with wr_ok Pair show ?thesis by fastforce
  next
    case (Some e)
    with wr_err Pair show ?thesis by fastforce
  qed
qed

lemma wr_unencodable: "enc m = None \<Longrightarrow> \<exists>e. snd (wr c m) = Some e"
proof (cases "wr c m")
  case (Pair c' r)
  assume "enc m = None"
  with wr_ok [of c m c'] Pair show ?thesis by (cases r) auto
qed

end

lemma write_io_ok:
  "write_io env io m = (io', None) \<Longrightarrow> \<exists>b. marshal env m = Some b \<and> framesOf io' = framesOf io @ [b]"
  by (auto simp: write_io_def WriteMessage_def framesOf_def Let_def
      split: option.splits if_splits prod.splits)

lemma write_io_err: "write_io env io m = (io', Some e) \<Longrightarrow> framesOf io' = framesOf io"
  by (auto simp: write_io_def WriteMessage_def framesOf_def Let_def
      split: option.splits if_splits prod.splits)

interpretation ww: message_writer "write_io env" "marshal env" framesOf
  by unfold_locales (auto dest: write_io_ok write_io_err)

lemma wrote_iff_ok: "write_io env io m = (io', None) \<Longrightarrow> wrote env io io' m"
  using ww.wr_ok by (simp add: wrote_def)

text \<open>What a write leaves alone.\<close>

lemma write_io_frame:
  "uuidn (fst (write_io env io m)) = uuidn io"
  "clockn (fst (write_io env io m)) = clockn io"
  "closesOf (fst (write_io env io m)) = closesOf io"
  "inboxOf (fst (write_io env io m)) = inboxOf io"
  by (auto simp: write_io_def WriteMessage_def closesOf_def inboxOf_def Let_def
      split: option.splits if_splits prod.splits)

lemma NewString_simps [simp]:
  "fst (NewString env io) = newUuid env (uuidn io)"
  "ws (snd (NewString env io)) = ws io"
  "uuidn (snd (NewString env io)) = Suc (uuidn io)"
  "clockn (snd (NewString env io)) = clockn io"
  by (simp_all add: NewString_def)

lemma framesOf_uuidn [simp]:
  "framesOf (io\<lparr>uuidn := n\<rparr>) = framesOf io"
  "framesOf (io\<lparr>clockn := n\<rparr>) = framesOf io"
  "closesOf (io\<lparr>uuidn := n\<rparr>) = closesOf io"
  "closesOf (io\<lparr>clockn := n\<rparr>) = closesOf io"
  "inboxOf (io\<lparr>uuidn := n\<rparr>) = inboxOf io"
  "inboxOf (io\<lparr>clockn := n\<rparr>) = inboxOf io"
  by (simp_all add: framesOf_def closesOf_def inboxOf_def)

text \<open>
  A response, described without the steps: it carries the next UUID, and the frame log grows by
  its encoding exactly when no error is reported.
\<close>

lemma respond_ok:
  "respond env io r = (io', None) \<Longrightarrow> wrote env io io' (mkResponse (newUuid env (uuidn io)) r)"
  using write_io_ok by (fastforce simp: respond_def NewString_def wrote_def)

lemma respond_err: "respond env io r = (io', Some e) \<Longrightarrow> framesOf io' = framesOf io"
  using write_io_err by (fastforce simp: respond_def NewString_def)

lemma respond_frame:
  "uuidn (fst (respond env io r)) = Suc (uuidn io)"
  "clockn (fst (respond env io r)) = clockn io"
  "closesOf (fst (respond env io r)) = closesOf io"
  "inboxOf (fst (respond env io r)) = inboxOf io"
  by (simp_all add: respond_def NewString_def write_io_frame)

lemma SendErrorMessage_respond:
  "SendErrorMessage env uid txt io = fst (respond env io (errorResponse uid txt))"
  by (simp add: SendErrorMessage_def respond_def Let_def split: prod.splits)

lemma ReadMessage_inbox:
  "ReadMessage env (ws io) = (c, Inr mn) \<Longrightarrow> length (inboxOf (io\<lparr>ws := c\<rparr>)) < length (inboxOf io)"
  by (auto simp: ReadMessage_def inboxOf_def split: option.splits list.splits)

text \<open>
  An environment in which every hypothesis of this section holds: messages travel as their
  UUID. It serves the witnesses.
\<close>

definition sample_env :: "(nat \<Rightarrow> int) \<Rightarrow> (bytes \<Rightarrow> MmtpMessage option) \<Rightarrow> Env" where
  "sample_env clk dec = \<lparr>marshal = (\<lambda>m. Some (Uuid m)), unmarshal = dec,
     newUuid = (\<lambda>n. CHR ''u'' # format_nat n), uuidValid = (\<lambda>u. u \<noteq> ''''), clock = clk\<rparr>"

definition sample_conn :: "bytes list \<Rightarrow> (nat \<Rightarrow> bool) \<Rightarrow> Conn" where
  "sample_conn inp bad = \<lparr>inbox = inp, writeFails = bad, closeFails = (\<lambda>_. False), writes = 0,
     frames = [], closes = []\<rparr>"

definition sample_io :: "bytes list \<Rightarrow> (nat \<Rightarrow> bool) \<Rightarrow> Io" where
  "sample_io inp bad = \<lparr>ws = Some (sample_conn inp bad), uuidn = 0, clockn = 0\<rparr>"

lemmas sample_defs = sample_env_def sample_conn_def sample_io_def

lemma sample_uuids_ok: "uuids_ok (sample_env clk dec)"
  unfolding uuids_ok_def sample_env_def
  by (auto intro!: injI) (metis parse_format_nat)

section \<open>Properties\<close>

text \<open>
  A message written by WriteMessage on one side is the message ReadMessage returns on the
  other, with the length of its frame; a nil connection is an error on both sides.
\<close>

lemma write_read_roundtrip:
  assumes "codec_ok env m"
    and "WriteMessage env (Some w) m = (Some w', None)"
    and "ws_peer = w_peer\<lparr>inbox := inbox w_peer @ [last (frames w')]\<rparr>"
    and "inbox w_peer = []"
  shows "frames w' = frames w @ [last (frames w')]
    \<and> ReadMessage env (Some ws_peer)
        = (Some (ws_peer\<lparr>inbox := []\<rparr>), Inr (m, length (last (frames w'))))
    \<and> WriteMessage env None m = (None, Some (Errorf ''no websocket connection''))
    \<and> ReadMessage env None = (None, Inl (Errorf ''no websocket connection''))"
proof -
  from assms(2) obtain b where b: "marshal env m = Some b" "frames w' = frames w @ [b]"
    by (auto simp: WriteMessage_def Let_def split: option.splits if_splits)
  with assms(1) have "unmarshal env b = Some m" by (simp add: codec_ok_def)
  with b assms(3,4) show ?thesis by (simp add: ReadMessage_def WriteMessage_def)
qed

end
