(* ===== verification/Consumer.thy ===== *)
theory Consumer
  imports Rw "HOL-Library.Multiset"
begin

text \<open>
  consumer/consumer.go: the message store of one connected client, used by the edge router for
  its agents and by the router for its edge routers. A \<open>Consumer\<close> is a record; the types that
  embed it in Go extend the record, so its methods apply to them unchanged. The mutexes MsgMu
  and NotifyMu are taken and freed inside each operation, which is one step here; theory
  \<open>Interleaving\<close> cuts the operations where they free a mutex.
\<close>

section \<open>State\<close>

record Consumer =
  Mrn :: string
  Interests :: "string list"
  Messages :: "(string, MmtpMessage) gomap"
  ReconnectToken :: string
  Notifications :: "(string, MmtpMessage) gomap"

definition new_consumer :: "string \<Rightarrow> Consumer" where
  "new_consumer mrn = \<lparr>Mrn = mrn, Interests = [], Messages = [], ReconnectToken = '''',
     Notifications = []\<rparr>"

section \<open>Operations\<close>

text \<open>
  QueueMessage; the receiver may be nil. An error leaves the consumer as it was.
\<close>

definition QueueMessage :: "'z Consumer_scheme option \<Rightarrow> MmtpMessage \<Rightarrow> error + 'z Consumer_scheme" where
  "QueueMessage c m =
     (case c of
        Some c \<Rightarrow>
          (let uUid = GetUuid (Some m)
           in if uUid = '''' then Inl (Errorf ''the message does not contain a UUID'')
              else Inr (c\<lparr>Messages := mput uUid m (Messages c),
                          Notifications := mput uUid m (Notifications c)\<rparr>))
      | None \<Rightarrow> Inl (Errorf ''consumer resolved to nil while trying to queue message''))"

definition BulkQueueMessages :: "'z Consumer_scheme \<Rightarrow> MmtpMessage list \<Rightarrow> 'z Consumer_scheme" where
  "BulkQueueMessages c ms = c\<lparr>Messages := fold (\<lambda>m. mput (Uuid m) m) ms (Messages c)\<rparr>"

definition metadataOf :: "MmtpMessage \<Rightarrow> MessageMetadata" where
  "metadataOf m = \<lparr>MM_Uuid = GetUuid (Some m), MM_Header = headerOf m\<rparr>"

text \<open>notify: one Notify message for all pending notifications, which are then dropped.\<close>

definition notify :: "Env \<Rightarrow> 'z Consumer_scheme \<Rightarrow> Io \<Rightarrow> 'z Consumer_scheme \<times> Io \<times> error option" where
  "notify env c io =
     (let notifications = map (\<lambda>(_, m). metadataOf m) (Notifications c);
          (u, io) = NewString env io;
          notifyMsg = mkProtocol u ProtocolMessageType_NOTIFY_MESSAGE
            (ProtocolMessage_NotifyMessage (Some \<lparr>Notify_MessageMetadata = notifications\<rparr>));
          (io, err) = write_io env io notifyMsg
      in case err of
           Some e \<Rightarrow> (c, io, Some (Wrapf ''could not send Notify to Producer'' e))
         | None \<Rightarrow>
             (c\<lparr>Notifications := mdel_all (Notifications c) (Notifications c)\<rparr>,
              io, None))"

text \<open>
  CheckNewMessages: the loop over the context and the five second timer; a list of events says
  which of the two fires.
\<close>

datatype tick = CtxDone | After5s

fun CheckNewMessages :: "Env \<Rightarrow> tick list \<Rightarrow> 'z Consumer_scheme \<times> Io \<Rightarrow> 'z Consumer_scheme \<times> Io" where
  "CheckNewMessages env [] s = s"
| "CheckNewMessages env (CtxDone # ts) s = s"
| "CheckNewMessages env (After5s # ts) (c, io) =
     CheckNewMessages env ts
       (if length (Notifications c) > 0
        then (let (c', io', err) = notify env c io in (c', io')) else (c, io))"

text \<open>The loop of HandleReceive over the requested UUIDs.\<close>

fun receive_loop ::
    "string list \<Rightarrow> (string, MmtpMessage) gomap \<Rightarrow> (string, MmtpMessage) gomap \<Rightarrow>
     MmtpMessage list \<Rightarrow> MessageContent list \<Rightarrow>
     (string, MmtpMessage) gomap \<times> (string, MmtpMessage) gomap \<times> MmtpMessage list \<times> MessageContent list" where
  "receive_loop [] M N ms cs = (M, N, ms, cs)"
| "receive_loop (msgUuid # us) M N ms cs =
     (case mget M msgUuid of
        Some mmtpMsg \<Rightarrow>
          receive_loop us (mdel msgUuid M) (mdel msgUuid N)
            (ms @ [mmtpMsg]) (cs @ [\<lparr>MC_Uuid = msgUuid, MC_Msg = appMsgOf mmtpMsg\<rparr>])
      | None \<Rightarrow> receive_loop us M N ms cs)"

text \<open>
  The loop of HandleReceive over all stored messages. \<open>msg.Header.Expires\<close> is a plain field
  access: without an application message or a header it panics.
\<close>

fun receive_all_loop ::
    "int \<Rightarrow> (string \<times> MmtpMessage) list \<Rightarrow> (string, MmtpMessage) gomap \<Rightarrow> MessageContent list \<Rightarrow>
     ((string, MmtpMessage) gomap, MessageContent list) result" where
  "receive_all_loop now [] N cs = Return N cs"
| "receive_all_loop now ((msgUuid, mmtpMsg) # es) N cs =
     (let msg = appMsgOf mmtpMsg
      in case GetHeader msg of
           None \<Rightarrow> Panic N nil_deref
         | Some h \<Rightarrow>
             if now \<le> Expires h
             then receive_all_loop now es (mdel msgUuid N) (cs @ [\<lparr>MC_Uuid = msgUuid, MC_Msg = msg\<rparr>])
             else receive_all_loop now es N cs)"

definition HandleReceive ::
    "Env \<Rightarrow> MmtpMessage \<Rightarrow> 'z Consumer_scheme \<times> Io \<Rightarrow> ('z Consumer_scheme \<times> Io, error option) result" where
  "HandleReceive env mmtpMessage s =
     (let (c, io) = s
      in case GetReceiveMessage (GetProtocolMessage (Some mmtpMessage)) of
        None \<Rightarrow> Return (c, io) None
      | Some receive \<Rightarrow>
          (case GetMessageUuids (GetFilter (Some receive)) of
             Some msgUuids \<Rightarrow>
               (let (M, N, mmtpMessages, msgContents) =
                      receive_loop msgUuids (Messages c) (Notifications c) [] [];
                    c = c\<lparr>Messages := M, Notifications := N\<rparr>;
                    (io, err) = respond env io
                      ((goodResponse (GetUuid (Some mmtpMessage)))\<lparr>RM_MessageContent := msgContents\<rparr>)
                in case err of
                     Some e \<Rightarrow> Return (BulkQueueMessages c mmtpMessages, io)
                                 (Some (Wrapf ''could not send messages to Consumer'' e))
                   | None \<Rightarrow> Return (c, io) None)
           | None \<Rightarrow>
               (let (now, io) = NowUnix env io
                in case receive_all_loop now (Messages c) (Notifications c) [] of
                     Panic N w \<Rightarrow> Panic (c\<lparr>Notifications := N\<rparr>, io) w
                   | Wait N w \<Rightarrow> Wait (c\<lparr>Notifications := N\<rparr>, io) w
                   | Return N msgContents \<Rightarrow>
                       (let c = c\<lparr>Notifications := N\<rparr>;
                            (io, err) = respond env io
                              ((goodResponse (GetUuid (Some mmtpMessage)))\<lparr>RM_MessageContent := msgContents\<rparr>)
                        in case err of
                             Some e \<Rightarrow> Return (c, io)
                                         (Some (Wrapf ''could not send messages to Consumer'' e))
                           | None \<Rightarrow> Return (c\<lparr>Messages := []\<rparr>, io) None))))"

definition HandleDisconnect ::
    "Env \<Rightarrow> MmtpMessage \<Rightarrow> Io \<Rightarrow> Io \<times> error option" where
  "HandleDisconnect env mmtpMessage io =
     (case GetDisconnectMessage (GetProtocolMessage (Some mmtpMessage)) of
        Some _ \<Rightarrow>
          (let (io, err) = respond env io (goodResponse (GetUuid (Some mmtpMessage)))
           in case err of
                Some e \<Rightarrow> (io, Some (Wrapf ''could not send disconnect response to Agent'' e))
              | None \<Rightarrow>
                  (let (io, err) = close_io StatusNormalClosure
                         ''Closed connection after receiving Disconnect message'' io
                   in case err of
                        Some e \<Rightarrow> (io, Some (Wrapf ''websocket could not be closed cleanly'' e))
                      | None \<Rightarrow> (io, None)))
      | None \<Rightarrow>
          (SendErrorMessage env (GetUuid (Some mmtpMessage))
             ''Mismatch between protocol message type and message body'' io,
           Some (Errorf ''message did not contain a Disconnect message in the body'')))"

text \<open>
  The loop of HandleFetch: it deletes while it ranges over the map, so an entry deleted before
  it is reached is not visited.
\<close>

fun fetch_loop ::
    "int \<Rightarrow> (string \<times> MmtpMessage) list \<Rightarrow> (string, MmtpMessage) gomap \<Rightarrow> MessageMetadata list \<Rightarrow>
     ((string, MmtpMessage) gomap, MessageMetadata list) result" where
  "fetch_loop now [] M md = Return M md"
| "fetch_loop now ((k, _) # es) M md =
     (case mget M k of
        None \<Rightarrow> fetch_loop now es M md
      | Some msg \<Rightarrow>
          (case headerOf msg of
             None \<Rightarrow> Panic M nil_deref
           | Some msgHeader \<Rightarrow>
               if Expires msgHeader < now then fetch_loop now es (mdel (Uuid msg) M) md
               else fetch_loop now es M
                      (md @ [\<lparr>MM_Uuid = GetUuid (Some msg), MM_Header = Some msgHeader\<rparr>])))"

definition HandleFetch ::
    "Env \<Rightarrow> MmtpMessage \<Rightarrow> 'z Consumer_scheme \<times> Io \<Rightarrow> ('z Consumer_scheme \<times> Io, error option) result" where
  "HandleFetch env mmtpMessage s =
     (let (c, io) = s
      in case GetFetchMessage (GetProtocolMessage (Some mmtpMessage)) of
        None \<Rightarrow> Return (c, io) None
      | Some fetch \<Rightarrow>
          (let (now, io) = NowUnix env io
           in case fetch_loop now (Messages c) (Messages c) [] of
                Panic M w \<Rightarrow> Panic (c\<lparr>Messages := M\<rparr>, io) w
              | Wait M w \<Rightarrow> Wait (c\<lparr>Messages := M\<rparr>, io) w
              | Return M metadata \<Rightarrow>
                  (let (io, err) = respond env io
                         ((goodResponse (GetUuid (Some mmtpMessage)))\<lparr>RM_MessageMetadata := metadata\<rparr>)
                   in case err of
                        Some e \<Rightarrow> Return (c\<lparr>Messages := M\<rparr>, io)
                                    (Some (Wrapf ''could not send fetch response to Consumer'' e))
                      | None \<Rightarrow> Return (c\<lparr>Messages := M\<rparr>, io) None)))"

text \<open>The garbage collection both routers run on each of their consumers.\<close>

fun gc_loop :: "int \<Rightarrow> (string \<times> MmtpMessage) list \<Rightarrow> (string, MmtpMessage) gomap \<Rightarrow> (string, MmtpMessage) gomap" where
  "gc_loop now [] M = M"
| "gc_loop now ((k, _) # es) M =
     (case mget M k of
        None \<Rightarrow> gc_loop now es M
      | Some m \<Rightarrow> gc_loop now es (if now > GetExpires (headerOf m) then mdel (Uuid m) M else M))"

definition gc_consumer :: "int \<Rightarrow> 'z Consumer_scheme \<Rightarrow> 'z Consumer_scheme" where
  "gc_consumer now c = c\<lparr>Messages := gc_loop now (Messages c) (Messages c)\<rparr>"

section \<open>The invariant\<close>

text \<open>
  Both maps have distinct keys and hold each message under its own, non-empty UUID; every
  message carries a header, which is what keeps HandleFetch and HandleReceive from panicking.
\<close>

definition storable :: "MmtpMessage \<Rightarrow> bool" where
  "storable m \<longleftrightarrow> Uuid m \<noteq> '''' \<and> headerOf m \<noteq> None"

definition entry_ok :: "string \<Rightarrow> MmtpMessage \<Rightarrow> bool" where
  "entry_ok k m \<longleftrightarrow> Uuid m = k \<and> storable m"

definition consumer_ok :: "'z Consumer_scheme \<Rightarrow> bool" where
  "consumer_ok c \<longleftrightarrow>
     keys_ok (Messages c) \<and> keys_ok (Notifications c) \<and>
     all_entries entry_ok (Messages c) \<and> all_entries entry_ok (Notifications c)"

lemma consumer_okI [inv_intros]:
  "keys_ok (Messages c) \<Longrightarrow> keys_ok (Notifications c) \<Longrightarrow>
   all_entries entry_ok (Messages c) \<Longrightarrow> all_entries entry_ok (Notifications c) \<Longrightarrow> consumer_ok c"
  by (simp add: consumer_ok_def)

lemma consumer_okD:
  assumes "consumer_ok c"
  shows "keys_ok (Messages c)" "keys_ok (Notifications c)"
    "all_entries entry_ok (Messages c)" "all_entries entry_ok (Notifications c)"
  using assms by (simp_all add: consumer_ok_def)

lemma consumer_ok_entry:
  "consumer_ok c \<Longrightarrow> mget (Messages c) k = Some m \<Longrightarrow> Uuid m = k \<and> k \<noteq> '''' \<and> headerOf m \<noteq> None"
  using consumer_okD(3) [of c] all_entries_get [of entry_ok "Messages c" k m]
  by (auto simp: entry_ok_def storable_def)

lemma consumer_ok_update [simp]:
  "consumer_ok (c\<lparr>Mrn := x\<rparr>) = consumer_ok c"
  "consumer_ok (c\<lparr>Interests := is\<rparr>) = consumer_ok c"
  "consumer_ok (c\<lparr>ReconnectToken := t\<rparr>) = consumer_ok c"
  by (simp_all add: consumer_ok_def)

lemma consumer_ok_new [simp]: "consumer_ok (new_consumer mrn)"
  by (simp add: new_consumer_def consumer_ok_def)

section \<open>What the loops compute\<close>

text \<open>
  A message is alive while the clock has not passed its expiration; the three loops that
  inspect it agree on that.
\<close>

definition alive :: "int \<Rightarrow> MmtpMessage \<Rightarrow> bool" where
  "alive now m \<longleftrightarrow> now \<le> GetExpires (headerOf m)"

definition contentOf :: "string \<times> MmtpMessage \<Rightarrow> MessageContent" where
  "contentOf e = \<lparr>MC_Uuid = fst e, MC_Msg = appMsgOf (snd e)\<rparr>"

definition taken :: "string list \<Rightarrow> (string, MmtpMessage) gomap \<Rightarrow> (string \<times> MmtpMessage) list" where
  "taken us M = map (\<lambda>u. (u, the (mget M u))) (filter (\<lambda>u. mget M u \<noteq> None) (dedup us))"

lemma taken_in: "(u, m) \<in> set (taken us M) \<longleftrightarrow> u \<in> set us \<and> mget M u = Some m"
  by (auto simp: taken_def)

lemma keys_ok_taken: "keys_ok (taken us M)"
  by (simp add: taken_def keys_ok_def comp_def)

lemma taken_Cons:
  "taken (u # us) M =
     (case mget M u of None \<Rightarrow> taken us M | Some m \<Rightarrow> (u, m) # taken us (mdel u M))"
proof (cases "mget M u")
  case None
  then have "filter (\<lambda>u. mget M u \<noteq> None) (filter (\<lambda>y. y \<noteq> u) (dedup us))
      = filter (\<lambda>u. mget M u \<noteq> None) (dedup us)"
    by (auto intro!: filter_cong)
  with None show ?thesis by (simp add: taken_def)
next
  case (Some m)
  have "filter (\<lambda>v. mget (mdel u M) v \<noteq> None) (dedup us)
      = filter (\<lambda>v. mget M v \<noteq> None) (filter (\<lambda>y. y \<noteq> u) (dedup us))"
    by (auto intro!: filter_cong)
  with Some show ?thesis by (auto simp: taken_def)
qed

lemma receive_loop_eq:
  "receive_loop us M N ms cs =
     (let ts = taken us M
      in (fst (receive_loop us M N [] []), fst (snd (receive_loop us M N [] [])),
          ms @ map snd ts, cs @ map contentOf ts))"
proof (induction us arbitrary: M N ms cs)
  case Nil
  then show ?case by (simp add: taken_def)
next
  case (Cons u us)
  show ?case
  proof (cases "mget M u")
    case None
    with Cons.IH [of M N ms cs] show ?thesis by (simp add: taken_Cons)
  next
    case (Some m)
    let ?c = "\<lparr>MC_Uuid = u, MC_Msg = appMsgOf m\<rparr>"
    have eq: "receive_loop (u # us) M N as bs
        = receive_loop us (mdel u M) (mdel u N) (as @ [m]) (bs @ [?c])" for as bs
      using Some by simp
    show ?thesis
      unfolding eq
      by (subst Cons.IH, subst (3 4) Cons.IH) (simp add: taken_Cons Some contentOf_def Let_def)
  qed
qed

lemma receive_loop_maps:
  "receive_loop us M N ms cs = (M', N', ms', cs') \<Longrightarrow>
   mget M' k = (if k \<in> set us then None else mget M k) \<and>
   mget N' k = (if k \<in> set us \<and> mget M k \<noteq> None then None else mget N k)"
  by (induction us arbitrary: M N ms cs) (auto split: option.splits if_splits)

lemma receive_loop_inv:
  "receive_loop us M N ms cs = (M', N', ms', cs') \<Longrightarrow>
   keys_ok M \<Longrightarrow> keys_ok N \<Longrightarrow> all_entries P M \<Longrightarrow> all_entries P N \<Longrightarrow>
   keys_ok M' \<and> keys_ok N' \<and> all_entries P M' \<and> all_entries P N'"
  by (induction us arbitrary: M N ms cs)
    (auto split: option.splits simp: gm.ok_del all_entries_mdel)

lemma receive_all_loop_eq:
  "all_entries entry_ok es \<Longrightarrow>
   receive_all_loop now es N cs =
     Return (mdel_all (filter (\<lambda>e. alive now (snd e)) es) N)
            (cs @ map contentOf (filter (\<lambda>e. alive now (snd e)) es))"
proof (induction es arbitrary: N cs)
  case Nil
  then show ?case by (simp add: mdel_all_def)
next
  case (Cons e es)
  obtain k m where e: "e = (k, m)" by (cases e)
  with Cons.prems obtain h where h: "headerOf m = Some h"
    by (auto simp: all_entries_def entry_ok_def storable_def)
  from Cons.prems have "all_entries entry_ok es" by (simp add: all_entries_def)
  note IH = Cons.IH [OF this]
  show ?case
    using h by (simp add: e IH alive_def contentOf_def mdel_all_def Let_def)
qed

lemma fetch_loop_eq:
  "keys_ok (A @ es) \<Longrightarrow> all_entries entry_ok es \<Longrightarrow>
   fetch_loop now es (A @ es) md =
     Return (A @ filter (\<lambda>e. alive now (snd e)) es)
            (md @ map (metadataOf \<circ> snd) (filter (\<lambda>e. alive now (snd e)) es))"
proof (induction es arbitrary: A md)
  case Nil
  then show ?case by simp
next
  case (Cons e es)
  obtain k m where e: "e = (k, m)" by (cases e)
  with Cons.prems(2) obtain h where h: "headerOf m = Some h" and k: "Uuid m = k"
    by (auto simp: all_entries_def entry_ok_def storable_def)
  from Cons.prems(2) have es: "all_entries entry_ok es" by (simp add: all_entries_def)
  note ok = Cons.prems(1) [unfolded e]
  show ?case
  proof (cases "Expires h < now")
    case True
    with h k ok Cons.IH [OF keys_ok_mid [OF ok] es, of md] show ?thesis
      by (simp add: e alive_def)
  next
    case False
    with h ok Cons.IH [of "A @ [(k, m)]" "md @ [metadataOf m]"] es show ?thesis
      by (simp add: e alive_def metadataOf_def)
  qed
qed

lemma gc_loop_eq:
  "keys_ok (A @ es) \<Longrightarrow> all_entries entry_ok es \<Longrightarrow>
   gc_loop now es (A @ es) = A @ filter (\<lambda>e. alive now (snd e)) es"
proof (induction es arbitrary: A)
  case Nil
  then show ?case by simp
next
  case (Cons e es)
  obtain k m where e: "e = (k, m)" by (cases e)
  with Cons.prems(2) have k: "Uuid m = k" by (auto simp: all_entries_def entry_ok_def)
  from Cons.prems(2) have es: "all_entries entry_ok es" by (simp add: all_entries_def)
  note ok = Cons.prems(1) [unfolded e]
  show ?case
  proof (cases "alive now m")
    case True
    with ok Cons.IH [of "A @ [(k, m)]"] es show ?thesis by (simp add: e alive_def)
  next
    case False
    with k ok Cons.IH [OF keys_ok_mid [OF ok] es] show ?thesis by (simp add: e alive_def)
  qed
qed

lemmas loop_eqs =
  fetch_loop_eq [of "[]", simplified] gc_loop_eq [of "[]", simplified] receive_all_loop_eq

section \<open>The queueing interface\<close>

text \<open>
  What the routers ask of a consumer: a message with a UUID is stored under it and nothing else
  changes, one without is refused, and the invariant is kept. Delivering to a list of
  addresses, as the routers' loops do, then stores the message at exactly those addresses.
\<close>

locale message_queue =
  fixes enq :: "'c \<Rightarrow> 'm \<Rightarrow> error + 'c"
    and stored :: "'c \<Rightarrow> string \<Rightarrow> 'm option"
    and uid :: "'m \<Rightarrow> string"
    and ok :: "'c \<Rightarrow> bool"
    and fit :: "'m \<Rightarrow> bool"
  assumes enq_Inr: "enq c m = Inr c' \<Longrightarrow>
      uid m \<noteq> '''' \<and> stored c' = (stored c)(uid m \<mapsto> m)"
    and enq_total: "uid m \<noteq> '''' \<Longrightarrow> \<exists>c'. enq c m = Inr c'"
    and enq_ok: "ok c \<Longrightarrow> fit m \<Longrightarrow> enq c m = Inr c' \<Longrightarrow> ok c'"
begin

lemma enq_Inl: "enq c m = Inl e \<Longrightarrow> uid m = ''''"
  using enq_total [of m c] by auto

lemma fold_enq_stored:
  "stored (fold (\<lambda>a h. case enq (h a) m of Inl e \<Rightarrow> h | Inr c \<Rightarrow> h(a := c)) as h b) k =
     (if b \<in> set as \<and> uid m \<noteq> '''' \<and> k = uid m then Some m else stored (h b) k)"
proof (induction as arbitrary: h)
  case Nil
  then show ?case by simp
next
  case (Cons a as)
  show ?case
  proof (cases "enq (h a) m")
    case (Inl e)
    with enq_Inl have "uid m = ''''" by blast
    with Inl Cons.IH [of h] show ?thesis by simp
  next
    case (Inr c)
    note st = enq_Inr [OF Inr]
    show ?thesis
      by (simp add: Inr Cons.IH [of "h(a := c)"]) (use st in auto)
  qed
qed

lemma fold_enq_ok:
  "(\<And>a. ok (h a)) \<Longrightarrow> fit m \<Longrightarrow>
   ok (fold (\<lambda>a h. case enq (h a) m of Inl e \<Rightarrow> h | Inr c \<Rightarrow> h(a := c)) as h b)"
proof (induction as arbitrary: h)
  case (Cons a as)
  show ?case
  proof (cases "enq (h a) m")
    case (Inl e)
    with Cons show ?thesis by simp
  next
    case (Inr c)
    have "ok c" by (rule enq_ok [OF Cons.prems Inr])
    with Inr Cons show ?thesis by simp
  qed
qed simp

lemma fold_enq_other:
  "b \<notin> set as \<Longrightarrow>
   fold (\<lambda>a h. case enq (h a) m of Inl e \<Rightarrow> h | Inr c \<Rightarrow> h(a := c)) as h b = h b"
proof (induction as arbitrary: h)
  case (Cons a as)
  then show ?case by (cases "enq (h a) m") auto
qed simp

end

lemma QueueMessage_Inr:
  "QueueMessage (Some c) m = Inr c' \<Longrightarrow>
   Uuid m \<noteq> '''' \<and> c' = c\<lparr>Messages := mput (Uuid m) m (Messages c),
                          Notifications := mput (Uuid m) m (Notifications c)\<rparr>"
  by (auto simp: QueueMessage_def Let_def split: if_splits)

lemma QueueMessage_total: "Uuid m \<noteq> '''' \<Longrightarrow> \<exists>c'. QueueMessage (Some c) m = Inr c'"
  by (simp add: QueueMessage_def Let_def)

lemma QueueMessage_ok:
  "consumer_ok c \<Longrightarrow> storable m \<Longrightarrow> QueueMessage (Some c) m = Inr c' \<Longrightarrow> consumer_ok c'"
  by (auto simp: consumer_ok_def entry_ok_def dest!: QueueMessage_Inr
      intro!: gm.ok_put all_entries_mput)

interpretation mq: message_queue
    "\<lambda>c. QueueMessage (Some c)" "\<lambda>c. mget (Messages c)" Uuid consumer_ok storable
  by unfold_locales
    (auto simp: fun_eq_iff dest: QueueMessage_Inr QueueMessage_total intro: QueueMessage_ok)

interpretation nq: message_queue
    "\<lambda>c. QueueMessage (Some c)" "\<lambda>c. mget (Notifications c)" Uuid consumer_ok storable
  by unfold_locales
    (auto simp: fun_eq_iff dest: QueueMessage_Inr QueueMessage_total intro: QueueMessage_ok)

text \<open>
  The loop of both routers that queues one message for several consumers, logging errors. The
  consumers live on a heap; an address stands for the pointer the Go maps hold.
\<close>

definition queue_all ::
    "MmtpMessage \<Rightarrow> nat list \<Rightarrow> (nat \<Rightarrow> 'z Consumer_scheme) \<Rightarrow> (nat \<Rightarrow> 'z Consumer_scheme)" where
  "queue_all m as h =
     fold (\<lambda>a h. case QueueMessage (Some (h a)) m of Inl e \<Rightarrow> h | Inr c \<Rightarrow> h(a := c)) as h"

lemma queue_all_Messages:
  "mget (Messages (queue_all m as h b)) k =
     (if b \<in> set as \<and> Uuid m \<noteq> '''' \<and> k = Uuid m then Some m else mget (Messages (h b)) k)"
  unfolding queue_all_def by (rule mq.fold_enq_stored)

lemma queue_all_Notifications:
  "mget (Notifications (queue_all m as h b)) k =
     (if b \<in> set as \<and> Uuid m \<noteq> '''' \<and> k = Uuid m then Some m else mget (Notifications (h b)) k)"
  unfolding queue_all_def by (rule nq.fold_enq_stored)

lemma queue_all_ok: "(\<And>a. consumer_ok (h a)) \<Longrightarrow> storable m \<Longrightarrow> consumer_ok (queue_all m as h b)"
  unfolding queue_all_def by (rule mq.fold_enq_ok)

lemma queue_all_other: "b \<notin> set as \<Longrightarrow> queue_all m as h b = h b"
  unfolding queue_all_def by (rule mq.fold_enq_other)

lemma queue_all_Nil [simp]: "queue_all m [] h = h"
  by (simp add: queue_all_def)

text \<open>Queueing touches the two message maps only.\<close>

lemma queue_all_frame:
  "Mrn (queue_all m as h b) = Mrn (h b)"
  "Interests (queue_all m as h b) = Interests (h b)"
  "ReconnectToken (queue_all m as h b) = ReconnectToken (h b)"
  "Consumer.more (queue_all m as h b) = Consumer.more (h b)"
  unfolding queue_all_def
  by (induction as arbitrary: h) (auto simp: QueueMessage_def Let_def split: if_splits)

lemma queue_all_no_uuid: "Uuid m = '''' \<Longrightarrow> queue_all m as h = h"
  unfolding queue_all_def by (induction as arbitrary: h) (auto simp: QueueMessage_def Let_def)

lemma queue_all_append: "queue_all m (as @ bs) h = queue_all m bs (queue_all m as h)"
  by (simp add: queue_all_def)

lemma queue_all_single: "queue_all m cs (queue_all m [b] h) = queue_all m (b # cs) h"
  using queue_all_append [of m "[b]" cs h] by simp

section \<open>Every operation keeps the invariant\<close>

lemma BulkQueueMessages_ok:
  "consumer_ok c \<Longrightarrow> \<forall>m \<in> set ms. storable m \<Longrightarrow> consumer_ok (BulkQueueMessages c ms)"
proof (induction ms arbitrary: c)
  case Nil
  then show ?case by (simp add: BulkQueueMessages_def)
next
  case (Cons m ms)
  have "consumer_ok (c\<lparr>Messages := mput (Uuid m) m (Messages c)\<rparr>)"
    using Cons.prems by (auto simp: consumer_ok_def entry_ok_def intro!: gm.ok_put all_entries_mput)
  from Cons.IH [OF this] Cons.prems show ?case by (simp add: BulkQueueMessages_def)
qed

lemma taken_storable:
  "all_entries entry_ok M \<Longrightarrow> m \<in> snd ` set (taken us M) \<Longrightarrow> storable m"
  using taken_in [of _ m us M] all_entries_get [of entry_ok M _ m]
  by (fastforce simp: entry_ok_def)

lemma HandleReceive_ok:
  assumes c: "consumer_ok c" and r: "HandleReceive env m (c, io) = Return (c', io') e"
  shows "consumer_ok c'"
proof -
  note D = consumer_okD [OF c]
  have filtered: "consumer_ok (c\<lparr>Messages := M, Notifications := N\<rparr>)"
      "consumer_ok (BulkQueueMessages (c\<lparr>Messages := M, Notifications := N\<rparr>) ms)"
    if L: "receive_loop us (Messages c) (Notifications c) [] [] = (M, N, ms, cs)" for us M N ms cs
  proof -
    show 1: "consumer_ok (c\<lparr>Messages := M, Notifications := N\<rparr>)"
      using receive_loop_inv [OF L D] by (simp add: consumer_ok_def)
    have "ms = map snd (taken us (Messages c))"
      using L by (subst (asm) receive_loop_eq) (simp add: Let_def)
    then show "consumer_ok (BulkQueueMessages (c\<lparr>Messages := M, Notifications := N\<rparr>) ms)"
      using 1 taken_storable [OF D(3)] by (intro BulkQueueMessages_ok) auto
  qed
  have all: "consumer_ok (c\<lparr>Notifications := mdel_all es (Notifications c)\<rparr>)"
      "consumer_ok (c\<lparr>Notifications := mdel_all es (Notifications c), Messages := []\<rparr>)"
      "consumer_ok (c\<lparr>Messages := [], Notifications := mdel_all es (Notifications c)\<rparr>)" for es
    using D by (auto simp: consumer_ok_def mdel_all_filter keys_ok_filter)
  show ?thesis
    using r c filtered all
    by (auto simp: HandleReceive_def loop_eqs(3) [OF D(3)] Let_def
        split: option.splits prod.splits)
qed

lemma HandleFetch_ok:
  assumes c: "consumer_ok c" and r: "HandleFetch env m (c, io) = Return (c', io') e"
  shows "consumer_ok c'"
proof -
  note D = consumer_okD [OF c]
  have "consumer_ok (c\<lparr>Messages := filter P (Messages c)\<rparr>)" for P
    using D by (auto simp: consumer_ok_def keys_ok_filter)
  with c r show ?thesis
    by (auto simp: HandleFetch_def loop_eqs(1) [OF D(1,3)] Let_def
        split: option.splits prod.splits)
qed

lemma gc_consumer_eq:
  "consumer_ok c \<Longrightarrow>
   gc_consumer now c = c\<lparr>Messages := filter (\<lambda>e. alive now (snd e)) (Messages c)\<rparr>"
  by (simp add: gc_consumer_def loop_eqs consumer_okD)

lemma gc_consumer_ok [inv_intros]: "consumer_ok c \<Longrightarrow> consumer_ok (gc_consumer now c)"
  by (auto simp: gc_consumer_eq) (auto simp: consumer_ok_def keys_ok_filter)

lemma notify_state:
  "notify env c io = (c', io', err) \<Longrightarrow>
   c' = (case err of None \<Rightarrow> c\<lparr>Notifications := []\<rparr> | Some e \<Rightarrow> c)"
  by (auto simp: notify_def Let_def split: prod.splits option.splits)

lemma CheckNewMessages_ok: "consumer_ok c \<Longrightarrow> consumer_ok (fst (CheckNewMessages env ts (c, io)))"
proof (induction env ts "(c, io)" arbitrary: c io rule: CheckNewMessages.induct)
  case (3 env ts c io)
  have "consumer_ok (fst (notify env c io))"
    using "3.prems" by (cases "notify env c io")
      (auto dest!: notify_state simp: consumer_ok_def split: option.splits)
  with 3 show ?case by (auto split: prod.splits)
qed simp_all

lemma HandleFetch_returns: "consumer_ok c \<Longrightarrow> returns (HandleFetch env m (c, io))"
  by (auto simp: HandleFetch_def loop_eqs(1) consumer_okD Let_def split: option.splits prod.splits)

lemma HandleReceive_returns: "consumer_ok c \<Longrightarrow> returns (HandleReceive env m (c, io))"
  by (auto simp: HandleReceive_def loop_eqs(3) consumer_okD Let_def split: option.splits prod.splits)

text \<open>What the operations leave alone: everything but the two message maps.\<close>

definition same_owner :: "'z Consumer_scheme \<Rightarrow> 'z Consumer_scheme \<Rightarrow> bool" where
  "same_owner c c' \<longleftrightarrow> Mrn c' = Mrn c \<and> Interests c' = Interests c
     \<and> ReconnectToken c' = ReconnectToken c \<and> Consumer.more c' = Consumer.more c"

lemma HandleReceive_owner: "same_owner c (fst (state_of (HandleReceive env m (c, io))))"
  by (auto simp: HandleReceive_def BulkQueueMessages_def same_owner_def Let_def
      split: option.splits prod.splits result.splits)

lemma HandleFetch_owner: "same_owner c (fst (state_of (HandleFetch env m (c, io))))"
  by (auto simp: HandleFetch_def same_owner_def Let_def split: option.splits prod.splits result.splits)

lemma gc_consumer_owner: "same_owner c (gc_consumer now c)"
  by (simp add: gc_consumer_def same_owner_def)

lemma CheckNewMessages_owner: "same_owner c (fst (CheckNewMessages env ts (c, io)))"
proof (induction env ts "(c, io)" arbitrary: c io rule: CheckNewMessages.induct)
  case (3 env ts c io)
  have "same_owner c (fst (notify env c io))"
    by (cases "notify env c io")
      (auto dest!: notify_state simp: same_owner_def split: option.splits)
  with 3 show ?case by (auto simp: same_owner_def split: prod.splits)
qed (simp_all add: same_owner_def)

lemma HandleReceive_state_ok: "consumer_ok c \<Longrightarrow> consumer_ok (fst (state_of (HandleReceive env m (c, io))))"
  using HandleReceive_returns [of c env m io]
  by (cases "HandleReceive env m (c, io)") (auto dest: HandleReceive_ok)

lemma HandleFetch_state_ok: "consumer_ok c \<Longrightarrow> consumer_ok (fst (state_of (HandleFetch env m (c, io))))"
  using HandleFetch_returns [of c env m io]
  by (cases "HandleFetch env m (c, io)") (auto dest: HandleFetch_ok)

section \<open>Properties\<close>

lemma taken_lookup: "mget (taken us M) k = (if k \<in> set us then mget M k else None)"
proof (cases "k \<in> set us \<and> mget M k \<noteq> None")
  case True
  then obtain m where "mget M k = Some m" by auto
  with True have "(k, m) \<in> set (taken us M)" by (simp add: taken_in)
  with True \<open>mget M k = Some m\<close> keys_ok_taken [of us M] show ?thesis by (simp add: mget_in_iff)
next
  case False
  have "k \<notin> fst ` set (taken us M)"
  proof
    assume "k \<in> fst ` set (taken us M)"
    then obtain m where "(k, m) \<in> set (taken us M)" by auto
    with False show False by (simp add: taken_in)
  qed
  then have "mget (taken us M) k = None" unfolding mget_None_iff .
  with False show ?thesis by auto
qed

text \<open>Putting the taken messages back restores the map they were taken from.\<close>

lemma requeue_taken:
  assumes M: "all_entries entry_ok M"
    and M': "\<And>k. mget M' k = (if k \<in> set us then None else mget M k)"
  shows "mget (fold (\<lambda>m. mput (Uuid m) m) (map snd (taken us M)) M') k = mget M k"
proof -
  let ?ts = "taken us M"
  have "map (\<lambda>m. (Uuid m, m)) (map snd ?ts) = ?ts"
  proof (rule nth_equalityI)
    fix i assume i: "i < length (map (\<lambda>m. (Uuid m, m)) (map snd ?ts))"
    obtain u m where um: "?ts ! i = (u, m)" by (cases "?ts ! i")
    with i have "(u, m) \<in> set ?ts" by (metis length_map nth_mem)
    then have "mget M u = Some m" by (simp add: taken_in)
    with M have "Uuid m = u" using all_entries_get by (fastforce simp: entry_ok_def)
    with um i show "map (\<lambda>m. (Uuid m, m)) (map snd ?ts) ! i = ?ts ! i" by simp
  qed simp
  moreover have "map_of (rev ?ts) = map_of ?ts"
    by (rule map_of_rev_keys_ok) (rule keys_ok_taken)
  ultimately have "mget (fold (\<lambda>m. mput (Uuid m) m) (map snd ?ts) M') k =
      (case mget ?ts k of Some v \<Rightarrow> Some v | None \<Rightarrow> mget M' k)"
    using gm.get_fold_put [of Uuid "\<lambda>m. m" "map snd ?ts" M' k] by (simp add: mget_def)
  also have "\<dots> = mget M k" by (auto simp: taken_lookup M' split: option.splits)
  finally show ?thesis .
qed

text \<open>Sample messages for the witnesses.\<close>

definition sample_app :: "string \<Rightarrow> int \<Rightarrow> ApplicationMessage" where
  "sample_app subj expires = \<lparr>Header = Some \<lparr>SubjectOrRecipient = Some (ApplicationMessageHeader_Subject subj),
     Expires = expires, Sender = ''urn:mrn:a'', QosProfile = None, BodySizeNumBytes = 4\<rparr>,
     AM_Body = ''body'', AM_Signature = ''sig''\<rparr>"

definition sample_msg :: "string \<Rightarrow> string \<Rightarrow> int \<Rightarrow> MmtpMessage" where
  "sample_msg u subj expires = mkProtocol u ProtocolMessageType_SEND_MESSAGE
     (ProtocolMessage_SendMessage (Some \<lparr>Send_ApplicationMessage = Some (sample_app subj expires)\<rparr>))"

definition sample_receive :: "string list option \<Rightarrow> MmtpMessage" where
  "sample_receive us = mkProtocol ''req'' ProtocolMessageType_RECEIVE_MESSAGE
     (ProtocolMessage_ReceiveMessage (Some \<lparr>Receive_Filter = Some \<lparr>MessageUuids = us\<rparr>\<rparr>))"

definition sample_fetch :: MmtpMessage where
  "sample_fetch = mkProtocol ''req'' ProtocolMessageType_FETCH_MESSAGE
     (ProtocolMessage_FetchMessage (Some Fetch))"

definition sample_consumer :: Consumer where
  "sample_consumer = (new_consumer ''urn:mrn:b'')
     \<lparr>Messages := [(''m1'', sample_msg ''m1'' ''s'' 5), (''m2'', sample_msg ''m2'' ''s'' 20)],
      Notifications := [(''m2'', sample_msg ''m2'' ''s'' 20)]\<rparr>"

lemma sample_msg_simps [simp]:
  "Uuid (sample_msg u s x) = u"
  "MsgType (sample_msg u s x) = MsgType_PROTOCOL_MESSAGE"
  "Body (sample_msg u s x) = Some (MmtpMessage_ProtocolMessage (Some
     \<lparr>ProtocolMsgType = ProtocolMessageType_SEND_MESSAGE,
      PM_Body = Some (ProtocolMessage_SendMessage
        (Some \<lparr>Send_ApplicationMessage = Some (sample_app s x)\<rparr>))\<rparr>))"
  by (simp_all add: sample_msg_def)

lemma sample_app_simps [simp]:
  "Header (sample_app s x) = Some \<lparr>SubjectOrRecipient = Some (ApplicationMessageHeader_Subject s),
     Expires = x, Sender = ''urn:mrn:a'', QosProfile = None, BodySizeNumBytes = 4\<rparr>"
  by (simp add: sample_app_def)

lemma sample_consumer_ok: "consumer_ok sample_consumer"
  by (simp add: sample_consumer_def new_consumer_def consumer_ok_def keys_ok_def
      all_entries_def entry_ok_def storable_def)

lemma receive_requested:
  assumes "GetReceiveMessage (GetProtocolMessage (Some m)) = Some r"
    and "GetMessageUuids (GetFilter (Some r)) = Some us"
    and "HandleReceive env m (c, io) = Return (c', io') None"
  shows "wrote env io io' (mkResponse (newUuid env (uuidn io))
           ((goodResponse (Uuid m))\<lparr>RM_MessageContent := map contentOf (taken us (Messages c))\<rparr>))
    \<and> mget (Messages c') k = (if k \<in> set us then None else mget (Messages c) k)
    \<and> mget (Notifications c') k =
           (if k \<in> set us \<and> mget (Messages c) k \<noteq> None then None else mget (Notifications c) k)"
proof (intro conjI)
  obtain M N ms cs where L: "receive_loop us (Messages c) (Notifications c) [] [] = (M, N, ms, cs)"
    by (metis prod_cases4)
  have cs: "cs = map contentOf (taken us (Messages c))"
    using L by (subst (asm) receive_loop_eq) (simp add: Let_def)
  from assms L have c': "c' = c\<lparr>Messages := M, Notifications := N\<rparr>"
    and resp: "respond env io ((goodResponse (Uuid m))\<lparr>RM_MessageContent := cs\<rparr>) = (io', None)"
    by (auto simp: HandleReceive_def Let_def split: prod.splits option.splits)
  from respond_ok [OF resp] show "wrote env io io' (mkResponse (newUuid env (uuidn io))
      ((goodResponse (Uuid m))\<lparr>RM_MessageContent := map contentOf (taken us (Messages c))\<rparr>))"
    by (simp add: cs)
  from receive_loop_maps [OF L, of k] c'
  show "mget (Messages c') k = (if k \<in> set us then None else mget (Messages c) k)"
    and "mget (Notifications c') k =
      (if k \<in> set us \<and> mget (Messages c) k \<noteq> None then None else mget (Notifications c) k)"
    by simp_all
qed

text \<open>
  C15: a Receive request with a filter, answered: the response carries exactly the requested
  messages that are stored, each once, in the order of the request; they are gone from the
  store and from the pending notifications, and every other message and notification stays.
\<close>

theorem HandleReceive_requested:
  assumes "GetReceiveMessage (GetProtocolMessage (Some m)) = Some r"
    and "GetMessageUuids (GetFilter (Some r)) = Some us"
    and "HandleReceive env m (c, io) = Return (c', io') None"
  shows "wrote env io io' (mkResponse (newUuid env (uuidn io))
           ((goodResponse (Uuid m))\<lparr>RM_MessageContent := map contentOf (taken us (Messages c))\<rparr>))
    \<and> mget (Messages c') k = (if k \<in> set us then None else mget (Messages c) k)
    \<and> mget (Notifications c') k =
           (if k \<in> set us \<and> mget (Messages c) k \<noteq> None then None else mget (Notifications c) k)"
  using assms by (rule receive_requested)

theorem HandleReceive_requested_witness:
  "\<exists>c' io'. HandleReceive (sample_env (\<lambda>_. 10) (\<lambda>_. None)) (sample_receive (Some [''m2'', ''x'']))
       (sample_consumer, sample_io [] (\<lambda>_. False)) = Return (c', io') None
     \<and> mget (Messages c') ''m2'' = None \<and> mget (Notifications c') ''m2'' = None
     \<and> mget (Messages c') ''m1'' \<noteq> None"
proof -
  let ?env = "sample_env (\<lambda>_. 10) (\<lambda>_. None)" and ?m = "sample_receive (Some [''m2'', ''x''])"
  let ?s = "(sample_consumer, sample_io [] (\<lambda>_. False))"
  have r: "GetReceiveMessage (GetProtocolMessage (Some ?m)) = Some \<lparr>Receive_Filter = Some \<lparr>MessageUuids = Some [''m2'', ''x'']\<rparr>\<rparr>"
    by (simp add: sample_receive_def)
  obtain c' io' where run: "HandleReceive ?env ?m ?s = Return (c', io') None"
    by (simp add: HandleReceive_def sample_receive_def sample_consumer_def new_consumer_def
        respond_def NewString_def write_io_def WriteMessage_def sample_defs)
  note P = HandleReceive_requested [OF r _ run, simplified]
  show ?thesis
    by (intro exI conjI, rule run)
      (simp_all add: P sample_consumer_def new_consumer_def)
qed

text \<open>
  C16: when the response of a filtered Receive cannot be written, no message is lost: every
  lookup in the store gives what it gave before, nothing reached the connection, and the error
  is reported. Only the pending notifications of the requested messages are gone.
\<close>

theorem HandleReceive_failed_write:
  assumes "consumer_ok c"
    and "GetReceiveMessage (GetProtocolMessage (Some m)) = Some r"
    and "GetMessageUuids (GetFilter (Some r)) = Some us"
    and "HandleReceive env m (c, io) = Return (c', io') (Some e)"
  shows "mget (Messages c') k = mget (Messages c) k
    \<and> mget (Notifications c') k =
           (if k \<in> set us \<and> mget (Messages c) k \<noteq> None then None else mget (Notifications c) k)
    \<and> framesOf io' = framesOf io
    \<and> (\<exists>e0. e = Wrapf ''could not send messages to Consumer'' e0)"
proof (intro conjI)
  obtain M N ms cs where L: "receive_loop us (Messages c) (Notifications c) [] [] = (M, N, ms, cs)"
    by (metis prod_cases4)
  have ms: "ms = map snd (taken us (Messages c))"
    using L by (subst (asm) receive_loop_eq) (simp add: Let_def)
  from assms(2-4) L obtain e0 where
    c': "c' = BulkQueueMessages (c\<lparr>Messages := M, Notifications := N\<rparr>) ms"
    and resp: "respond env io ((goodResponse (Uuid m))\<lparr>RM_MessageContent := cs\<rparr>) = (io', Some e0)"
    and e: "e = Wrapf ''could not send messages to Consumer'' e0"
    by (auto simp: HandleReceive_def Let_def split: prod.splits option.splits)
  from receive_loop_maps [OF L]
  have M: "\<And>k. mget M k = (if k \<in> set us then None else mget (Messages c) k)" by blast
  show "mget (Messages c') k = mget (Messages c) k"
    using requeue_taken [OF consumer_okD(3) [OF assms(1)] M] by (simp add: c' BulkQueueMessages_def ms)
  show "mget (Notifications c') k =
      (if k \<in> set us \<and> mget (Messages c) k \<noteq> None then None else mget (Notifications c) k)"
    using receive_loop_maps [OF L, of k] by (simp add: c' BulkQueueMessages_def)
  from respond_err [OF resp] show "framesOf io' = framesOf io" .
  from e show "\<exists>e0. e = Wrapf ''could not send messages to Consumer'' e0" by blast
qed

theorem HandleReceive_failed_write_witness:
  "\<exists>c' io' e. HandleReceive (sample_env (\<lambda>_. 10) (\<lambda>_. None)) (sample_receive (Some [''m2'']))
       (sample_consumer, sample_io [] (\<lambda>_. True)) = Return (c', io') (Some e)
     \<and> mget (Messages c') ''m2'' = Some (sample_msg ''m2'' ''s'' 20)
     \<and> mget (Notifications c') ''m2'' = None \<and> framesOf io' = []"
proof -
  let ?env = "sample_env (\<lambda>_. 10) (\<lambda>_. None)" and ?m = "sample_receive (Some [''m2''])"
  let ?s = "(sample_consumer, sample_io [] (\<lambda>_. True))"
  have r: "GetReceiveMessage (GetProtocolMessage (Some ?m)) = Some \<lparr>Receive_Filter = Some \<lparr>MessageUuids = Some [''m2'']\<rparr>\<rparr>"
    by (simp add: sample_receive_def)
  obtain c' io' e where run: "HandleReceive ?env ?m ?s = Return (c', io') (Some e)"
    by (simp add: HandleReceive_def sample_receive_def sample_consumer_def new_consumer_def
        respond_def NewString_def write_io_def WriteMessage_def sample_defs)
  note P = HandleReceive_failed_write [OF sample_consumer_ok r _ run, simplified]
  show ?thesis
    by (intro exI conjI, rule run)
      (simp_all add: P, simp_all add: sample_consumer_def new_consumer_def sample_defs framesOf_def)
qed

lemma receive_everything:
  assumes "consumer_ok c"
    and "GetReceiveMessage (GetProtocolMessage (Some m)) = Some r"
    and "GetMessageUuids (GetFilter (Some r)) = None"
  shows "\<exists>c' io' e. HandleReceive env m (c, io) = Return (c', io') e
    \<and> (let live = filter (\<lambda>e. alive (clock env (clockn io)) (snd e)) (Messages c)
       in (e = None \<longrightarrow> Messages c' = [] \<and> wrote env io io' (mkResponse (newUuid env (uuidn io))
             ((goodResponse (Uuid m))\<lparr>RM_MessageContent := map contentOf live\<rparr>)))
        \<and> (e \<noteq> None \<longrightarrow> Messages c' = Messages c \<and> framesOf io' = framesOf io)
        \<and> (\<forall>k. mget (Notifications c') k =
                 (if mget live k = None then mget (Notifications c) k else None)))"
proof -
  let ?io = "io\<lparr>clockn := Suc (clockn io)\<rparr>"
  let ?live = "filter (\<lambda>e. alive (clock env (clockn io)) (snd e)) (Messages c)"
  let ?resp = "(goodResponse (Uuid m))\<lparr>RM_MessageContent := map contentOf ?live\<rparr>"
  obtain io' e where resp: "respond env ?io ?resp = (io', e)" by fastforce
  have N: "mget (mdel_all ?live (Notifications c)) k =
      (if mget ?live k = None then mget (Notifications c) k else None)" for k
    using consumer_okD(2) [OF assms(1)]
    by (auto simp: mdel_all_filter mget_filter mget_None_iff [of ?live] split: option.splits)
  have "wrote env io io' (mkResponse (newUuid env (uuidn io)) ?resp)" if "e = None"
    using respond_ok [of env ?io ?resp io'] resp that by (simp add: wrote_def)
  moreover have "framesOf io' = framesOf io" if "e \<noteq> None"
    using respond_err [of env ?io ?resp io'] resp that by auto
  ultimately show ?thesis
    using assms(2,3) resp consumer_okD(3) [OF assms(1)] N
    by (cases e) (simp_all add: HandleReceive_def receive_all_loop_eq NowUnix_def Let_def)
qed

text \<open>
  C17: a Receive request without a filter delivers exactly the stored messages that have not
  expired. If the response is written the store is empty afterwards, if not it is unchanged;
  in both cases the notifications of the delivered messages are withdrawn.
\<close>

theorem HandleReceive_everything:
  assumes "consumer_ok c"
    and "GetReceiveMessage (GetProtocolMessage (Some m)) = Some r"
    and "GetMessageUuids (GetFilter (Some r)) = None"
  shows "\<exists>c' io' e. HandleReceive env m (c, io) = Return (c', io') e
    \<and> (let live = filter (\<lambda>e. alive (clock env (clockn io)) (snd e)) (Messages c)
       in (e = None \<longrightarrow> Messages c' = [] \<and> wrote env io io' (mkResponse (newUuid env (uuidn io))
             ((goodResponse (Uuid m))\<lparr>RM_MessageContent := map contentOf live\<rparr>)))
        \<and> (e \<noteq> None \<longrightarrow> Messages c' = Messages c \<and> framesOf io' = framesOf io)
        \<and> (\<forall>k. mget (Notifications c') k =
                 (if mget live k = None then mget (Notifications c) k else None)))"
  using assms by (rule receive_everything)

theorem HandleReceive_everything_witness:
  "\<exists>c' io' e. HandleReceive (sample_env (\<lambda>_. 10) (\<lambda>_. None)) (sample_receive None)
       (sample_consumer, sample_io [] (\<lambda>_. False)) = Return (c', io') e
     \<and> mget (Notifications c') ''m2'' = None"
proof -
  let ?env = "sample_env (\<lambda>_. 10) (\<lambda>_. None)" and ?m = "sample_receive None"
  have r: "GetReceiveMessage (GetProtocolMessage (Some ?m)) = Some \<lparr>Receive_Filter = Some \<lparr>MessageUuids = None\<rparr>\<rparr>"
    by (simp add: sample_receive_def)
  have live: "mget (filter (\<lambda>e. alive 10 (snd e)) (Messages sample_consumer)) ''m2'' \<noteq> None"
    by (simp add: sample_consumer_def new_consumer_def alive_def)
  from HandleReceive_everything [OF sample_consumer_ok r, of ?env "sample_io [] (\<lambda>_. False)"]
  obtain c' io' e where run: "HandleReceive ?env ?m (sample_consumer, sample_io [] (\<lambda>_. False)) = Return (c', io') e"
    and N: "\<forall>k. mget (Notifications c') k =
      (if mget (filter (\<lambda>e. alive 10 (snd e)) (Messages sample_consumer)) k = None
       then mget (Notifications sample_consumer) k else None)"
    by (auto simp: Let_def sample_env_def)
  have "mget (Notifications c') ''m2'' = None"
    by (simp only: N [rule_format] live if_False)
  with run show ?thesis by blast
qed

text \<open>
  A Fetch request removes exactly the expired messages from the store and answers with the
  metadata of the others, whether or not the answer can be written; it neither panics nor
  touches the pending notifications.
\<close>

lemma HandleFetch_metadata:
  assumes "consumer_ok c"
    and "GetFetchMessage (GetProtocolMessage (Some m)) = Some f"
  shows "\<exists>c' io' e. HandleFetch env m (c, io) = Return (c', io') e
    \<and> (let live = filter (\<lambda>e. alive (clock env (clockn io)) (snd e)) (Messages c)
       in c' = c\<lparr>Messages := live\<rparr>
        \<and> (e = None \<longrightarrow> wrote env io io' (mkResponse (newUuid env (uuidn io))
             ((goodResponse (Uuid m))\<lparr>RM_MessageMetadata := map (metadataOf \<circ> snd) live\<rparr>)))
        \<and> (e \<noteq> None \<longrightarrow> framesOf io' = framesOf io))"
proof -
  let ?io = "io\<lparr>clockn := Suc (clockn io)\<rparr>"
  let ?live = "filter (\<lambda>e. alive (clock env (clockn io)) (snd e)) (Messages c)"
  let ?resp = "(goodResponse (Uuid m))\<lparr>RM_MessageMetadata := map (metadataOf \<circ> snd) ?live\<rparr>"
  obtain io' e where resp: "respond env ?io ?resp = (io', e)" by fastforce
  have "wrote env io io' (mkResponse (newUuid env (uuidn io)) ?resp)" if "e = None"
    using respond_ok [of env ?io ?resp io'] resp that by (simp add: wrote_def)
  moreover have "framesOf io' = framesOf io" if "e \<noteq> None"
    using respond_err [of env ?io ?resp io'] resp that by auto
  ultimately show ?thesis
    using assms(2) resp consumer_okD(1,3) [OF assms(1)]
    by (cases e) (simp_all add: HandleFetch_def loop_eqs NowUnix_def Let_def)
qed

lemma dedup_distinct: "distinct xs \<Longrightarrow> dedup xs = xs"
  by (induction xs) (auto simp: filter_id_conv)

lemma taken_keys:
  assumes "keys_ok M"
  shows "taken (map fst M) M = M"
proof -
  have d: "distinct (map fst M)" using assms by (simp add: keys_ok_def)
  have "mget M (fst e) = Some (snd e)" if "e \<in> set M" for e
    using assms that by (cases e) (simp add: mget_in_iff [symmetric])
  then have "filter (\<lambda>u. mget M u \<noteq> None) (map fst M) = map fst M" "map (\<lambda>u. (u, the (mget M u))) (map fst M) = M"
    by (auto simp: filter_id_conv intro: map_idI)
  with dedup_distinct [OF d] show ?thesis by (simp add: taken_def)
qed

lemma taken_distinct:
  assumes "distinct us" and "\<forall>u \<in> set us. mget M u \<noteq> None"
  shows "taken us M = map (\<lambda>u. (u, the (mget M u))) us"
  using assms by (simp add: taken_def dedup_distinct filter_id_conv)

lemma mget_reordered:
  assumes "keys_ok A" and "mset B = mset A"
  shows "keys_ok B \<and> mget B k = mget A k"
proof -
  have "mset (map fst B) = mset (map fst A)" using assms(2) by simp
  then have d: "keys_ok B" using assms(1) unfolding keys_ok_def by (metis mset_eq_imp_distinct_iff)
  have "(k, v) \<in> set B \<longleftrightarrow> (k, v) \<in> set A" for v using mset_eq_setD [OF assms(2)] by simp
  then have "mget B k = Some v \<longleftrightarrow> mget A k = Some v" for v using d assms(1) by (simp add: mget_in_iff)
  with d show ?thesis by (metis not_Some_eq)
qed

lemma consumer_ok_reordered:
  assumes "consumer_ok c" and "mset M = mset (Messages c)"
  shows "consumer_ok (c\<lparr>Messages := M\<rparr>)"
  using assms(1) mget_reordered [OF consumer_okD(1) [OF assms(1)] assms(2)] mset_eq_setD [OF assms(2)]
  by (simp add: consumer_ok_def all_entries_def)

text \<open>
  C18: the two ways to get the messages are equivalent, whatever order the maps are iterated in.
  A Fetch is told the metadata of exactly the messages that have not expired. A Receive
  for exactly these UUIDs, in any order, gets their contents in the order it asks for them; a
  Receive of everything on the same store, iterated in any order, at the time of the Fetch, gets
  the same contents, possibly in another order. Both leave the consumer alike: no messages stored,
  the same notifications pending.
\<close>

theorem fetch_then_receive:
  assumes "consumer_ok c"
    and "GetFetchMessage (GetProtocolMessage (Some f)) = Some x"
    and "GetReceiveMessage (GetProtocolMessage (Some q)) = Some r" and "GetMessageUuids (GetFilter (Some r)) = Some us"
    and "GetReceiveMessage (GetProtocolMessage (Some a)) = Some r'" and "GetMessageUuids (GetFilter (Some r')) = None"
    and "HandleFetch env f (c, io) = Return (c1, io1) None"
    and "HandleReceive env q (c1, io2) = Return (c2, io3) None"
    and "HandleReceive env a (c\<lparr>Messages := M\<rparr>, io4) = Return (c3, io5) None" and "mset M = mset (Messages c)"
    and "clock env (clockn io4) = clock env (clockn io)"
    and "md = map (metadataOf \<circ> snd) (filter (\<lambda>e. alive (clock env (clockn io)) (snd e)) (Messages c))"
    and "mset us = mset (map MM_Uuid md)"
  shows "wrote env io io1 (mkResponse (newUuid env (uuidn io)) ((goodResponse (Uuid f))\<lparr>RM_MessageMetadata := md\<rparr>))
    \<and> (\<exists>cs cs'. cs = map (\<lambda>u. contentOf (u, the (mget (Messages c) u))) us
         \<and> wrote env io2 io3 (mkResponse (newUuid env (uuidn io2)) ((goodResponse (Uuid q))\<lparr>RM_MessageContent := cs\<rparr>))
         \<and> wrote env io4 io5 (mkResponse (newUuid env (uuidn io4)) ((goodResponse (Uuid a))\<lparr>RM_MessageContent := cs'\<rparr>))
         \<and> mset cs = mset cs')
    \<and> Messages c2 = [] \<and> Messages c3 = [] \<and> mget (Notifications c2) k = mget (Notifications c3) k"
proof -
  let ?alive = "\<lambda>e. alive (clock env (clockn io)) (snd e)"
  let ?live = "filter ?alive (Messages c)" and ?live' = "filter ?alive M"
  from HandleFetch_metadata [OF assms(1,2), of env io] assms(7,12)
  have c1: "c1 = c\<lparr>Messages := ?live\<rparr>"
    and md: "wrote env io io1 (mkResponse (newUuid env (uuidn io)) ((goodResponse (Uuid f))\<lparr>RM_MessageMetadata := md\<rparr>))"
    by (auto simp: Let_def)
  have live: "mset ?live' = mset ?live" using assms(10) by (metis mset_filter)
  have keys: "keys_ok ?live" using consumer_okD(1) [OF assms(1)] by (rule keys_ok_filter)
  have gets: "mget ?live' k = mget ?live k" for k using mget_reordered [OF keys live] by blast
  from receive_everything [OF consumer_ok_reordered [OF assms(1,10)] assms(5,6), of env io4] assms(9,11)
  have all: "Messages c3 = []" "wrote env io4 io5 (mkResponse (newUuid env (uuidn io4))
      ((goodResponse (Uuid a))\<lparr>RM_MessageContent := map contentOf ?live'\<rparr>))"
    "mget (Notifications c3) k = (if mget ?live k = None then mget (Notifications c) k else None)"
    by (auto simp: Let_def gets)
  have "map MM_Uuid md = map fst ?live"
    using consumer_okD(3) [OF assms(1)] by (auto simp: assms(12) metadataOf_def all_entries_def entry_ok_def)
  then have us: "mset us = mset (map fst ?live)" using assms(13) by simp
  then have set: "set us = fst ` set ?live" by (metis mset_eq_setD set_map)
  have dist: "distinct us" using us keys unfolding keys_ok_def by (metis mset_eq_imp_distinct_iff)
  have dom: "k \<in> set us \<longleftrightarrow> mget ?live k \<noteq> None" for k by (auto simp: set mget_None_iff [of ?live])
  have tk: "taken us ?live = map (\<lambda>u. (u, the (mget ?live u))) us"
    using taken_distinct [OF dist, of ?live] dom by blast
  have "mset (map (\<lambda>u. (u, the (mget ?live u))) us) = mset (map (\<lambda>u. (u, the (mget ?live u))) (map fst ?live))"
    using us by (simp only: mset_map)
  also have "map (\<lambda>u. (u, the (mget ?live u))) (map fst ?live) = ?live"
  proof -
    have "distinct (map fst ?live)" using keys by (simp add: keys_ok_def)
    moreover have "\<forall>u \<in> set (map fst ?live). mget ?live u \<noteq> None" using dom by (simp add: set)
    ultimately show ?thesis using taken_keys [OF keys] by (simp only: taken_distinct)
  qed
  finally have "mset (taken us ?live) = mset ?live'" by (simp only: tk live)
  then have eq: "mset (map contentOf (taken us ?live)) = mset (map contentOf ?live')" by (simp only: mset_map)
  have same_msg: "the (mget ?live u) = the (mget (Messages c) u)" if "u \<in> set us" for u
    using that dom [of u] consumer_okD(1) [OF assms(1)] by (auto simp: mget_filter split: option.splits if_splits)
  have cs: "map contentOf (taken us ?live) = map (\<lambda>u. contentOf (u, the (mget (Messages c) u))) us"
    using same_msg by (simp add: tk)
  note Q = receive_requested [OF assms(3,4,8)]
  have "mget (Messages c2) k = None" for k using Q [of k] by (simp add: dom c1)
  then have "Messages c2 = []" by (cases "Messages c2") (auto simp: mget_None_iff)
  moreover have "mget (Notifications c2) k = mget (Notifications c3) k"
    using Q [of k] by (simp add: dom c1 all(3))
  moreover have "wrote env io2 io3 (mkResponse (newUuid env (uuidn io2))
      ((goodResponse (Uuid q))\<lparr>RM_MessageContent := map contentOf (taken us ?live)\<rparr>))"
    using Q [of k] by (simp add: c1)
  ultimately show ?thesis using md all(1,2) eq [unfolded cs] by (simp only: cs) blast
qed

theorem fetch_then_receive_witness:
  "let env = sample_env (\<lambda>_. 10) (\<lambda>_. None); io = sample_io [] (\<lambda>_. False);
       c = sample_consumer\<lparr>Messages := Messages sample_consumer @ [(''m3'', sample_msg ''m3'' ''s'' 30)]\<rparr>
   in \<exists>c1 io1 c2 io3 c3 io5.
      HandleFetch env sample_fetch (c, io) = Return (c1, io1) None
    \<and> HandleReceive env (sample_receive (Some [''m3'', ''m2''])) (c1, io) = Return (c2, io3) None
    \<and> HandleReceive env (sample_receive None) (c\<lparr>Messages := rev (Messages c)\<rparr>, io) = Return (c3, io5) None
    \<and> Messages c2 = [] \<and> Messages c3 = [] \<and> mget (Notifications c2) ''m2'' = mget (Notifications c3) ''m2''
    \<and> wrote env io io3 (mkResponse (newUuid env 0) ((goodResponse ''req'')\<lparr>RM_MessageContent :=
        [contentOf (''m3'', sample_msg ''m3'' ''s'' 30), contentOf (''m2'', sample_msg ''m2'' ''s'' 20)]\<rparr>))"
proof -
  let ?env = "sample_env (\<lambda>_. 10) (\<lambda>_. None)" and ?io = "sample_io [] (\<lambda>_. False)"
  let ?c = "sample_consumer\<lparr>Messages := Messages sample_consumer @ [(''m3'', sample_msg ''m3'' ''s'' 30)]\<rparr>"
  have ok: "consumer_ok ?c"
    by (simp add: sample_consumer_def new_consumer_def consumer_ok_def keys_ok_def
        all_entries_def entry_ok_def storable_def)
  have f: "GetFetchMessage (GetProtocolMessage (Some sample_fetch)) = Some Fetch" by (simp add: sample_fetch_def)
  have r: "GetReceiveMessage (GetProtocolMessage (Some (sample_receive us))) = Some \<lparr>Receive_Filter = Some \<lparr>MessageUuids = us\<rparr>\<rparr>" for us
    by (simp add: sample_receive_def)
  have g: "GetMessageUuids (GetFilter (Some \<lparr>Receive_Filter = Some \<lparr>MessageUuids = us\<rparr>\<rparr>)) = us" for us by simp
  have u: "uuidn ?io = 0" "Uuid (sample_receive us) = ''req''" for us by (simp_all add: sample_defs sample_receive_def)
  obtain c1 io1 where run1: "HandleFetch ?env sample_fetch (?c, ?io) = Return (c1, io1) None"
    by (auto simp: HandleFetch_def sample_fetch_def sample_consumer_def new_consumer_def NowUnix_def
        respond_def NewString_def write_io_def WriteMessage_def sample_defs Let_def)
  obtain c2 io3 where run2: "HandleReceive ?env (sample_receive (Some [''m3'', ''m2''])) (c1, ?io) = Return (c2, io3) None"
    by (cases "receive_loop [''m3'', ''m2''] (Messages c1) (Notifications c1) [] []")
      (simp add: HandleReceive_def sample_receive_def Let_def
        respond_def NewString_def write_io_def WriteMessage_def sample_defs del: receive_loop.simps)
  obtain c3 io5 where run3: "HandleReceive ?env (sample_receive None) (?c\<lparr>Messages := rev (Messages ?c)\<rparr>, ?io) = Return (c3, io5) None"
    by (simp add: HandleReceive_def sample_receive_def sample_consumer_def new_consumer_def NowUnix_def
        respond_def NewString_def write_io_def WriteMessage_def sample_defs Let_def)
  have m: "mset (rev (Messages ?c)) = mset (Messages ?c)" by simp
  have us: "mset [''m3'', ''m2''] = mset (map MM_Uuid (map (metadataOf \<circ> snd)
      (filter (\<lambda>e. alive (clock ?env (clockn ?io)) (snd e)) (Messages ?c))))"
    by (simp add: sample_consumer_def new_consumer_def sample_defs alive_def metadataOf_def)
  have get: "the (mget (Messages ?c) ''m3'') = sample_msg ''m3'' ''s'' 30" "the (mget (Messages ?c) ''m2'') = sample_msg ''m2'' ''s'' 20"
    by (simp_all add: sample_consumer_def new_consumer_def)
  from fetch_then_receive [OF ok f r g r g run1 run2 run3 m refl refl us, of "''m2''"]
  have "Messages c2 = []" "Messages c3 = []" "mget (Notifications c2) ''m2'' = mget (Notifications c3) ''m2''"
    "wrote ?env ?io io3 (mkResponse (newUuid ?env 0) ((goodResponse ''req'')\<lparr>RM_MessageContent :=
        [contentOf (''m3'', sample_msg ''m3'' ''s'' 30), contentOf (''m2'', sample_msg ''m2'' ''s'' 20)]\<rparr>))"
    by (simp_all only: u list.map get) blast+
  with run1 run2 run3 show ?thesis unfolding Let_def by blast
qed

text \<open>
  The periodic garbage collection keeps exactly the messages that have not expired, and by
  the same test Fetch and Receive use: what it removes, neither of them would have returned.
\<close>

lemma gc_removes_expired:
  assumes "consumer_ok c"
  shows "mget (Messages (gc_consumer now c)) k =
           (case mget (Messages c) k of
              Some m \<Rightarrow> if now \<le> GetExpires (headerOf m) then Some m else None
            | None \<Rightarrow> None)
    \<and> Notifications (gc_consumer now c) = Notifications c
    \<and> gc_consumer now (gc_consumer now c) = gc_consumer now c"
proof (intro conjI)
  have eq: "gc_consumer now c = c\<lparr>Messages := filter (\<lambda>e. alive now (snd e)) (Messages c)\<rparr>"
    using assms by (rule gc_consumer_eq)
  show "mget (Messages (gc_consumer now c)) k =
      (case mget (Messages c) k of
         Some m \<Rightarrow> if now \<le> GetExpires (headerOf m) then Some m else None | None \<Rightarrow> None)"
    using consumer_okD(1) [OF assms]
    by (simp add: eq mget_filter) (simp add: alive_def split: option.splits)
  show "Notifications (gc_consumer now c) = Notifications c" by (simp add: eq)
  show "gc_consumer now (gc_consumer now c) = gc_consumer now c"
    by (subst gc_consumer_eq [OF gc_consumer_ok [OF assms]]) (simp add: eq)
qed

text \<open>
  An expired message leaves the store at garbage collection but its notification stays: the
  next Notify still announces it, and a Receive for the announced UUID then returns nothing.
\<close>

lemma gc_leaves_stale_notification:
  assumes "consumer_ok c"
    and "mget (Messages c) u = Some m" and "mget (Notifications c) u = Some m"
    and "GetExpires (headerOf m) < now"
    and "notify env (gc_consumer now c) io = (c', io', None)"
  shows "(\<exists>md. metadataOf m \<in> set md
           \<and> wrote env io io' (mkProtocol (newUuid env (uuidn io)) ProtocolMessageType_NOTIFY_MESSAGE
               (ProtocolMessage_NotifyMessage (Some \<lparr>Notify_MessageMetadata = md\<rparr>))))
    \<and> taken [u] (Messages c') = []"
proof (intro conjI)
  let ?c = "gc_consumer now c"
  have N: "Notifications ?c = Notifications c" by (simp add: gc_consumer_eq [OF assms(1)])
  let ?md = "map (\<lambda>(_, m). metadataOf m) (Notifications c)"
  have "metadataOf m \<in> set ?md" using assms(3) by (force dest: mget_Some_in)
  moreover have "wrote env io io' (mkProtocol (newUuid env (uuidn io)) ProtocolMessageType_NOTIFY_MESSAGE
      (ProtocolMessage_NotifyMessage (Some \<lparr>Notify_MessageMetadata = ?md\<rparr>)))"
    using assms(5) N wrote_iff_ok [of env "io\<lparr>uuidn := Suc (uuidn io)\<rparr>"]
    by (auto simp: notify_def NewString_def Let_def wrote_def split: prod.splits option.splits)
  ultimately show "\<exists>md. metadataOf m \<in> set md
      \<and> wrote env io io' (mkProtocol (newUuid env (uuidn io)) ProtocolMessageType_NOTIFY_MESSAGE
          (ProtocolMessage_NotifyMessage (Some \<lparr>Notify_MessageMetadata = md\<rparr>)))" by blast
  have "Messages c' = filter (\<lambda>e. alive now (snd e)) (Messages c)"
    using notify_state [OF assms(5)] by (simp add: gc_consumer_eq [OF assms(1)])
  moreover have "mget (filter (\<lambda>e. alive now (snd e)) (Messages c)) u = None"
    using consumer_okD(1) [OF assms(1)] assms(2,4) by (simp add: mget_filter alive_def)
  ultimately show "taken [u] (Messages c') = []" by (simp add: taken_def)
qed

text \<open>
  The life of a consumer: any interleaving of the operations its owner and its connections run
  on it. Queued messages carry a header, as the routers make sure.
\<close>

inductive consumer_step :: "Env \<Rightarrow> 'z Consumer_scheme \<Rightarrow> 'z Consumer_scheme \<Rightarrow> bool" for env where
  queue: "QueueMessage (Some c) m = Inr c' \<Longrightarrow> headerOf m \<noteq> None \<Longrightarrow> consumer_step env c c'"
| receive: "HandleReceive env m (c, io) = Return (c', io') e \<Longrightarrow> consumer_step env c c'"
| fetch: "HandleFetch env m (c, io) = Return (c', io') e \<Longrightarrow> consumer_step env c c'"
| check: "CheckNewMessages env ts (c, io) = (c', io') \<Longrightarrow> consumer_step env c c'"
| gc: "consumer_step env c (gc_consumer now c)"
| interests: "consumer_step env c (c\<lparr>Interests := is\<rparr>)"
| token: "consumer_step env c (c\<lparr>ReconnectToken := t\<rparr>)"

inductive consumer_reach :: "Env \<Rightarrow> 'z Consumer_scheme \<Rightarrow> bool" for env where
  fresh: "Messages c = [] \<Longrightarrow> Notifications c = [] \<Longrightarrow> consumer_reach env c"
| step: "consumer_reach env c \<Longrightarrow> consumer_step env c c' \<Longrightarrow> consumer_reach env c'"

lemma consumer_step_ok: "consumer_step env c c' \<Longrightarrow> consumer_ok c \<Longrightarrow> consumer_ok c'"
proof (induction rule: consumer_step.induct)
  case (queue c m c')
  then have "storable m" by (auto simp: storable_def dest: QueueMessage_Inr)
  with queue show ?case by (blast intro: QueueMessage_ok)
next
  case (check ts c io c' io')
  with CheckNewMessages_ok [of c env ts io] show ?case by simp
qed (auto intro: HandleReceive_ok HandleFetch_ok gc_consumer_ok)

lemma consumer_reach_ok: "consumer_reach env c \<Longrightarrow> consumer_ok c"
proof (induction rule: consumer_reach.induct)
  case (fresh c)
  then show ?case by (simp add: consumer_ok_def)
next
  case (step c c')
  then show ?case by (blast intro: consumer_step_ok)
qed

end
