(* ===== verification/Auth.thy ===== *)
theory Auth
  imports Consumer
begin

text \<open>
  utils/auth/auth.go: who a connecting client is, which signature algorithm its certificate
  implies, and whether a message is signed with it. The TLS handshake and the verification of
  a signature belong to the Go library: the state of the first is an argument, the second is
  the parameter \<open>checkSignature\<close>.
\<close>

section \<open>Certificates and requests\<close>

datatype PublicKey =
    EcdsaPublicKey nat
  | OtherPublicKey string

datatype AttributeValue =
    StringValue string
  | OtherValue

record Certificate =
  PublicKeyOf :: PublicKey
  SubjectNames :: "(nat list \<times> AttributeValue) list"
  OCSPServer :: "string list"
  CRLDistributionPoints :: "string list"
  SerialNumber :: int
  RawDer :: bytes

text \<open>\<open>request.TLS\<close>: nil without TLS, otherwise the certificates of the peer.\<close>

record Request =
  PeerCertificates :: "Certificate list option"

datatype SignatureAlgorithm =
    UnknownSignatureAlgorithm
  | ECDSAWithSHA256
  | ECDSAWithSHA384
  | ECDSAWithSHA512

definition uidOid :: "nat list" where
  "uidOid = [0, 9, 2342, 19200300, 100, 1, 1]"

section \<open>Operations\<close>

text \<open>getSignatureAlgorithm, on \<open>request.TLS.PeerCertificates[0]\<close>.\<close>

definition getSignatureAlgorithm :: "Certificate \<Rightarrow> error + SignatureAlgorithm" where
  "getSignatureAlgorithm cert =
     (case PublicKeyOf cert of
        EcdsaPublicKey pubKeyLen \<Rightarrow>
          if pubKeyLen < 256
          then Inl (SigAlgErr ''the public key length of the provided client certificate cannot be less than 256 bits'')
          else if pubKeyLen = 256 then Inr ECDSAWithSHA256
          else if pubKeyLen = 384 then Inr ECDSAWithSHA384
          else if pubKeyLen = 512 then Inr ECDSAWithSHA512
          else Inl (SigAlgErr ''the public key length of the provided client certificate is not supported'')
      | OtherPublicKey _ \<Rightarrow>
          Inl (SigAlgErr ''the provided client certificate does not use an allowed public key algorithm''))"

text \<open>The loop of AuthenticateConsumer: does a UID attribute contradict the MRN?\<close>

fun uid_mismatch :: "string \<Rightarrow> (nat list \<times> AttributeValue) list \<Rightarrow> bool" where
  "uid_mismatch mrn [] = False"
| "uid_mismatch mrn ((oid, v) # ns) =
     (if oid = uidOid
      then (case v of
              StringValue s \<Rightarrow> if \<not> EqualFold s mrn then True else uid_mismatch mrn ns
            | OtherValue \<Rightarrow> uid_mismatch mrn ns)
      else uid_mismatch mrn ns)"

definition AuthenticateConsumer :: "Request \<Rightarrow> string \<Rightarrow> SignatureAlgorithm \<times> bool \<times> error option" where
  "AuthenticateConsumer request consumerMrn =
     (case PeerCertificates request of
        None \<Rightarrow> (UnknownSignatureAlgorithm, False, None)
      | Some certs \<Rightarrow>
          if consumerMrn = '''' then (UnknownSignatureAlgorithm, False, None)
          else (case certs of
                  [] \<Rightarrow> (UnknownSignatureAlgorithm, False,
                         Some (CertValErr ''A valid client certificate must be provided for authenticated connections''))
                | cert # _ \<Rightarrow>
                    (case getSignatureAlgorithm cert of
                       Inl err \<Rightarrow> (UnknownSignatureAlgorithm, False, Some err)
                     | Inr signatureAlgorithm \<Rightarrow>
                         if uid_mismatch consumerMrn (SubjectNames cert)
                         then (UnknownSignatureAlgorithm, False,
                               Some (MrnMismatchErr ''connect message MRN does not match certificate MRN, websocket closed''))
                         else (signatureAlgorithm, True, None))))"

text \<open>The bytes a signature covers.\<close>

definition toBeVerified :: "ApplicationMessage option \<Rightarrow> bytes" where
  "toBeVerified appMessage =
     (case GetSubjectOrRecipient (GetHeader appMessage) of
        Some (ApplicationMessageHeader_Subject s) \<Rightarrow> s
      | Some (ApplicationMessageHeader_Recipients r) \<Rightarrow> concat (GetRecipients_list r)
      | None \<Rightarrow> [])
     @ FormatInt (GetExpires (GetHeader appMessage))
     @ GetSender (GetHeader appMessage)
     @ (if GetQosProfile (GetHeader appMessage) \<noteq> '''' then GetQosProfile (GetHeader appMessage) else [])
     @ FormatInt (uint (GetBodySizeNumBytes (GetHeader appMessage)))
     @ AM_GetBody appMessage"

type_synonym SigChecker = "Certificate \<Rightarrow> SignatureAlgorithm \<Rightarrow> bytes \<Rightarrow> bytes \<Rightarrow> bool"

definition VerifySignatureOnMessage ::
    "SigChecker \<Rightarrow> MmtpMessage \<Rightarrow> SignatureAlgorithm \<Rightarrow> Request \<Rightarrow> (unit, error option) result" where
  "VerifySignatureOnMessage checkSignature mmtpMessage signatureAlgorithm request =
     (let appMessage = appMsgOf mmtpMessage
      in if signatureAlgorithm = UnknownSignatureAlgorithm
         then Return () (Some (Errorf ''a suitable signature algorithm could not be found for verifying signature on message''))
         else (case PeerCertificates request of
                 None \<Rightarrow> Panic () nil_deref
               | Some [] \<Rightarrow> Panic () ''index out of range''
               | Some (cert # _) \<Rightarrow>
                   if checkSignature cert signatureAlgorithm (toBeVerified appMessage) (GetSignature appMessage)
                   then Return () None
                   else Return () (Some (Wrapf ''the signature on the message could not be verified'' (Extern ''x509'')))))"

text \<open>GetMrnFromCertificate: the last UID attribute that is a string.\<close>

definition GetMrnFromCertificate :: "Certificate \<Rightarrow> string" where
  "GetMrnFromCertificate cert =
     fold (\<lambda>(oid, v) ownMrn. if oid = uidOid then (case v of StringValue s \<Rightarrow> s | OtherValue \<Rightarrow> ownMrn) else ownMrn)
       (SubjectNames cert) ''''"

section \<open>Facts\<close>

definition uid_values :: "Certificate \<Rightarrow> string set" where
  "uid_values cert = {s. (uidOid, StringValue s) \<in> set (SubjectNames cert)}"

lemma uid_mismatch_iff:
  "uid_mismatch mrn ns \<longleftrightarrow> (\<exists>s. (uidOid, StringValue s) \<in> set ns \<and> \<not> EqualFold s mrn)"
  by (induction mrn ns rule: uid_mismatch.induct) (auto split: AttributeValue.splits)

lemma GetMrn_fold:
  "fold (\<lambda>(oid, v) ownMrn. if oid = uidOid then (case v of StringValue s \<Rightarrow> s | OtherValue \<Rightarrow> ownMrn) else ownMrn)
     ns a \<in> insert a {s. (uidOid, StringValue s) \<in> set ns}"
proof (induction ns arbitrary: a)
  case (Cons n ns)
  obtain oid v where n: "n = (oid, v)" by (cases n)
  show ?case
  proof (cases "oid = uidOid \<and> (\<exists>s. v = StringValue s)")
    case True
    then obtain s where "oid = uidOid" "v = StringValue s" by blast
    with Cons.IH [of s] show ?thesis by (auto simp: n)
  next
    case False
    with Cons.IH [of a] show ?thesis by (auto simp: n split: AttributeValue.splits)
  qed
qed simp

lemma GetMrn_fold_hit:
  "(uidOid, StringValue s) \<in> set ns \<Longrightarrow>
   fold (\<lambda>(oid, v) ownMrn. if oid = uidOid then (case v of StringValue s \<Rightarrow> s | OtherValue \<Rightarrow> ownMrn) else ownMrn)
     ns a \<in> {s. (uidOid, StringValue s) \<in> set ns}"
proof (induction ns arbitrary: a)
  case (Cons n ns)
  obtain oid v where n: "n = (oid, v)" by (cases n)
  show ?case
  proof (cases "(uidOid, StringValue s) \<in> set ns")
    case True
    with Cons.IH show ?thesis by (auto simp: n)
  next
    case False
    with Cons.prems n have "oid = uidOid" "v = StringValue s" by auto
    with GetMrn_fold [of ns s] n show ?thesis by auto
  qed
qed simp

definition key_alg :: "PublicKey \<Rightarrow> SignatureAlgorithm \<Rightarrow> bool" where
  "key_alg k alg \<longleftrightarrow>
     (k, alg) \<in> {(EcdsaPublicKey 256, ECDSAWithSHA256), (EcdsaPublicKey 384, ECDSAWithSHA384),
                 (EcdsaPublicKey 512, ECDSAWithSHA512)}"

lemma getSignatureAlgorithm_Inr: "getSignatureAlgorithm cert = Inr alg \<longleftrightarrow> key_alg (PublicKeyOf cert) alg"
  by (auto simp: getSignatureAlgorithm_def key_alg_def split: PublicKey.splits if_splits)

lemma getSignatureAlgorithm_Inl: "getSignatureAlgorithm cert = Inl e \<Longrightarrow> \<exists>txt. e = SigAlgErr txt"
  by (auto simp: getSignatureAlgorithm_def split: PublicKey.splits if_splits)

lemma AuthenticateConsumer_True:
  "AuthenticateConsumer req mrn = (alg, True, err) \<longleftrightarrow>
     err = None \<and> mrn \<noteq> '''' \<and>
     (\<exists>cert rest. PeerCertificates req = Some (cert # rest) \<and> key_alg (PublicKeyOf cert) alg
        \<and> (\<forall>s \<in> uid_values cert. EqualFold s mrn))"
proof (cases "PeerCertificates req")
  case None
  then show ?thesis by (simp add: AuthenticateConsumer_def)
next
  case (Some certs)
  show ?thesis
  proof (cases certs)
    case Nil
    with Some show ?thesis by (simp add: AuthenticateConsumer_def)
  next
    case (Cons cert rest)
    with Some show ?thesis
      by (cases "getSignatureAlgorithm cert")
        (auto simp: AuthenticateConsumer_def getSignatureAlgorithm_Inr [symmetric]
          uid_mismatch_iff uid_values_def)
  qed
qed

lemma AuthenticateConsumer_error:
  "AuthenticateConsumer req mrn = (alg, auth, Some e) \<Longrightarrow>
   alg = UnknownSignatureAlgorithm \<and> \<not> auth \<and> mrn \<noteq> '''' \<and> PeerCertificates req \<noteq> None"
  by (auto simp: AuthenticateConsumer_def split: option.splits list.splits sum.splits if_splits)

lemma AuthenticateConsumer_alg:
  "AuthenticateConsumer req mrn = (alg, auth, err) \<Longrightarrow> alg \<noteq> UnknownSignatureAlgorithm \<Longrightarrow>
   auth \<and> (\<exists>cert rest. PeerCertificates req = Some (cert # rest))"
  by (auto simp: AuthenticateConsumer_def split: option.splits list.splits sum.splits if_splits)

text \<open>Sample certificates for the witnesses.\<close>

definition sample_cert :: "string option \<Rightarrow> Certificate" where
  "sample_cert uid = \<lparr>PublicKeyOf = EcdsaPublicKey 256,
     SubjectNames = (case uid of None \<Rightarrow> [] | Some s \<Rightarrow> [(uidOid, StringValue s)]),
     OCSPServer = [], CRLDistributionPoints = [], SerialNumber = 1, RawDer = ''der''\<rparr>"

definition sample_request :: "string option \<Rightarrow> Request" where
  "sample_request uid = \<lparr>PeerCertificates = Some [sample_cert uid]\<rparr>"

lemma sample_request_auth:
  "mrn \<noteq> '''' \<Longrightarrow> EqualFold s mrn \<Longrightarrow>
   AuthenticateConsumer (sample_request (Some s)) mrn = (ECDSAWithSHA256, True, None)"
  by (simp add: AuthenticateConsumer_True sample_request_def sample_cert_def key_alg_def uid_values_def)

section \<open>Properties\<close>

text \<open>
  C22: a connection counts as authenticated exactly when it names an MRN, runs over TLS with a
  client certificate whose key is an ECDSA key of 256, 384 or 512 bits, and no UID attribute of
  that certificate differs from the MRN by more than case; the algorithm returned is the one
  of the key. In every other case the algorithm is the unknown one.
\<close>

theorem AuthenticateConsumer_exact:
  "(AuthenticateConsumer req mrn = (alg, True, err) \<longleftrightarrow>
      err = None \<and> mrn \<noteq> '''' \<and>
      (\<exists>cert rest. PeerCertificates req = Some (cert # rest)
         \<and> (PublicKeyOf cert, alg) \<in> {(EcdsaPublicKey 256, ECDSAWithSHA256),
              (EcdsaPublicKey 384, ECDSAWithSHA384), (EcdsaPublicKey 512, ECDSAWithSHA512)}
         \<and> (\<forall>s. (uidOid, StringValue s) \<in> set (SubjectNames cert) \<longrightarrow> EqualFold s mrn)))
   \<and> (\<not> fst (snd (AuthenticateConsumer req mrn)) \<longrightarrow>
        fst (AuthenticateConsumer req mrn) = UnknownSignatureAlgorithm)"
proof (rule conjI)
  show "AuthenticateConsumer req mrn = (alg, True, err) \<longleftrightarrow>
      err = None \<and> mrn \<noteq> '''' \<and>
      (\<exists>cert rest. PeerCertificates req = Some (cert # rest)
         \<and> (PublicKeyOf cert, alg) \<in> {(EcdsaPublicKey 256, ECDSAWithSHA256),
              (EcdsaPublicKey 384, ECDSAWithSHA384), (EcdsaPublicKey 512, ECDSAWithSHA512)}
         \<and> (\<forall>s. (uidOid, StringValue s) \<in> set (SubjectNames cert) \<longrightarrow> EqualFold s mrn))"
    unfolding AuthenticateConsumer_True key_alg_def uid_values_def by blast
  show "\<not> fst (snd (AuthenticateConsumer req mrn)) \<longrightarrow>
      fst (AuthenticateConsumer req mrn) = UnknownSignatureAlgorithm"
    by (auto simp: AuthenticateConsumer_def split: option.splits list.splits sum.splits)
qed

theorem AuthenticateConsumer_exact_witness:
  "AuthenticateConsumer (sample_request (Some ''urn:MRN:a'')) ''urn:mrn:a'' = (ECDSAWithSHA256, True, None)
   \<and> fst (AuthenticateConsumer (sample_request (Some ''urn:mrn:b'')) ''urn:mrn:a'') = UnknownSignatureAlgorithm"
proof -
  have eq: "EqualFold ''urn:MRN:a'' ''urn:mrn:a''" "\<not> EqualFold ''urn:mrn:b'' ''urn:mrn:a''"
    by code_simp+
  show ?thesis
    using AuthenticateConsumer_exact [of "sample_request (Some ''urn:MRN:a'')" "''urn:mrn:a''" ECDSAWithSHA256 None]
      AuthenticateConsumer_exact [of "sample_request (Some ''urn:mrn:b'')" "''urn:mrn:a''" ECDSAWithSHA256 None]
    by (simp add: sample_request_def sample_cert_def eq AuthenticateConsumer_def getSignatureAlgorithm_def)
qed

text \<open>
  The MRN the certificate itself states (GetMrnFromCertificate) is the MRN the client
  authenticated for, when the certificate states one. When it states none, the same certificate
  authenticates for every non-empty MRN.
\<close>

lemma authenticated_mrn_in_certificate:
  assumes "AuthenticateConsumer req mrn = (alg, True, err)"
    and "PeerCertificates req = Some (cert # rest)"
  shows "(GetMrnFromCertificate cert \<noteq> '''' \<longrightarrow> EqualFold (GetMrnFromCertificate cert) mrn)
    \<and> ((\<forall>s. (uidOid, StringValue s) \<notin> set (SubjectNames cert)) \<longrightarrow>
         GetMrnFromCertificate cert = ''''
         \<and> (\<forall>other. other \<noteq> '''' \<longrightarrow> AuthenticateConsumer req other = (alg, True, None)))"
proof (intro conjI impI allI)
  from assms have uids: "\<forall>s \<in> uid_values cert. EqualFold s mrn" and k: "key_alg (PublicKeyOf cert) alg"
    by (auto simp: AuthenticateConsumer_True)
  {
    assume "GetMrnFromCertificate cert \<noteq> ''''"
    with GetMrn_fold [of "SubjectNames cert" "''''"] have "GetMrnFromCertificate cert \<in> uid_values cert"
      by (auto simp: GetMrnFromCertificate_def uid_values_def)
    with uids show "EqualFold (GetMrnFromCertificate cert) mrn" by blast
  }
  assume none: "\<forall>s. (uidOid, StringValue s) \<notin> set (SubjectNames cert)"
  with GetMrn_fold [of "SubjectNames cert" "''''"] show "GetMrnFromCertificate cert = ''''"
    by (auto simp: GetMrnFromCertificate_def)
  fix other :: string
  assume "other \<noteq> ''''"
  with none k assms(2) show "AuthenticateConsumer req other = (alg, True, None)"
    by (simp add: AuthenticateConsumer_True uid_values_def)
qed

text \<open>
  Verifying a signature with the algorithm AuthenticateConsumer returned for the same
  request never dereferences a missing TLS state or certificate, and it succeeds exactly when
  the peer is authenticated and the library accepts the signature over the canonical bytes.
\<close>

lemma VerifySignature_sound:
  assumes "AuthenticateConsumer req mrn = (alg, authenticated, err)"
  shows "\<exists>e. VerifySignatureOnMessage chk m alg req = Return () e
    \<and> (e = None \<longleftrightarrow> authenticated \<and> (\<exists>cert rest. PeerCertificates req = Some (cert # rest)
          \<and> chk cert alg (toBeVerified (appMsgOf m)) (GetSignature (appMsgOf m))))"
proof (cases "alg = UnknownSignatureAlgorithm")
  case True
  with assms have "\<not> authenticated"
    by (auto simp: AuthenticateConsumer_True key_alg_def)
  with True show ?thesis by (simp add: VerifySignatureOnMessage_def)
next
  case False
  with AuthenticateConsumer_alg [OF assms] obtain cert rest where
    "authenticated" "PeerCertificates req = Some (cert # rest)" by blast
  with False show ?thesis by (simp add: VerifySignatureOnMessage_def Let_def)
qed

definition names_of :: "ApplicationMessageHeader_SubjectOrRecipient option \<Rightarrow> string list" where
  "names_of x = (case x of
       Some (ApplicationMessageHeader_Subject s) \<Rightarrow> [s]
     | Some (ApplicationMessageHeader_Recipients r) \<Rightarrow> GetRecipients_list r
     | None \<Rightarrow> [])"

text \<open>
  The signed bytes run the names of a header together: two messages that agree in all
  other parts and whose subject or recipients concatenate to the same bytes have the same
  signatures, although they are delivered to different receivers.
\<close>

lemma signature_does_not_separate_names:
  assumes "appMsgOf m1 = Some (a\<lparr>Header := Some (h\<lparr>SubjectOrRecipient := x1\<rparr>)\<rparr>)"
    and "appMsgOf m2 = Some (a\<lparr>Header := Some (h\<lparr>SubjectOrRecipient := x2\<rparr>)\<rparr>)"
    and "concat (names_of x1) = concat (names_of x2)"
  shows "VerifySignatureOnMessage chk m1 alg req = VerifySignatureOnMessage chk m2 alg req"
proof -
  have eq: "toBeVerified (Some (a\<lparr>Header := Some (h\<lparr>SubjectOrRecipient := x\<rparr>)\<rparr>)) =
      concat (names_of x) @ toBeVerified (Some (a\<lparr>Header := Some (h\<lparr>SubjectOrRecipient := None\<rparr>)\<rparr>))" for x
    by (auto simp: toBeVerified_def names_of_def
        split: option.splits ApplicationMessageHeader_SubjectOrRecipient.splits)
  have "toBeVerified (appMsgOf m1) = toBeVerified (appMsgOf m2)"
    unfolding assms(1,2) by (subst (1 2) eq) (simp add: assms(3))
  moreover have "GetSignature (appMsgOf m1) = GetSignature (appMsgOf m2)"
    unfolding assms(1,2) by simp
  ultimately show ?thesis by (simp only: VerifySignatureOnMessage_def Let_def)
qed

definition sample_recipients :: "string \<Rightarrow> string list \<Rightarrow> int \<Rightarrow> MmtpMessage" where
  "sample_recipients u rs expires = mkProtocol u ProtocolMessageType_SEND_MESSAGE
     (ProtocolMessage_SendMessage (Some \<lparr>Send_ApplicationMessage = Some
        ((sample_app '''' expires)\<lparr>Header := Some ((the (Header (sample_app '''' expires)))
          \<lparr>SubjectOrRecipient := Some (ApplicationMessageHeader_Recipients
             (Some \<lparr>Recipients_Recipients = rs\<rparr>))\<rparr>)\<rparr>)\<rparr>))"

text \<open>
  The key length decides: below 256 bits and every length other than 256, 384 and 512 is
  refused with a SigAlgErr, among them the 521 bits of the NIST curve P-521.
\<close>

lemma getSignatureAlgorithm_lengths:
  "(getSignatureAlgorithm (cert\<lparr>PublicKeyOf := EcdsaPublicKey n\<rparr>) = Inr alg \<longleftrightarrow>
      (n, alg) \<in> {(256, ECDSAWithSHA256), (384, ECDSAWithSHA384), (512, ECDSAWithSHA512)})
   \<and> (\<exists>txt. getSignatureAlgorithm (cert\<lparr>PublicKeyOf := EcdsaPublicKey 521\<rparr>) = Inl (SigAlgErr txt))
   \<and> (\<exists>txt. getSignatureAlgorithm (cert\<lparr>PublicKeyOf := OtherPublicKey rsa\<rparr>) = Inl (SigAlgErr txt))"
  by (auto simp: getSignatureAlgorithm_def split: if_splits)

end
