(* ===== verification/Certs.thy ===== *)
theory Certs
  imports Auth
begin

text \<open>
  Certificates and keys on disk and on the network: utils/revocation/revocation.go,
  utils/cert/certpool.go, the VerifyPeerCertificate callbacks of both routers, genkey/genkey.go
  and the private key branch of the router's setupLibP2P. HTTP, files, OCSP, CRL, PEM and key
  parsing are library code: the fields of \<open>RevEnv\<close> and \<open>KeyEnv\<close>.
\<close>

section \<open>Revocation\<close>

datatype OcspStatus = OcspGood | OcspRevoked | OcspUnknown | OcspServerFailed

record OcspResponse =
  OR_SerialNumber :: int
  OR_Certificate :: "Certificate option"
  OR_Status :: OcspStatus

record RevokedEntry =
  RE_SerialNumber :: int
  RE_RevocationTime :: int

record HttpBody =
  bodyBytes :: "bytes option"
  bodyCloses :: bool

text \<open>
  \<open>None\<close> and \<open>False\<close> are the error results of the library calls; the time is in nanoseconds.
\<close>

record RevEnv =
  ocspCreateRequest :: "Certificate \<Rightarrow> Certificate \<Rightarrow> bytes option"
  httpPost :: "string \<Rightarrow> bytes \<Rightarrow> HttpBody option"
  httpGet :: "string \<Rightarrow> HttpBody option"
  ocspParse :: "bytes \<Rightarrow> OcspResponse option"
  ocspSignedBy :: "OcspResponse \<Rightarrow> Certificate \<Rightarrow> bool"
  crlParse :: "bytes \<Rightarrow> RevokedEntry list option"
  crlSignedBy :: "bytes \<Rightarrow> Certificate \<Rightarrow> bool"
  revNow :: int

definition PerformOCSPCheck :: "RevEnv \<Rightarrow> Certificate \<Rightarrow> Certificate \<Rightarrow> (unit, error option) result" where
  "PerformOCSPCheck rv clientCert issuingCert =
     (case OCSPServer clientCert of
        [] \<Rightarrow> Panic () ''index out of range''
      | ocspUrl # _ \<Rightarrow>
          Return ()
           (case ocspCreateRequest rv clientCert issuingCert of
              None \<Rightarrow> Some (Wrapf ''could not create OCSP request for the given client cert'' (Extern ''ocsp''))
            | Some ocspReq \<Rightarrow>
                (case httpPost rv ocspUrl ocspReq of
                   None \<Rightarrow> Some (Wrapf ''could not send OCSP request'' (Extern ''http''))
                 | Some resp \<Rightarrow>
                     (case bodyBytes resp of
                        None \<Rightarrow> Some (Wrapf ''getting OCSP response failed'' (Extern ''io''))
                      | Some respBytes \<Rightarrow>
                          if \<not> bodyCloses resp then Some (Wrapf ''could not close response body'' (Extern ''io''))
                          else (case ocspParse rv respBytes of
                                  None \<Rightarrow> Some (Wrapf ''parsing OCSP response failed'' (Extern ''ocsp''))
                                | Some ocspResp \<Rightarrow>
                                    if OR_SerialNumber ocspResp \<noteq> SerialNumber clientCert
                                    then Some (Errorf ''the serial number in the OCSP response does not correspond to the serial number of the certificate being checked'')
                                    else if OR_Certificate ocspResp = None \<and> \<not> ocspSignedBy rv ocspResp issuingCert
                                    then Some (Wrapf ''the signature on the OCSP response is not valid'' (Extern ''ocsp''))
                                    else if (case OR_Certificate ocspResp of None \<Rightarrow> False
                                              | Some c \<Rightarrow> RawDer c \<noteq> RawDer issuingCert)
                                    then Some (Errorf ''the certificate embedded in the OCSP response does not match the configured issuing CA'')
                                    else if OR_Status ocspResp \<noteq> OcspGood
                                    then Some (Errorf ''the given client certificate has been revoked'')
                                    else None)))))"

text \<open>The loop over the entries of a revocation list.\<close>

fun crl_lists :: "int \<Rightarrow> int \<Rightarrow> RevokedEntry list \<Rightarrow> bool" where
  "crl_lists serial now [] = False"
| "crl_lists serial now (rv # es) =
     (if RE_SerialNumber rv = serial \<and> RE_RevocationTime rv < now then True
      else crl_lists serial now es)"

definition PerformCRLCheck :: "RevEnv \<Rightarrow> Certificate \<Rightarrow> Certificate \<Rightarrow> (unit, error option) result" where
  "PerformCRLCheck rv clientCert issuingCert =
     (case CRLDistributionPoints clientCert of
        [] \<Rightarrow> Panic () ''index out of range''
      | crlURL # _ \<Rightarrow>
          Return ()
           (case httpGet rv crlURL of
              None \<Rightarrow> Some (Wrapf ''could not send CRL request'' (Extern ''http''))
            | Some resp \<Rightarrow>
                (case bodyBytes resp of
                   None \<Rightarrow> Some (Wrapf ''getting CRL response body failed'' (Extern ''io''))
                 | Some respBody \<Rightarrow>
                     if \<not> bodyCloses resp then Some (Wrapf ''failed to close CRL response body'' (Extern ''io''))
                     else (case crlParse rv respBody of
                             None \<Rightarrow> Some (Wrapf ''could not parse received CRL'' (Extern ''x509''))
                           | Some crl \<Rightarrow>
                               if \<not> crlSignedBy rv respBody issuingCert
                               then Some (Wrapf ''signature on CRL is not valid'' (Extern ''x509''))
                               else if crl_lists (SerialNumber clientCert) (revNow rv) crl
                               then Some (Errorf ''the given client certificate has been revoked'')
                               else None))))"

text \<open>
  The two callbacks. \<open>verifiedChains[0][0]\<close> and \<open>verifiedChains[0][1]\<close> panic on a chain of
  fewer than two certificates.
\<close>

definition verifyAgentCertificate ::
    "RevEnv \<Rightarrow> bool \<Rightarrow> bytes list \<Rightarrow> Certificate list list \<Rightarrow> (unit, error option) result" where
  "verifyAgentCertificate rv skipRevocationCheck rawCerts verifiedChains =
     (if length rawCerts = 0 \<or> length verifiedChains = 0 then Return () None
      else (case hd verifiedChains of
              clientCert # issuingCert # _ \<Rightarrow>
                if length (OCSPServer clientCert) > 0 then PerformOCSPCheck rv clientCert issuingCert
                else if length (CRLDistributionPoints clientCert) > 0
                then PerformCRLCheck rv clientCert issuingCert
                else if skipRevocationCheck then Return () None
                else Return () (Some (Errorf ''was not able to check revocation status of client certificate''))
            | _ \<Rightarrow> Panic () ''index out of range''))"

definition verifyEdgeRouterCertificate ::
    "RevEnv \<Rightarrow> bool \<Rightarrow> bytes list \<Rightarrow> Certificate list list \<Rightarrow> (unit, error option) result" where
  "verifyEdgeRouterCertificate rv skipRevocationCheck rawCerts verifiedChains =
     (if length rawCerts = 0 \<or> length verifiedChains = 0
      then Return () (Some (Errorf ''client did not send a valid certificate''))
      else (case hd verifiedChains of
              clientCert # issuingCert # _ \<Rightarrow>
                if length (OCSPServer clientCert) > 0 then PerformOCSPCheck rv clientCert issuingCert
                else if length (CRLDistributionPoints clientCert) > 0
                then PerformCRLCheck rv clientCert issuingCert
                else if skipRevocationCheck then Return () None
                else Return () (Some (Errorf ''was not able to check revocation status of client certificate''))
            | _ \<Rightarrow> Panic () ''index out of range''))"

section \<open>Files and keys\<close>

datatype ParsedKey =
    EcKey bytes
  | OtherKey string

record 'pool KeyEnv =
  readFile :: "string \<Rightarrow> bytes option"
  appendCertsFromPEM :: "bytes \<Rightarrow> 'pool option"
  pemDecode :: "bytes \<Rightarrow> (string \<times> bytes) option"
  parseEC :: "bytes \<Rightarrow> bytes option"
  parsePKCS8 :: "bytes \<Rightarrow> ParsedKey option"
  keyPairFromKey :: "bytes \<Rightarrow> bytes option"
  idFromPrivateKey :: "bytes \<Rightarrow> string option"

text \<open>cert.LoadCertPool: \<open>Inr None\<close> is the pair of nil pool and nil error.\<close>

definition LoadCertPool :: "'pool KeyEnv \<Rightarrow> string \<Rightarrow> error + 'pool option" where
  "LoadCertPool ke caPath =
     (if caPath = '''' then Inr None
      else (case readFile ke caPath of
              None \<Rightarrow> Inl (Wrapf ''could not read CA file'' (Extern ''os''))
            | Some certFile \<Rightarrow>
                (case appendCertsFromPEM ke certFile of
                   None \<Rightarrow> Inl (Errorf ''could not parse PEM certificates from CA file'')
                 | Some pool \<Rightarrow> Inr (Some pool))))"

definition genkey :: "'pool KeyEnv \<Rightarrow> string \<Rightarrow> error + string" where
  "genkey ke privKeyFilePath =
     (case readFile ke privKeyFilePath of
        None \<Rightarrow> Inl (Wrapf ''could not open the provided private key file'' (Extern ''os''))
      | Some privKeyFile \<Rightarrow>
          (case pemDecode ke privKeyFile of
             None \<Rightarrow> Inl (Errorf ''could not decode PEM data from the provided private key file'')
           | Some (ty, keyBytes) \<Rightarrow>
               if ty \<noteq> ''EC PRIVATE KEY'' \<and> ty \<noteq> ''PRIVATE KEY''
               then Inl (Errorf ''unsupported PEM block type in provided private key file'')
               else (case (case parseEC ke keyBytes of
                             Some privKey \<Rightarrow> Inr privKey
                           | None \<Rightarrow>
                               (case parsePKCS8 ke keyBytes of
                                  None \<Rightarrow> Inl (Wrapf ''could not parse the provided private key file'' (Extern ''x509''))
                                | Some (EcKey v) \<Rightarrow> Inr v
                                | Some (OtherKey _) \<Rightarrow> Inl (Errorf ''could not assert parsed PKCS#8 key as *ecdsa.PrivateKey''))) of
                       Inl err \<Rightarrow> Inl err
                     | Inr privKey \<Rightarrow>
                         (case keyPairFromKey ke privKey of
                            None \<Rightarrow> Inl (Wrapf ''could not parse the ECDSA private key from the file'' (Extern ''crypto''))
                          | Some privEc \<Rightarrow>
                              (case idFromPrivateKey ke privEc of
                                 None \<Rightarrow> Inl (Wrapf ''could not generate peer ID from the provided private key'' (Extern ''peer''))
                               | Some pid \<Rightarrow> Inr pid)))))"

text \<open>main of genkey: the exit code and what it prints; \<open>log.Fatal\<close> exits with 1.\<close>

definition genkey_main :: "'pool KeyEnv \<Rightarrow> string \<Rightarrow> nat \<times> string" where
  "genkey_main ke privKeyFilePath =
     (if privKeyFilePath = '''' then (1, '''')
      else (case genkey ke privKeyFilePath of
              Inl err \<Rightarrow> (1, '''')
            | Inr pid \<Rightarrow> (0, pid @ [CHR 0x0A])))"

text \<open>
  The private key branch of setupLibP2P: the PEM block is used without a nil check and without a
  look at its type.
\<close>

definition loadLibp2pKey :: "'pool KeyEnv \<Rightarrow> string \<Rightarrow> (unit, error + bytes) result" where
  "loadLibp2pKey ke privKeyFilePath =
     (case readFile ke privKeyFilePath of
        None \<Rightarrow> Return () (Inl (Wrapf ''could not open the provided private key file'' (Extern ''os'')))
      | Some privKeyFile \<Rightarrow>
          (case pemDecode ke privKeyFile of
             None \<Rightarrow> Panic () nil_deref
           | Some (_, keyBytes) \<Rightarrow>
               Return ()
                (case (case parseEC ke keyBytes of
                         Some privKey \<Rightarrow> Inr privKey
                       | None \<Rightarrow>
                           (case parsePKCS8 ke keyBytes of
                              None \<Rightarrow> Inl (Wrapf ''could not parse the provided private key file as an ECDSA key'' (Extern ''x509''))
                            | Some (EcKey v) \<Rightarrow> Inr v
                            | Some (OtherKey _) \<Rightarrow> Inl (Errorf ''error on type assertion of provided key as ecdsa privatekey''))) of
                   Inl err \<Rightarrow> Inl err
                 | Inr privKey \<Rightarrow>
                     (case keyPairFromKey ke privKey of
                        None \<Rightarrow> Inl (Wrapf ''could not parse the ECDSA private key from the file'' (Extern ''crypto''))
                      | Some privEc \<Rightarrow> Inr privEc))))"

section \<open>Facts\<close>

lemma crl_lists_iff:
  "crl_lists serial now es \<longleftrightarrow>
     (\<exists>r \<in> set es. RE_SerialNumber r = serial \<and> RE_RevocationTime r < now)"
  by (induction serial now es rule: crl_lists.induct) auto

text \<open>What it takes for a certificate to pass each check.\<close>

definition ocsp_good :: "RevEnv \<Rightarrow> Certificate \<Rightarrow> Certificate \<Rightarrow> bool" where
  "ocsp_good rv clientCert issuingCert \<longleftrightarrow>
     (\<exists>url urls req resp b r.
        OCSPServer clientCert = url # urls
        \<and> ocspCreateRequest rv clientCert issuingCert = Some req
        \<and> httpPost rv url req = Some resp \<and> bodyBytes resp = Some b \<and> bodyCloses resp
        \<and> ocspParse rv b = Some r \<and> OR_SerialNumber r = SerialNumber clientCert
        \<and> (case OR_Certificate r of None \<Rightarrow> ocspSignedBy rv r issuingCert
            | Some c \<Rightarrow> RawDer c = RawDer issuingCert)
        \<and> OR_Status r = OcspGood)"

definition crl_good :: "RevEnv \<Rightarrow> Certificate \<Rightarrow> Certificate \<Rightarrow> bool" where
  "crl_good rv clientCert issuingCert \<longleftrightarrow>
     (\<exists>url urls resp b es.
        CRLDistributionPoints clientCert = url # urls
        \<and> httpGet rv url = Some resp \<and> bodyBytes resp = Some b \<and> bodyCloses resp
        \<and> crlParse rv b = Some es \<and> crlSignedBy rv b issuingCert
        \<and> \<not> (\<exists>r \<in> set es. RE_SerialNumber r = SerialNumber clientCert \<and> RE_RevocationTime r < revNow rv))"

lemma PerformOCSPCheck_None:
  "PerformOCSPCheck rv c i = Return () None \<longleftrightarrow> ocsp_good rv c i"
  by (auto simp: PerformOCSPCheck_def ocsp_good_def split: list.splits option.splits if_splits)

lemma PerformCRLCheck_None:
  "PerformCRLCheck rv c i = Return () None \<longleftrightarrow> crl_good rv c i"
  by (auto simp: PerformCRLCheck_def crl_good_def crl_lists_iff split: list.splits option.splits if_splits)

lemma PerformOCSPCheck_returns: "OCSPServer c \<noteq> [] \<Longrightarrow> returns (PerformOCSPCheck rv c i)"
  by (auto simp: PerformOCSPCheck_def split: list.splits)

lemma PerformCRLCheck_returns: "CRLDistributionPoints c \<noteq> [] \<Longrightarrow> returns (PerformCRLCheck rv c i)"
  by (auto simp: PerformCRLCheck_def split: list.splits)

definition sample_rev :: "OcspStatus \<Rightarrow> RevEnv" where
  "sample_rev st = \<lparr>ocspCreateRequest = (\<lambda>_ _. Some ''q''),
     httpPost = (\<lambda>_ _. Some \<lparr>bodyBytes = Some ''r'', bodyCloses = True\<rparr>),
     httpGet = (\<lambda>_. None),
     ocspParse = (\<lambda>_. Some \<lparr>OR_SerialNumber = 1, OR_Certificate = None, OR_Status = st\<rparr>),
     ocspSignedBy = (\<lambda>_ _. True), crlParse = (\<lambda>_. None), crlSignedBy = (\<lambda>_ _. False), revNow = 0\<rparr>"

section \<open>Properties\<close>

text \<open>
  The certificate callbacks accept a verified chain exactly when its leaf passes the OCSP
  check if it names an OCSP server, else the CRL check if it names a distribution point, else
  only when revocation checks may be skipped; a chain of one certificate makes them panic. They
  differ only without a certificate: the edge router admits it, the router does not.
\<close>

lemma certificate_callbacks:
  "(verifyAgentCertificate rv skip raw vchains = Return () None \<longleftrightarrow>
      raw = [] \<or> vchains = []
      \<or> (\<exists>c i rest. hd vchains = c # i # rest \<and>
           (if OCSPServer c \<noteq> [] then ocsp_good rv c i
            else if CRLDistributionPoints c \<noteq> [] then crl_good rv c i else skip)))
   \<and> (raw \<noteq> [] \<longrightarrow> vchains \<noteq> [] \<longrightarrow>
        verifyEdgeRouterCertificate rv skip raw vchains = verifyAgentCertificate rv skip raw vchains
        \<and> (returns (verifyAgentCertificate rv skip raw vchains) \<longleftrightarrow> length (hd vchains) \<ge> 2))
   \<and> (raw = [] \<or> vchains = [] \<longrightarrow>
        verifyEdgeRouterCertificate rv skip raw vchains \<noteq> Return () None)"
  by (auto simp: verifyAgentCertificate_def verifyEdgeRouterCertificate_def PerformOCSPCheck_None
      PerformCRLCheck_None intro: PerformOCSPCheck_returns PerformCRLCheck_returns split: list.splits)

text \<open>
  A leaf certificate that the OCSP responder or the CRL declares revoked is never accepted,
  whatever the skip flag says: the flag only matters for certificates that name neither.
\<close>

lemma revoked_never_accepted:
  assumes "vchains = (c # i # rest) # vchains0" and "raw \<noteq> []"
    and "OCSPServer c \<noteq> [] \<and> (\<forall>b r. ocspParse rv b = Some r \<longrightarrow> OR_Status r \<noteq> OcspGood)
       \<or> OCSPServer c = [] \<and> CRLDistributionPoints c \<noteq> []
         \<and> (\<forall>b es. crlParse rv b = Some es \<longrightarrow>
              (\<exists>e \<in> set es. RE_SerialNumber e = SerialNumber c \<and> RE_RevocationTime e < revNow rv))"
  shows "\<exists>err. verifyAgentCertificate rv skip raw vchains = Return () (Some err)
             \<and> verifyEdgeRouterCertificate rv skip raw vchains = Return () (Some err)"
proof -
  have eq: "verifyEdgeRouterCertificate rv skip raw vchains = verifyAgentCertificate rv skip raw vchains"
    and ret: "returns (verifyAgentCertificate rv skip raw vchains)"
    using assms(1,2) by (auto simp: verifyAgentCertificate_def verifyEdgeRouterCertificate_def
        intro: PerformOCSPCheck_returns PerformCRLCheck_returns)
  from assms(3) have bad: "\<not> (if OCSPServer c \<noteq> [] then ocsp_good rv c i
      else if CRLDistributionPoints c \<noteq> [] then crl_good rv c i else skip)"
    by (fastforce simp: ocsp_good_def crl_good_def)
  from assms(1,2) bad have "verifyAgentCertificate rv skip raw vchains \<noteq> Return () None"
    by (auto simp: verifyAgentCertificate_def PerformOCSPCheck_None PerformCRLCheck_None split: if_splits)
  with eq ret show ?thesis by (auto elim!: returnsE)
qed

text \<open>
  genkey and the router's start-up read the same key from the same file whenever genkey
  succeeds, so the printed identity belongs to the key the router runs with; on a file without
  a PEM block genkey reports an error and the router panics.
\<close>

lemma genkey_matches_router_key:
  "(genkey ke path = Inr pid \<longrightarrow>
      (\<exists>privEc. loadLibp2pKey ke path = Return () (Inr privEc) \<and> idFromPrivateKey ke privEc = Some pid))
   \<and> (readFile ke path = Some f \<longrightarrow> pemDecode ke f = None \<longrightarrow>
        (\<exists>e. genkey ke path = Inl e) \<and> \<not> returns (loadLibp2pKey ke path))"
  by (auto simp: genkey_def loadLibp2pKey_def split: option.splits sum.splits if_splits prod.splits ParsedKey.splits)

text \<open>What main of genkey prints is, up to the newline, the identity of the router's key.\<close>

lemma genkey_main_prints:
  "genkey_main ke path = (0, out) \<longleftrightarrow> path \<noteq> '''' \<and> (\<exists>pid. genkey ke path = Inr pid \<and> out = pid @ [CHR 0x0A])"
  by (auto simp: genkey_main_def split: sum.splits)

lemma genkey_main_identity:
  "genkey_main ke path = (0, out) \<Longrightarrow>
   \<exists>privEc. loadLibp2pKey ke path = Return () (Inr privEc)
     \<and> map_option (\<lambda>pid. pid @ [CHR 0x0A]) (idFromPrivateKey ke privEc) = Some out"
  using genkey_matches_router_key [of ke path] by (auto simp: genkey_main_prints)

definition sample_keys :: "string \<Rightarrow> unit KeyEnv" where
  "sample_keys ty = \<lparr>readFile = (\<lambda>p. Some p), appendCertsFromPEM = (\<lambda>_. None),
     pemDecode = (\<lambda>f. if f = ''bad'' then None else Some (ty, f)), parseEC = (\<lambda>_. None),
     parsePKCS8 = (\<lambda>b. Some (EcKey b)), keyPairFromKey = Some, idFromPrivateKey = Some\<rparr>"

text \<open>
  LoadCertPool distinguishes its three outcomes: no path gives no pool and no error, a file
  that parses gives its pool, everything else is an error and no pool.
\<close>

lemma LoadCertPool_outcomes:
  "(LoadCertPool ke p = Inr None \<longleftrightarrow> p = '''')
   \<and> (LoadCertPool ke p = Inr (Some pool) \<longleftrightarrow>
        p \<noteq> '''' \<and> (\<exists>f. readFile ke p = Some f \<and> appendCertsFromPEM ke f = Some pool))"
  by (auto simp: LoadCertPool_def split: option.splits)

end
