(* ===== verification/Subscriptions.thy ===== *)
theory Subscriptions
  imports Consumer
begin

text \<open>
  The contract shared by the two Subscription types of the repository (of agents in
  edgerouter/edgerouter.go, of edge routers in router/router.go): a set of subscribers under
  the name of one interest, and a registry that maps interests to subscriptions. The abstract
  view of a registry is, for each subject, the partial map from subscriber keys to subscribers.
\<close>

definition registry :: "('s \<Rightarrow> string \<rightharpoonup> 'p) \<Rightarrow> (string, 's) gomap \<Rightarrow> string \<Rightarrow> string \<rightharpoonup> 'p" where
  "registry members R s = (case mget R s of None \<Rightarrow> Map.empty | Some sub \<Rightarrow> members sub)"

locale subscription_set =
  fixes fresh :: "string \<Rightarrow> 's"
    and add :: "'p \<Rightarrow> 's \<Rightarrow> 's"
    and del :: "'p \<Rightarrow> 's \<Rightarrow> 's"
    and members :: "'s \<Rightarrow> string \<rightharpoonup> 'p"
    and key :: "'p \<Rightarrow> string"
    and interest :: "'s \<Rightarrow> string"
  assumes members_fresh: "members (fresh s) = Map.empty"
    and members_add: "members (add p x) = (members x)(key p \<mapsto> p)"
    and members_del: "members (del p x) = (members x)(key p := None)"
    and interest_fresh: "interest (fresh s) = s"
    and interest_add: "interest (add p x) = interest x"
    and interest_del: "interest (del p x) = interest x"
begin

text \<open>Subscribing and unsubscribing, seen through the registry.\<close>

lemma registry_new:
  "mget R s = None \<Longrightarrow>
   registry members (mput s (add p (fresh s)) R)
     = (registry members R)(s := (registry members R s)(key p \<mapsto> p))"
  by (auto simp: registry_def members_add members_fresh fun_eq_iff)

lemma registry_join:
  "mget R s = Some x \<Longrightarrow>
   registry members (mput s (add p x) R)
     = (registry members R)(s := (registry members R s)(key p \<mapsto> p))"
  by (auto simp: registry_def members_add fun_eq_iff)

lemma registry_leave:
  "mget R s = Some x \<Longrightarrow>
   registry members (mput s (del p x) R)
     = (registry members R)(s := (registry members R s)(key p := None))"
  by (auto simp: registry_def members_del fun_eq_iff)

lemma registry_absent: "mget R s = None \<Longrightarrow> (registry members R)(s := (registry members R s)(k := None)) = registry members R"
  by (auto simp: registry_def fun_eq_iff)

lemma add_del_cancel: "members (del p (add p x)) = members (del p x)"
  by (simp add: members_add members_del)

lemma add_idem: "members (add p (add p x)) = members (add p x)"
  by (simp add: members_add)

lemma add_commute: "key p \<noteq> key q \<Longrightarrow> members (add p (add q x)) = members (add q (add p x))"
  by (simp add: members_add fun_upd_twist)

end

end
