(* ===== verification/Session.thy ===== *)
theory Session
  imports Certs Subscriptions
begin

text \<open>
  What the connection handlers of the two programs have in common, word for word: how a failed
  authentication and an unreadable message are answered, that no handler reads from the
  connection, and which handlers can panic; and the samples the witnesses of both use.
\<close>

section \<open>Closing a connection\<close>

text \<open>
  An error of \<open>c.Close\<close> is only logged. \<open>errors.As\<close> with a CertValErr selects an empty case.
\<close>

definition close_log :: "nat \<Rightarrow> string \<Rightarrow> Io \<Rightarrow> Io" where
  "close_log code reason io = fst (close_io code reason io)"

fun error_text :: "error \<Rightarrow> string" where
  "error_text (Errorf s) = s"
| "error_text (Wrapf s e) = s @ '': '' @ error_text e"
| "error_text (Extern s) = s"
| "error_text (CertValErr s) = s"
| "error_text (SigAlgErr s) = s"
| "error_text (MrnMismatchErr s) = s"

definition reject_auth :: "error \<Rightarrow> Io \<Rightarrow> Io" where
  "reject_auth err io =
     (case err of
        CertValErr _ \<Rightarrow> io
      | SigAlgErr _ \<Rightarrow> close_log StatusPolicyViolation (error_text err) io
      | MrnMismatchErr _ \<Rightarrow> close_log StatusUnsupportedData (error_text err) io
      | _ \<Rightarrow> io)"

text \<open>A read that fails ends the loop: an error response (to the UUID of no message), then close.\<close>

definition read_failed :: "Env \<Rightarrow> Io \<Rightarrow> Io" where
  "read_failed env io =
     (let reasonText = ''Message could not be correctly parsed'';
          (io, err) = respond env io (errorResponse '''' reasonText)
      in case err of Some _ \<Rightarrow> io | None \<Rightarrow> close_log StatusUnsupportedData reasonText io)"


section \<open>Handlers leave the input alone\<close>

lemma respond_inbox: "respond env io r = (io', e) \<Longrightarrow> inboxOf io' = inboxOf io"
  using respond_frame(4) [of env io r] by simp

lemma SendErrorMessage_inbox [simp]: "inboxOf (SendErrorMessage env u t io) = inboxOf io"
  by (simp add: SendErrorMessage_respond respond_frame)

lemma close_io_inbox: "close_io code reason io = (io', e) \<Longrightarrow> inboxOf io' = inboxOf io"
  by (auto simp: close_io_def CloseConn_def inboxOf_def Let_def split: option.splits)

lemma close_log_inbox [simp]: "inboxOf (close_log code reason io) = inboxOf io"
  by (simp add: close_log_def close_io_inbox [of code reason io _ "snd (close_io code reason io)"])

definition same_inbox :: "Io \<Rightarrow> (('e \<times> Io), 'r) result \<Rightarrow> bool" where
  "same_inbox io r \<longleftrightarrow> inboxOf (snd (state_of r)) = inboxOf io"

lemma same_inbox_simps [simp]:
  "same_inbox io (Return (er, io') x) \<longleftrightarrow> inboxOf io' = inboxOf io"
  "same_inbox io (Panic (er, io') w) \<longleftrightarrow> inboxOf io' = inboxOf io"
  "same_inbox io (Wait (er, io') w) \<longleftrightarrow> inboxOf io' = inboxOf io"
  by (simp_all add: same_inbox_def)

lemma HandleReceive_inbox: "inboxOf (snd (state_of (HandleReceive env m (c, io)))) = inboxOf io"
  by (auto simp: HandleReceive_def NowUnix_def Let_def dest: respond_inbox
      split: option.splits prod.splits result.splits)

lemma HandleFetch_inbox: "inboxOf (snd (state_of (HandleFetch env m (c, io)))) = inboxOf io"
  by (auto simp: HandleFetch_def NowUnix_def Let_def dest: respond_inbox
      split: option.splits prod.splits result.splits)

lemma HandleDisconnect_inbox: "inboxOf (fst (HandleDisconnect env m io)) = inboxOf io"
  by (auto simp: HandleDisconnect_def dest!: respond_inbox close_io_inbox
      split: option.splits prod.splits)

lemma NewString_inbox: "NewString env io = (u, io') \<Longrightarrow> inboxOf io' = inboxOf io"
  by (auto simp: NewString_def)

lemmas inbox_facts = respond_inbox NewString_inbox

lemma same_inbox_go_on:
  "same_inbox io r \<Longrightarrow> same_inbox io (bind_result r (\<lambda>s _. Return s True) (\<lambda>s. s))"
  by (cases r) (auto simp: same_inbox_def)

section \<open>Closes and panics\<close>

lemma close_log_closes: "ws io \<noteq> None \<Longrightarrow> closesOf (close_log code reason io) = closesOf io @ [(code, reason)]"
  by (auto simp: close_log_def close_io_def CloseConn_def closesOf_def Let_def split: option.splits)

definition panics :: "('s, 'a) result \<Rightarrow> bool" where
  "panics r \<longleftrightarrow> (\<exists>s w. r = Panic s w)"

lemma panics_simps [simp]:
  "\<not> panics (Return s x)" "panics (Panic s w)" "\<not> panics (Wait s w)"
  by (simp_all add: panics_def)

lemma panics_bind:
  "panics (bind_result r f g) \<longleftrightarrow> panics r \<or> (\<exists>s x. r = Return s x \<and> panics (f s x))"
  by (cases r) auto

lemma panics_returns: "returns r \<Longrightarrow> \<not> panics r"
  by (cases r) auto

section \<open>Message shapes\<close>

text \<open>From here on the body of an unknown message stays folded.\<close>

declare GetProtocolMessage.simps(1) [simp del]

lemma GetProtocolMessage_mk [simp]:
  "GetProtocolMessage (Some (mkProtocol u t b)) = Some \<lparr>ProtocolMsgType = t, PM_Body = Some b\<rparr>"
  "GetProtocolMessage (Some (mkResponse u r)) = None"
  "GetProtocolMessage (Some (sample_msg u s x)) = Some \<lparr>ProtocolMsgType = ProtocolMessageType_SEND_MESSAGE,
     PM_Body = Some (ProtocolMessage_SendMessage (Some \<lparr>Send_ApplicationMessage = Some (sample_app s x)\<rparr>))\<rparr>"
  by (simp_all add: GetProtocolMessage.simps)

section \<open>Samples\<close>

definition sample_subscribe :: "SubjectOrDirectMessages \<Rightarrow> MmtpMessage" where
  "sample_subscribe x = mkProtocol ''sub'' ProtocolMessageType_SUBSCRIBE_MESSAGE
     (ProtocolMessage_SubscribeMessage (Some \<lparr>Subscribe_SubjectOrDirectMessages = Some x\<rparr>))"

definition sample_disconnect :: MmtpMessage where
  "sample_disconnect = mkProtocol ''dis'' ProtocolMessageType_DISCONNECT_MESSAGE
     (ProtocolMessage_DisconnectMessage (Some Disconnect))"

definition sample_connect :: "string option \<Rightarrow> string option \<Rightarrow> MmtpMessage" where
  "sample_connect mrn tok = mkProtocol ''con'' ProtocolMessageType_CONNECT_MESSAGE
     (ProtocolMessage_ConnectMessage (Some \<lparr>OwnMrn = mrn, Connect_ReconnectToken = tok\<rparr>))"

abbreviation con_env :: "string option \<Rightarrow> string option \<Rightarrow> Env" where
  "con_env mrn tok \<equiv> sample_env (\<lambda>_. 10) (\<lambda>_. Some (sample_connect mrn tok))"

lemma ToLower_samples [simp]:
  "ToLower ''urn:mrn:a'' = ''urn:mrn:a''" "ToLower ''urn:mrn:b'' = ''urn:mrn:b''"
  "ToLower ''urn:MRN:c'' = ''urn:mrn:c''" "ToLower ''urn:mrn:c'' = ''urn:mrn:c''" "ToLower '''' = ''''"
  by code_simp+

lemma sample_auth [simp]:
  "AuthenticateConsumer (sample_request (Some ''urn:mrn:c'')) ''urn:mrn:c'' = (ECDSAWithSHA256, True, None)"
  "AuthenticateConsumer (sample_request (Some ''urn:mrn:b'')) ''urn:mrn:b'' = (ECDSAWithSHA256, True, None)"
  "AuthenticateConsumer (sample_request s) '''' = (UnknownSignatureAlgorithm, False, None)"
  by (simp_all add: sample_request_auth) (simp add: AuthenticateConsumer_def sample_request_def)

lemma sample_request_certs [simp]: "PeerCertificates (sample_request s) = Some [sample_cert s]"
  by (simp add: sample_request_def)

lemma sample_connect_simps [simp]:
  "MsgType (sample_connect mrn tok) = MsgType_PROTOCOL_MESSAGE"
  "GetProtocolMessage (Some (sample_connect mrn tok)) = Some \<lparr>ProtocolMsgType = ProtocolMessageType_CONNECT_MESSAGE,
     PM_Body = Some (ProtocolMessage_ConnectMessage (Some \<lparr>OwnMrn = mrn, Connect_ReconnectToken = tok\<rparr>))\<rparr>"
  "Uuid (sample_connect mrn tok) = ''con''"
  by (simp_all add: sample_connect_def)

end
