(* ===== verification/EdgeRouter.thy ===== *)
theory EdgeRouter
  imports Session
begin

text \<open>
  edgerouter/edgerouter.go: the edge router, which serves agents on websockets and forwards
  their traffic to a router. The Go maps share pointers to \<open>Agent\<close>: here an agent lives at an
  address of \<open>agentHeap\<close>, and the maps hold addresses. Each handler takes its mutexes and frees
  them on every path, so it is one step; the state a step threads is the edge router and the
  connection it serves.
\<close>

section \<open>State\<close>

record Agent = Consumer +
  agentUuid :: string
  directMessages :: bool
  authenticated :: bool

record Subscription =
  Interest :: string
  Subscribers :: "(string, nat) gomap"

record EdgeRouter =
  ownMrn :: string
  subscriptions :: "(string, Subscription) gomap"
  agents :: "(string, nat) gomap"
  mrnToAgent :: "(string, nat) gomap"
  agentHeap :: "nat \<Rightarrow> Agent"
  nextAgent :: nat
  outgoingChannel :: "MmtpMessage Chan"
  awaitResponse :: "(string, MmtpMessage) gomap"

definition MessageSizeLimit :: nat where "MessageSizeLimit = 50 * 1024"
definition ExpirationLimit :: int where "ExpirationLimit = 60 * 60 * 24 * 30"
definition ChannelBufSize :: nat where "ChannelBufSize = 1048576"

definition NewSubscription :: "string \<Rightarrow> Subscription" where
  "NewSubscription interest = \<lparr>Interest = interest, Subscribers = []\<rparr>"

definition AddSubscriber :: "(nat \<Rightarrow> Agent) \<Rightarrow> nat \<Rightarrow> Subscription \<Rightarrow> Subscription" where
  "AddSubscriber h a sub = sub\<lparr>Subscribers := mput (agentUuid (h a)) a (Subscribers sub)\<rparr>"

definition DeleteSubscriber :: "(nat \<Rightarrow> Agent) \<Rightarrow> nat \<Rightarrow> Subscription \<Rightarrow> Subscription" where
  "DeleteSubscriber h a sub = sub\<lparr>Subscribers := mdel (agentUuid (h a)) (Subscribers sub)\<rparr>"

definition SnapshotSubscribers :: "Subscription \<Rightarrow> nat list" where
  "SnapshotSubscribers sub = map snd (Subscribers sub)"

interpretation es: subscription_set NewSubscription "AddSubscriber h" "DeleteSubscriber h"
    "\<lambda>sub. mget (Subscribers sub)" "\<lambda>a. agentUuid (h a)" Interest
  for h :: "nat \<Rightarrow> Agent"
  by unfold_locales
    (auto simp: NewSubscription_def AddSubscriber_def DeleteSubscriber_def fun_eq_iff)

text \<open>NewEdgeRouter: everything empty, the channel as main makes it.\<close>

definition blank_agent :: Agent where
  "blank_agent = Consumer.extend (new_consumer '''')
     (Agent.fields '''' False False)"

definition NewEdgeRouter :: "string \<Rightarrow> EdgeRouter" where
  "NewEdgeRouter mrn = \<lparr>ownMrn = mrn, subscriptions = [], agents = [], mrnToAgent = [],
     agentHeap = (\<lambda>_. blank_agent), nextAgent = 0,
     outgoingChannel = \<lparr>cbuf = [], ccap = ChannelBufSize, cclosed = False\<rparr>, awaitResponse = []\<rparr>"

definition upd_agent :: "nat \<Rightarrow> (Agent \<Rightarrow> Agent) \<Rightarrow> EdgeRouter \<Rightarrow> EdgeRouter" where
  "upd_agent a f er = er\<lparr>agentHeap := (agentHeap er)(a := f (agentHeap er a))\<rparr>"

text \<open>A send on the outgoing channel.\<close>

definition er_send :: "EdgeRouter \<Rightarrow> MmtpMessage \<Rightarrow> (EdgeRouter, unit) result" where
  "er_send er m =
     bind_result (chan_send (outgoingChannel er) m)
       (\<lambda>ch _. Return (er\<lparr>outgoingChannel := ch\<rparr>) ()) (\<lambda>ch. er)"

type_synonym er_state = "EdgeRouter \<times> Io"

section \<open>Subscribing\<close>

definition handleSubscribeSubject ::
    "Env \<Rightarrow> MmtpMessage \<Rightarrow> nat \<Rightarrow> er_state \<Rightarrow> (er_state, error option) result" where
  "handleSubscribeSubject env mmtpMessage a s =
     (let (er, io) = s;
          subject = Subscribe_GetSubject (GetSubscribeMessage (GetProtocolMessage (Some mmtpMessage)));
          finish = (\<lambda>er.
            let er = upd_agent a (\<lambda>ag. ag\<lparr>Interests := Interests ag @ [subject]\<rparr>) er;
                (io, err) = respond env io (goodResponse (GetUuid (Some mmtpMessage)))
            in Return (er, io) (map_option (Wrapf ''could not send subscribe response to Agent'') err))
      in if subject = ''''
         then Return (er, SendErrorMessage env (GetUuid (Some mmtpMessage)) ''Cannot subscribe to empty subject'' io) None
         else (case mget (subscriptions er) subject of
                 None \<Rightarrow>
                   (let sub = AddSubscriber (agentHeap er) a (NewSubscription subject);
                        er = er\<lparr>subscriptions := mput subject sub (subscriptions er)\<rparr>
                    in bind_result (er_send er mmtpMessage) (\<lambda>er _. finish er) (\<lambda>er. (er, io)))
               | Some sub \<Rightarrow>
                   finish (er\<lparr>subscriptions :=
                     mput subject (AddSubscriber (agentHeap er) a sub) (subscriptions er)\<rparr>)))"

definition subscribeRequest :: "string \<Rightarrow> string \<Rightarrow> MmtpMessage" where
  "subscribeRequest u subject = mkProtocol u ProtocolMessageType_SUBSCRIBE_MESSAGE
     (ProtocolMessage_SubscribeMessage (Some \<lparr>Subscribe_SubjectOrDirectMessages = Some (Subscribe_Subject subject)\<rparr>))"

definition unsubscribeRequest :: "string \<Rightarrow> string \<Rightarrow> MmtpMessage" where
  "unsubscribeRequest u subject = mkProtocol u ProtocolMessageType_UNSUBSCRIBE_MESSAGE
     (ProtocolMessage_UnsubscribeMessage (Some \<lparr>Unsubscribe_SoD = Some (Unsubscribe_Subject subject)\<rparr>))"

text \<open>\<open>len(request.TLS.PeerCertificates)\<close> without TLS is a nil dereference.\<close>

definition handleSubscribeDirect ::
    "Env \<Rightarrow> MmtpMessage \<Rightarrow> nat \<Rightarrow> Subscribe \<Rightarrow> Request \<Rightarrow> er_state \<Rightarrow> (er_state, error option) result" where
  "handleSubscribeDirect env mmtpMessage a subscribe request s =
     (let (er, io) = s;
          uid = GetUuid (Some mmtpMessage);
          unauth = (er, SendErrorMessage env uid
            ''You need to be authenticated to be able to subscribe to direct messages'' io)
      in if \<not> GetDirectMessages (Some subscribe)
         then Return (er, SendErrorMessage env uid
                ''The directMessages flag needs to be true to be able to subscribe to direct messages'' io) None
         else if Mrn (agentHeap er a) = '''' then Return unauth None
         else (case PeerCertificates request of
                 None \<Rightarrow> Panic (er, io) nil_deref
               | Some certs \<Rightarrow>
                   if length certs = 0 then Return unauth None
                   else (let (u, io) = NewString env io;
                             sub = subscribeRequest u (Mrn (agentHeap er a))
                         in bind_result (er_send er sub)
                              (\<lambda>er _. let er = upd_agent a (\<lambda>ag. ag\<lparr>directMessages := True\<rparr>) er;
                                         (io, err) = respond env io (goodResponse uid)
                                     in Return (er, io)
                                          (map_option (Wrapf ''could not send subscribe response to Agent'') err))
                              (\<lambda>er. (er, io)))))"

definition handleSubscribe ::
    "Env \<Rightarrow> MmtpMessage \<Rightarrow> nat \<Rightarrow> Request \<Rightarrow> er_state \<Rightarrow> (er_state, error option) result" where
  "handleSubscribe env mmtpMessage a request s =
     (case GetSubscribeMessage (GetProtocolMessage (Some mmtpMessage)) of
        Some subscribe \<Rightarrow>
          (case GetSubjectOrDirectMessages (Some subscribe) of
             Some (Subscribe_Subject _) \<Rightarrow> handleSubscribeSubject env mmtpMessage a s
           | Some (Subscribe_DirectMessages _) \<Rightarrow> handleSubscribeDirect env mmtpMessage a subscribe request s
           | None \<Rightarrow> Return s (Some (Errorf ''something went wrong while handling subscribe message'')))
      | None \<Rightarrow> Return s (Some (Errorf ''something went wrong while handling subscribe message'')))"

section \<open>Unsubscribing\<close>

definition handleUnsubscribeSubject ::
    "Env \<Rightarrow> MmtpMessage \<Rightarrow> nat \<Rightarrow> Unsubscribe \<Rightarrow> er_state \<Rightarrow> (er_state, error option) result" where
  "handleUnsubscribeSubject env mmtpMessage a unsubscribe s =
     (let (er, io) = s;
          subject = Unsubscribe_GetSubject (Some unsubscribe)
      in if subject = ''''
         then Return (er, SendErrorMessage env (GetUuid (Some mmtpMessage)) ''Tried to unsubscribe to empty subject'' io) None
         else (let er = (case mget (subscriptions er) subject of
                           Some sub \<Rightarrow> er\<lparr>subscriptions :=
                             mput subject (DeleteSubscriber (agentHeap er) a sub) (subscriptions er)\<rparr>
                         | None \<Rightarrow> er);
                   er = upd_agent a (\<lambda>ag. ag\<lparr>Interests := swap_remove subject (Interests ag)\<rparr>) er;
                   (io, err) = respond env io (goodResponse (GetUuid (Some mmtpMessage)))
               in Return (er, io) (map_option (Wrapf ''could not write response to unsubscribe message'') err)))"

definition handleUnsubscribeDirect ::
    "Env \<Rightarrow> MmtpMessage \<Rightarrow> nat \<Rightarrow> Unsubscribe \<Rightarrow> er_state \<Rightarrow> (er_state, error option) result" where
  "handleUnsubscribeDirect env mmtpMessage a unsubscribe s =
     (let (er, io) = s;
          uid = GetUuid (Some mmtpMessage)
      in if \<not> Unsubscribe_GetDirectMessages (Some unsubscribe)
         then Return (er, SendErrorMessage env uid
                ''The directMessages flag needs to be true to be able to unsubscribe from direct messages'' io) None
         else if Mrn (agentHeap er a) \<noteq> ''''
         then (let (u, io) = NewString env io;
                   unsub = unsubscribeRequest u (Mrn (agentHeap er a))
               in bind_result (er_send er unsub)
                    (\<lambda>er _. let er = upd_agent a (\<lambda>ag. ag\<lparr>directMessages := False\<rparr>) er;
                               (io, err) = respond env io (goodResponse uid)
                           in Return (er, io)
                                (map_option (Wrapf ''could not send unsubscribe response to Agent'') err))
                    (\<lambda>er. (er, io)))
         else Return (er, io) None)"

definition handleUnsubscribe ::
    "Env \<Rightarrow> MmtpMessage \<Rightarrow> nat \<Rightarrow> er_state \<Rightarrow> (er_state, error option) result" where
  "handleUnsubscribe env mmtpMessage a s =
     (case GetUnsubscribeMessage (GetProtocolMessage (Some mmtpMessage)) of
        Some unsubscribe \<Rightarrow>
          (case Unsubscribe_GetSubjectOrDirectMessages (Some unsubscribe) of
             Some (Unsubscribe_Subject _) \<Rightarrow> handleUnsubscribeSubject env mmtpMessage a unsubscribe s
           | Some (Unsubscribe_DirectMessages _) \<Rightarrow> handleUnsubscribeDirect env mmtpMessage a unsubscribe s
           | None \<Rightarrow> Return s (Some (Errorf ''something went wrong while handling unsubscribe message'')))
      | None \<Rightarrow> Return s (Some (Errorf ''something went wrong while handling unsubscribe message'')))"

section \<open>Sending\<close>

text \<open>The two delivery loops: to named agents that take direct messages, and to subscribers.\<close>

fun queue_direct ::
    "MmtpMessage \<Rightarrow> (string, nat) gomap \<Rightarrow> string list \<Rightarrow> (nat \<Rightarrow> Agent) \<Rightarrow> (nat \<Rightarrow> Agent)" where
  "queue_direct m M [] h = h"
| "queue_direct m M (recipient # rs) h =
     (case mget M recipient of
        Some a \<Rightarrow> if directMessages (h a) then queue_direct m M rs (queue_all m [a] h)
                  else queue_direct m M rs h
      | None \<Rightarrow> queue_direct m M rs h)"

fun queue_others :: "MmtpMessage \<Rightarrow> nat \<Rightarrow> nat list \<Rightarrow> (nat \<Rightarrow> Agent) \<Rightarrow> (nat \<Rightarrow> Agent)" where
  "queue_others m a [] h = h"
| "queue_others m a (subscriber # ss) h =
     (if Mrn (h subscriber) \<noteq> Mrn (h a) then queue_others m a ss (queue_all m [subscriber] h)
      else queue_others m a ss h)"

definition deliver_local ::
    "MmtpMessage \<Rightarrow> ApplicationMessageHeader option \<Rightarrow> nat \<Rightarrow> EdgeRouter \<Rightarrow> EdgeRouter" where
  "deliver_local mmtpMessage header a er =
     (let recipients = GetRecipients_list (GetRecipients header)
      in if length recipients > 0
         then er\<lparr>agentHeap := queue_direct mmtpMessage (mrnToAgent er) recipients (agentHeap er)\<rparr>
         else if GetSubject header \<noteq> ''''
         then (case mget (subscriptions er) (GetSubject header) of
                 Some sub \<Rightarrow> er\<lparr>agentHeap :=
                   queue_others mmtpMessage a (SnapshotSubscribers sub) (agentHeap er)\<rparr>
               | None \<Rightarrow> er)
         else er)"

definition handleSend ::
    "Env \<Rightarrow> SigChecker \<Rightarrow> Request \<Rightarrow> SignatureAlgorithm \<Rightarrow> MmtpMessage \<Rightarrow> nat \<Rightarrow> er_state \<Rightarrow>
     (er_state, unit) result" where
  "handleSend env chk request signatureAlgorithm mmtpMessage a s =
     (let (er, io) = s;
          uid = GetUuid (Some mmtpMessage)
      in case GetSendMessage (GetProtocolMessage (Some mmtpMessage)) of
           None \<Rightarrow> Return (er, io) ()
         | Some send \<Rightarrow>
             if \<not> authenticated (agentHeap er a)
             then Return (er, SendErrorMessage env uid ''Unauthenticated agents cannot send messages'' io) ()
             else if Mrn (agentHeap er a) \<noteq> GetSender (GetHeader (GetApplicationMessage (Some send)))
             then Return (er, SendErrorMessage env uid ''Sender MRN must match Agent MRN'' io) ()
             else (case VerifySignatureOnMessage chk mmtpMessage signatureAlgorithm request of
                     Panic _ w \<Rightarrow> Panic (er, io) w
                   | Wait _ w \<Rightarrow> Wait (er, io) w
                   | Return _ (Some err) \<Rightarrow>
                       Return (er, SendErrorMessage env uid ''Could not authenticate message signature'' io) ()
                   | Return _ None \<Rightarrow>
                       if length (GetSubject (GetHeader (GetApplicationMessage (Some send)))) > 100
                       then Return (er, SendErrorMessage env uid ''Subject string may not exceed 100 characters'' io) ()
                       else bind_result (er_send er mmtpMessage)
                         (\<lambda>er _.
                            let er = deliver_local mmtpMessage (GetHeader (GetApplicationMessage (Some send))) a er;
                                (io, err) = respond env io (goodResponse uid)
                            in Return (er, io) ())
                         (\<lambda>er. (er, io))))"

section \<open>The connection of an agent\<close>

text \<open>
  The first part of handleHttpConnection, up to the start of CheckNewMessages: the value is the
  agent and the algorithm of the session, or None when the handler returned. The deferred
  \<open>c.Close(1011, ''PANIC!!!'')\<close> runs when the handler returns, in \<open>handleHttpConnection\<close> below.
\<close>

definition alloc_agent :: "string \<Rightarrow> string \<Rightarrow> bool \<Rightarrow> EdgeRouter \<Rightarrow> nat \<times> EdgeRouter" where
  "alloc_agent mrn u auth er =
     (let a = nextAgent er;
          ag = Consumer.extend (new_consumer mrn) (Agent.fields u False auth)
      in (a, er\<lparr>agentHeap := (agentHeap er)(a := ag), nextAgent := Suc a,
                mrnToAgent := (if mrn \<noteq> '''' then mput mrn a (mrnToAgent er) else mrnToAgent er)\<rparr>))"

definition saved_or_new :: "Env \<Rightarrow> string \<Rightarrow> string \<Rightarrow> bool \<Rightarrow> er_state \<Rightarrow> nat \<times> er_state" where
  "saved_or_new env reconnectToken agentMrn auth s =
     (let (er, io) = s
      in case mget (agents er) reconnectToken of
           Some savedAgent \<Rightarrow> (savedAgent, er, io)
         | None \<Rightarrow>
             (let (u, io) = NewString env io;
                  (a, er) = alloc_agent agentMrn u auth er
              in (a, er, io)))"

definition new_token :: "Env \<Rightarrow> nat \<Rightarrow> er_state \<Rightarrow> string \<times> er_state" where
  "new_token env a s =
     (let (er, io) = s;
          (token, io) = NewString env io;
          er = upd_agent a (\<lambda>ag. ag\<lparr>ReconnectToken := token\<rparr>) er
      in (token, er\<lparr>agents := mput token a (agents er)\<rparr>, io))"

definition connect_agent ::
    "Env \<Rightarrow> Request \<Rightarrow> er_state \<Rightarrow> er_state \<times> (nat \<times> SignatureAlgorithm) option" where
  "connect_agent env request s =
     (let (er, io) = s;
          (c, r) = ReadMessage env (ws io);
          io = io\<lparr>ws := c\<rparr>
      in case r of
           Inl _ \<Rightarrow> ((er, close_log StatusUnsupportedData
                        ''The first message could not be parsed as an MMTP message'' io), None)
         | Inr (mmtpMessage, _) \<Rightarrow>
             if MsgType mmtpMessage \<noteq> MsgType_PROTOCOL_MESSAGE \<or> GetProtocolMessage (Some mmtpMessage) = None
             then ((er, close_log StatusUnsupportedData
                     ''The first message needs to be a Protocol Message containing a Connect message'' io), None)
             else (case GetConnectMessage (GetProtocolMessage (Some mmtpMessage)) of
                     None \<Rightarrow> ((er, close_log StatusUnsupportedData
                                ''The first message needs to contain a Connect message'' io), None)
                   | Some connect \<Rightarrow>
                       (let agentMrn = ToLower (GetOwnMrn (Some connect))
                        in case AuthenticateConsumer request agentMrn of
                             (_, _, Some err) \<Rightarrow> ((er, reject_auth err io), None)
                           | (signatureAlgorithm, auth, None) \<Rightarrow>
                               (let (a, s) = saved_or_new env (GetReconnectToken (Some connect)) agentMrn auth (er, io);
                                    (token, er, io) = new_token env a s;
                                    (io, err) = respond env io
                                      ((goodResponse (GetUuid (Some mmtpMessage)))\<lparr>RM_ReconnectToken := Some token\<rparr>)
                                in case err of
                                     Some _ \<Rightarrow> ((er, io), None)
                                   | None \<Rightarrow> ((er, io), Some (a, signatureAlgorithm))))))"

text \<open>The methods the agent inherits from Consumer, run on the agent's address.\<close>

definition on_agent ::
    "nat \<Rightarrow> (Agent \<times> Io \<Rightarrow> (Agent \<times> Io, 'r) result) \<Rightarrow> er_state \<Rightarrow> (er_state, 'r) result" where
  "on_agent a f s =
     (let (er, io) = s
      in bind_result (f (agentHeap er a, io))
           (\<lambda>(ag, io) r. Return (upd_agent a (\<lambda>_. ag) er, io) r)
           (\<lambda>(ag, io). (upd_agent a (\<lambda>_. ag) er, io)))"

text \<open>
  One message of the loop of handleHttpConnection: the value says whether the loop goes on.
  \<open>n\<close> is the length of the frame. Errors of the handlers are only logged.
\<close>

definition handle_message ::
    "Env \<Rightarrow> SigChecker \<Rightarrow> Request \<Rightarrow> SignatureAlgorithm \<Rightarrow> nat \<Rightarrow> MmtpMessage \<Rightarrow> nat \<Rightarrow> er_state \<Rightarrow>
     (er_state, bool) result" where
  "handle_message env chk request signatureAlgorithm a mmtpMessage n s =
     (let (er, io) = s;
          uid = GetUuid (Some mmtpMessage);
          go_on = (\<lambda>r. bind_result r (\<lambda>s _. Return s True) (\<lambda>s. s))
      in case GetMsgType (Some mmtpMessage) of
           MsgType_PROTOCOL_MESSAGE \<Rightarrow>
             (case GetProtocolMessage (Some mmtpMessage) of
                None \<Rightarrow> Return s True
              | Some protoMessage \<Rightarrow>
                  (case ProtocolMsgType protoMessage of
                     ProtocolMessageType_SUBSCRIBE_MESSAGE \<Rightarrow> go_on (handleSubscribe env mmtpMessage a request s)
                   | ProtocolMessageType_UNSUBSCRIBE_MESSAGE \<Rightarrow> go_on (handleUnsubscribe env mmtpMessage a s)
                   | ProtocolMessageType_SEND_MESSAGE \<Rightarrow>
                       if n > MessageSizeLimit
                       then Return (er, SendErrorMessage env uid ''The message size exceeds the allowed 50 KiB'' io) True
                       else bind_result (handleSend env chk request signatureAlgorithm mmtpMessage a s)
                              (\<lambda>s _. Return s True) (\<lambda>s. s)
                   | ProtocolMessageType_RECEIVE_MESSAGE \<Rightarrow> go_on (on_agent a (HandleReceive env mmtpMessage) s)
                   | ProtocolMessageType_FETCH_MESSAGE \<Rightarrow> go_on (on_agent a (HandleFetch env mmtpMessage) s)
                   | ProtocolMessageType_DISCONNECT_MESSAGE \<Rightarrow>
                       (case HandleDisconnect env mmtpMessage io of
                          (io, Some err) \<Rightarrow> Return (er, io) False
                        | (io, None) \<Rightarrow>
                            Return (er\<lparr>mrnToAgent := mdel (Mrn (agentHeap er a)) (mrnToAgent er),
                                       agents := mdel (ReconnectToken (agentHeap er a)) (agents er)\<rparr>, io) False)
                   | ProtocolMessageType_CONNECT_MESSAGE \<Rightarrow>
                       Return (er, SendErrorMessage env uid ''Already connected'' io) True
                   | _ \<Rightarrow> Return s True))
         | MsgType_RESPONSE_MESSAGE \<Rightarrow> Return s True
         | MsgType_other _ \<Rightarrow> Return s True
         | MsgType_UNSPECIFIED_MESSAGE \<Rightarrow>
             (let (io, err) = respond env io (errorResponse uid ''Message type was unspecified'')
              in case err of None \<Rightarrow> Return (er, io) True | Some _ \<Rightarrow> Return (er, io) False))"

section \<open>The handlers leave the input alone\<close>

text \<open>
  No handler reads from the connection: the frames still to be read are those from before,
  which is why the loop of handleHttpConnection ends.
\<close>

lemma er_send_cases:
  "er_send er m = r \<Longrightarrow>
   (\<And>er'. r = Return er' () \<Longrightarrow>
     er' = er\<lparr>outgoingChannel := (outgoingChannel er)\<lparr>cbuf := cbuf (outgoingChannel er) @ [m]\<rparr>\<rparr> \<Longrightarrow> P) \<Longrightarrow>
   (\<And>w. r = Panic er w \<Longrightarrow> P) \<Longrightarrow> (\<And>w. r = Wait er w \<Longrightarrow> P) \<Longrightarrow> P"
  by (auto simp: er_send_def chan_send_def split: if_splits)

lemma same_inbox_send:
  "inboxOf io' = inboxOf io \<Longrightarrow> (\<And>er. same_inbox io (f er ())) \<Longrightarrow>
   same_inbox io (bind_result (er_send er m) f (\<lambda>er. (er, io')))"
  by (rule er_send_cases [OF refl, of er m]) auto

lemma on_agent_inbox:
  "(\<And>c. inboxOf (snd (state_of (f (c, io)))) = inboxOf io) \<Longrightarrow> same_inbox io (on_agent a f (er, io))"
proof -
  assume "\<And>c. inboxOf (snd (state_of (f (c, io)))) = inboxOf io"
  from this [of "agentHeap er a"] show ?thesis
    by (cases "f (agentHeap er a, io)") (auto simp: on_agent_def)
qed

lemma handleSubscribe_inbox: "same_inbox io (handleSubscribe env m a req (er, io))"
  by (auto simp: handleSubscribe_def handleSubscribeSubject_def handleSubscribeDirect_def Let_def
      split: option.splits SubjectOrDirectMessages.splits prod.splits
      dest!: inbox_facts intro!: same_inbox_send)

lemma handleUnsubscribe_inbox: "same_inbox io (handleUnsubscribe env m a (er, io))"
  by (auto simp: handleUnsubscribe_def handleUnsubscribeSubject_def handleUnsubscribeDirect_def Let_def
      split: option.splits Unsubscribe_SubjectOrDirectMessages.splits prod.splits
      dest!: inbox_facts intro!: same_inbox_send)

lemma handleSend_inbox: "same_inbox io (handleSend env chk req alg m a (er, io))"
  by (auto simp: handleSend_def Let_def split: option.splits result.splits prod.splits
      dest!: inbox_facts intro!: same_inbox_send)


lemma handle_message_same_inbox: "same_inbox io (handle_message env chk req alg a m n (er, io))"
proof -
  obtain io1 e1 where d: "HandleDisconnect env m io = (io1, e1)" by fastforce
  then have di: "inboxOf io1 = inboxOf io" using HandleDisconnect_inbox [of env m io] by simp
  note steps = handleSubscribe_inbox handleUnsubscribe_inbox handleSend_inbox
    on_agent_inbox [of "HandleReceive env m" io a er, OF HandleReceive_inbox]
    on_agent_inbox [of "HandleFetch env m" io a er, OF HandleFetch_inbox]
  show ?thesis
    by (auto simp: handle_message_def d di Let_def intro!: same_inbox_go_on steps dest!: respond_inbox
        split: MsgType.split option.split ProtocolMessageType.split prod.split)
qed

lemma handle_message_inbox:
  "handle_message env chk req alg a m n (er, io) = Return (er', io') r \<Longrightarrow> inboxOf io' = inboxOf io"
  using handle_message_same_inbox [of io env chk req alg a m n er] by simp

section \<open>The whole connection handler\<close>

text \<open>
  The loop. Each round reads a frame, so the number of unread frames bounds it.
\<close>

function agent_loop ::
    "Env \<Rightarrow> SigChecker \<Rightarrow> Request \<Rightarrow> SignatureAlgorithm \<Rightarrow> nat \<Rightarrow> er_state \<Rightarrow> (er_state, unit) result" where
  "agent_loop env chk request signatureAlgorithm a (er, io) =
     (case ReadMessage env (ws io) of
        (c, Inl _) \<Rightarrow> Return (er, read_failed env (io\<lparr>ws := c\<rparr>)) ()
      | (c, Inr (mmtpMessage, n)) \<Rightarrow>
          (case handle_message env chk request signatureAlgorithm a mmtpMessage n (er, io\<lparr>ws := c\<rparr>) of
             Return s goes_on \<Rightarrow>
               if goes_on then agent_loop env chk request signatureAlgorithm a s else Return s ()
           | Panic s w \<Rightarrow> Panic s w
           | Wait s w \<Rightarrow> Wait s w))"
  by pat_completeness auto

termination
proof (relation "measure (\<lambda>(_, _, _, _, _, _, io). length (inboxOf io))")
  fix env chk req alg a er io c m n goes_on and x y :: "(Conn option) \<times> (error + MmtpMessage \<times> nat)"
    and z :: "MmtpMessage \<times> nat" and r :: "error + MmtpMessage \<times> nat" and s :: er_state
  assume rd: "(c, r) = ReadMessage env (ws io)" "r = Inr z" "(m, n) = z"
    and hm: "handle_message env chk req alg a m n (er, io\<lparr>ws := c\<rparr>) = Return s goes_on"
  obtain er' io' where s: "s = (er', io')" by (cases s)
  from hm s have "inboxOf io' = inboxOf (io\<lparr>ws := c\<rparr>)" by (auto dest: handle_message_inbox)
  moreover have "length (inboxOf (io\<lparr>ws := c\<rparr>)) < length (inboxOf io)"
    using rd ReadMessage_inbox [of env io c "(m, n)"] by simp
  ultimately show "((env, chk, req, alg, a, s), env, chk, req, alg, a, er, io)
      \<in> measure (\<lambda>(_, _, _, _, _, _, io). length (inboxOf io))"
    using s by simp
qed simp

declare agent_loop.simps [simp del]

text \<open>
  handleHttpConnection for an accepted websocket: the handshake, the loop, and the deferred
  close, which runs however the handler ends. A handler that waits never gets there.
\<close>

definition deferred_close :: "er_state \<Rightarrow> er_state" where
  "deferred_close s = (fst s, close_log StatusInternalError ''PANIC!!!'' (snd s))"

definition handleHttpConnection ::
    "Env \<Rightarrow> SigChecker \<Rightarrow> Request \<Rightarrow> er_state \<Rightarrow> (er_state, unit) result" where
  "handleHttpConnection env chk request s =
     (case connect_agent env request s of
        (s, None) \<Rightarrow> Return (deferred_close s) ()
      | (s, Some (a, signatureAlgorithm)) \<Rightarrow>
          (case agent_loop env chk request signatureAlgorithm a s of
             Return s _ \<Rightarrow> Return (deferred_close s) ()
           | Panic s w \<Rightarrow> Panic (deferred_close s) w
           | Wait s w \<Rightarrow> Wait s w))"


section \<open>The connection to the router\<close>

text \<open>
  On this side the connection of the state is \<open>er.routerWs\<close>. A dropped connection reads and
  writes no more.
\<close>

definition CloseNow :: "Conn \<Rightarrow> Conn" where
  "CloseNow w = w\<lparr>inbox := [], writeFails := (\<lambda>_. True)\<rparr>"

definition connectRequest :: "string \<Rightarrow> string \<Rightarrow> MmtpMessage" where
  "connectRequest u mrn = mkProtocol u ProtocolMessageType_CONNECT_MESSAGE
     (ProtocolMessage_ConnectMessage (Some \<lparr>OwnMrn = Some mrn, Connect_ReconnectToken = None\<rparr>))"

definition connectMMTPToRouter :: "Env \<Rightarrow> EdgeRouter \<Rightarrow> Io \<Rightarrow> Io \<times> error option" where
  "connectMMTPToRouter env er io =
     (let (u, io) = NewString env io;
          connect = connectRequest u (ownMrn er);
          (io, err) = write_io env io connect
      in case err of
           Some e \<Rightarrow> (io, Some (Wrapf ''could not send connect message'' e))
         | None \<Rightarrow>
             (let (c, r) = ReadMessage env (ws io);
                  io = io\<lparr>ws := c\<rparr>
              in case r of
                   Inl e \<Rightarrow> (io, Some (Wrapf ''something went wrong while receiving response from MMS Router'' e))
                 | Inr (response, _) \<Rightarrow>
                     (let connectResp = GetResponseMessage (Some response)
                      in if GetResponse connectResp \<noteq> ResponseEnum_GOOD
                         then (io, Some (Errorf (''the MMS Router did not accept Connect: '' @ GetReasonText connectResp)))
                         else (io, None))))"

text \<open>
  TryConnectRouter: whether the ping of the old connection succeeds, and then one event per
  round of the loop, the end of the context or a dial with its outcome, are arguments. After
  the first dial that succeeds the loop ends, whatever the router answers to Connect.
\<close>

datatype dial = DialCtxDone | Dial "Conn option"

fun dial_loop :: "Env \<Rightarrow> EdgeRouter \<Rightarrow> dial list \<Rightarrow> Io \<Rightarrow> Io" where
  "dial_loop env er [] io = io"
| "dial_loop env er (DialCtxDone # ds) io = io"
| "dial_loop env er (Dial None # ds) io = dial_loop env er ds io"
| "dial_loop env er (Dial (Some routerWs) # ds) io =
     fst (connectMMTPToRouter env er (io\<lparr>ws := Some routerWs\<rparr>))"

definition TryConnectRouter :: "Env \<Rightarrow> bool \<Rightarrow> dial list \<Rightarrow> EdgeRouter \<Rightarrow> Io \<Rightarrow> Io" where
  "TryConnectRouter env ping dials er io =
     (if ws io \<noteq> None \<and> ping then io
      else dial_loop env er dials (io\<lparr>ws := map_option CloseNow (ws io)\<rparr>))"

text \<open>One round of messageGC, over all reconnect tokens; an agent under two of them is cleaned twice.\<close>

fun gc_agents :: "int \<Rightarrow> (string \<times> nat) list \<Rightarrow> (nat \<Rightarrow> Agent) \<Rightarrow> (nat \<Rightarrow> Agent)" where
  "gc_agents now [] h = h"
| "gc_agents now ((_, a) # es) h = gc_agents now es (h(a := gc_consumer now (h a)))"

definition messageGC :: "Env \<Rightarrow> er_state \<Rightarrow> er_state" where
  "messageGC env s =
     (let (er, io) = s;
          (now, io) = NowUnix env io
      in (er\<lparr>agentHeap := gc_agents now (agents er) (agentHeap er)\<rparr>, io))"

text \<open>handleNotify: ask the router for exactly the announced messages.\<close>

definition receiveRequest :: "string \<Rightarrow> string list \<Rightarrow> MmtpMessage" where
  "receiveRequest u uuids = mkProtocol u ProtocolMessageType_RECEIVE_MESSAGE
     (ProtocolMessage_ReceiveMessage (Some \<lparr>Receive_Filter = Some \<lparr>MessageUuids = Some uuids\<rparr>\<rparr>))"

definition handleNotify :: "Env \<Rightarrow> MessageMetadata list \<Rightarrow> er_state \<Rightarrow> (er_state, error option) result" where
  "handleNotify env metadata s =
     (let (er, io) = s;
          filt = map (\<lambda>elem. MM_GetUuid (Some elem)) metadata;
          (u, io) = NewString env io
      in bind_result (er_send er (receiveRequest u filt)) (\<lambda>er _. Return (er, io) None) (\<lambda>er. (er, io)))"

text \<open>The contents of a response: those of a valid application message are delivered.\<close>

definition sendRequest :: "string \<Rightarrow> ApplicationMessage option \<Rightarrow> MmtpMessage" where
  "sendRequest u appMsg = mkProtocol u ProtocolMessageType_SEND_MESSAGE
     (ProtocolMessage_SendMessage (Some \<lparr>Send_ApplicationMessage = appMsg\<rparr>))"

definition discarded :: "int \<Rightarrow> ApplicationMessage option \<Rightarrow> bool" where
  "discarded now appMsg =
     (let msgExpires = GetExpires (GetHeader appMsg)
      in appMsg = None \<or> now > msgExpires \<or> msgExpires > now + ExpirationLimit)"

definition deliver_content :: "Env \<Rightarrow> ApplicationMessage option \<Rightarrow> er_state \<Rightarrow> er_state" where
  "deliver_content env appMsg s =
     (let (er, io) = s;
          (u, io) = NewString env io;
          incomingMessage = sendRequest u appMsg
      in case GetSubjectOrRecipient (GetHeader appMsg) of
           Some (ApplicationMessageHeader_Subject subject) \<Rightarrow>
             (let subscribers = (case mget (subscriptions er) subject of
                                   None \<Rightarrow> [] | Some sub \<Rightarrow> SnapshotSubscribers sub)
              in (er\<lparr>agentHeap := queue_all incomingMessage subscribers (agentHeap er)\<rparr>, io))
         | Some (ApplicationMessageHeader_Recipients recipients) \<Rightarrow>
             (er\<lparr>agentHeap := queue_direct incomingMessage (mrnToAgent er) (GetRecipients_list recipients)
                                 (agentHeap er)\<rparr>, io)
         | None \<Rightarrow> (er, io))"

fun deliver_contents :: "Env \<Rightarrow> int \<Rightarrow> MessageContent list \<Rightarrow> er_state \<Rightarrow> er_state" where
  "deliver_contents env now [] s = s"
| "deliver_contents env now (msgContent # cs) s =
     deliver_contents env now cs
       (if discarded now (GetMsg (Some msgContent)) then s
        else deliver_content env (GetMsg (Some msgContent)) s)"

text \<open>
  One round of handleIncomingMessages. \<open>canceled\<close> says whether a read error is the end of the
  context.
\<close>

definition handle_response :: "Env \<Rightarrow> ResponseMessage option \<Rightarrow> er_state \<Rightarrow> (er_state, unit) result" where
  "handle_response env responseMsg s =
     (let (er, io) = s;
          uid = GetResponseToUuid responseMsg;
          awaited = mget (awaitResponse er) uid;
          er = er\<lparr>awaitResponse := mdel uid (awaitResponse er)\<rparr>;
          deliver = (\<lambda>er. let (now, io) = NowUnix env io
                          in Return (deliver_contents env now (GetMessageContent responseMsg) (er, io)) ())
      in case awaited of
           Some msg \<Rightarrow>
             if GetResponse responseMsg \<noteq> ResponseEnum_GOOD
             then bind_result (er_send er msg) (\<lambda>er _. Return (er, io) ()) (\<lambda>er. (er, io))
             else deliver er
         | None \<Rightarrow>
             (case responseMsg of
                None \<Rightarrow> Panic (er, io) nil_deref
              | Some rm \<Rightarrow> if Response rm \<noteq> ResponseEnum_GOOD then Return (er, io) () else deliver er))"

definition handleIncomingMessages ::
    "Env \<Rightarrow> bool \<Rightarrow> bool \<Rightarrow> dial list \<Rightarrow> er_state \<Rightarrow> (er_state, unit) result" where
  "handleIncomingMessages env canceled ping dials s =
     (let (er, io) = s;
          (c, r) = ReadMessage env (ws io);
          io = io\<lparr>ws := c\<rparr>
      in case r of
           Inl _ \<Rightarrow> Return (er, if canceled then io else TryConnectRouter env ping dials er io) ()
         | Inr (response, _) \<Rightarrow>
             if \<not> uuidValid env (GetUuid (Some response)) then Return (er, io) ()
             else (case GetBody (Some response) of
                     Some (MmtpMessage_ResponseMessage responseMsg) \<Rightarrow> handle_response env responseMsg (er, io)
                   | Some (MmtpMessage_ProtocolMessage p) \<Rightarrow>
                       if GetProtocolMsgType p = ProtocolMessageType_NOTIFY_MESSAGE
                       then bind_result (handleNotify env (Notify_GetMessageMetadata (GetNotifyMessage p)) (er, io))
                              (\<lambda>s _. Return s ()) (\<lambda>s. s)
                       else Return (er, io) ()
                   | None \<Rightarrow> Return (er, io) ()))"

text \<open>One round of handleOutgoingMessages; on a closed and drained channel it does nothing.\<close>

definition handleOutgoingMessages :: "Env \<Rightarrow> bool \<Rightarrow> dial list \<Rightarrow> er_state \<Rightarrow> (er_state, unit) result" where
  "handleOutgoingMessages env ping dials s =
     (let (er, io) = s
      in case cbuf (outgoingChannel er) of
           [] \<Rightarrow> if cclosed (outgoingChannel er) then Return s () else Wait s ''channel is empty''
         | outgoingMessage # rest \<Rightarrow>
             (let er = er\<lparr>outgoingChannel := (outgoingChannel er)\<lparr>cbuf := rest\<rparr>\<rparr>
              in if GetMsgType (Some outgoingMessage) \<noteq> MsgType_PROTOCOL_MESSAGE then Return (er, io) ()
                 else (case write_io env io outgoingMessage of
                         (io, Some _) \<Rightarrow>
                           bind_result (er_send er outgoingMessage)
                             (\<lambda>er _. Return (er, TryConnectRouter env ping dials er io) ()) (\<lambda>er. (er, io))
                       | (io, None) \<Rightarrow>
                           (let t = GetProtocolMsgType (GetProtocolMessage (Some outgoingMessage))
                            in if t = ProtocolMessageType_SUBSCRIBE_MESSAGE \<or>
                                  t = ProtocolMessageType_UNSUBSCRIBE_MESSAGE
                               then Return (er\<lparr>awaitResponse :=
                                      mput (GetUuid (Some outgoingMessage)) outgoingMessage (awaitResponse er)\<rparr>, io) ()
                               else Return (er, io) ()))))"


section \<open>The invariant\<close>

text \<open>
  Of an agent: its message maps are well-formed, and only an agent with an MRN is authenticated
  or takes direct messages. Of the router: its maps have distinct keys and hold allocated
  addresses; an agent is routed under its own MRN and subscribed under its own UUID.
\<close>

definition agent_ok :: "Agent \<Rightarrow> bool" where
  "agent_ok ag \<longleftrightarrow> consumer_ok ag \<and> (authenticated ag \<or> directMessages ag \<longrightarrow> Mrn ag \<noteq> '''')"

definition sub_ok :: "(nat \<Rightarrow> Agent) \<Rightarrow> nat \<Rightarrow> string \<Rightarrow> Subscription \<Rightarrow> bool" where
  "sub_ok h n subject sub \<longleftrightarrow> subject \<noteq> '''' \<and> Interest sub = subject \<and> keys_ok (Subscribers sub)
     \<and> all_entries (\<lambda>u a. a < n \<and> agentUuid (h a) = u) (Subscribers sub)"

definition maps_ok :: "(nat \<Rightarrow> Agent) \<Rightarrow> EdgeRouter \<Rightarrow> bool" where
  "maps_ok h er \<longleftrightarrow>
     keys_ok (agents er) \<and> all_entries (\<lambda>_ a. a < nextAgent er) (agents er) \<and>
     keys_ok (mrnToAgent er) \<and>
     all_entries (\<lambda>mrn a. mrn \<noteq> '''' \<and> a < nextAgent er \<and> Mrn (h a) = mrn) (mrnToAgent er) \<and>
     keys_ok (subscriptions er) \<and> all_entries (sub_ok h (nextAgent er)) (subscriptions er) \<and>
     keys_ok (awaitResponse er) \<and> all_entries (\<lambda>u m. Uuid m = u) (awaitResponse er)"

definition er_ok :: "EdgeRouter \<Rightarrow> bool" where
  "er_ok er \<longleftrightarrow> (\<forall>a. agent_ok (agentHeap er a)) \<and> maps_ok (agentHeap er) er"

definition same_ids :: "(nat \<Rightarrow> Agent) \<Rightarrow> (nat \<Rightarrow> Agent) \<Rightarrow> bool" where
  "same_ids h h' \<longleftrightarrow> (\<forall>a. Mrn (h' a) = Mrn (h a) \<and> agentUuid (h' a) = agentUuid (h a)
     \<and> authenticated (h' a) = authenticated (h a))"

lemma same_ids_refl [simp]: "same_ids h h"
  by (simp add: same_ids_def)

lemma same_ids_trans [trans]: "same_ids h h' \<Longrightarrow> same_ids h' h'' \<Longrightarrow> same_ids h h''"
  by (simp add: same_ids_def)

lemma same_ids_upd:
  "same_ids h (h(a := ag)) \<longleftrightarrow> Mrn ag = Mrn (h a) \<and> agentUuid ag = agentUuid (h a)
     \<and> authenticated ag = authenticated (h a)"
  by (auto simp: same_ids_def)

lemma er_ok_agent [intro, simp]: "er_ok er \<Longrightarrow> agent_ok (agentHeap er a)"
  by (simp add: er_ok_def)

lemma sub_ok_mono:
  "sub_ok h n s sub \<Longrightarrow> n \<le> n' \<Longrightarrow> (\<And>a. a < n \<Longrightarrow> agentUuid (h' a) = agentUuid (h a)) \<Longrightarrow> sub_ok h' n' s sub"
  by (auto simp: sub_ok_def elim!: all_entries_mono)

lemma er_ok_heap:
  assumes "er_ok er" "same_ids (agentHeap er) h" "\<And>a. agent_ok (h a)"
  shows "er_ok (er\<lparr>agentHeap := h\<rparr>)"
proof -
  from assms(2) have same: "Mrn (h a) = Mrn (agentHeap er a)" "agentUuid (h a) = agentUuid (agentHeap er a)" for a
    by (simp_all add: same_ids_def)
  from assms(1) have m: "maps_ok (agentHeap er) er" by (simp add: er_ok_def)
  then have "all_entries (sub_ok h (nextAgent er)) (subscriptions er)"
    by (auto simp: maps_ok_def same elim!: all_entries_mono sub_ok_mono)
  with m assms(3) show ?thesis by (simp add: er_ok_def maps_ok_def same)
qed

lemma upd_agent_ok:
  "er_ok er \<Longrightarrow> agent_ok ag \<Longrightarrow> Mrn ag = Mrn (agentHeap er a) \<Longrightarrow>
   agentUuid ag = agentUuid (agentHeap er a) \<Longrightarrow> authenticated ag = authenticated (agentHeap er a) \<Longrightarrow>
   er_ok (er\<lparr>agentHeap := (agentHeap er)(a := ag)\<rparr>)"
  by (rule er_ok_heap) (auto simp: same_ids_upd)

lemma er_ok_outgoing [simp]: "er_ok (er\<lparr>outgoingChannel := ch\<rparr>) = er_ok er"
  by (simp add: er_ok_def maps_ok_def)

lemma er_ok_await:
  "er_ok er \<Longrightarrow> er_ok (er\<lparr>awaitResponse := mdel u (awaitResponse er)\<rparr>)"
  "er_ok er \<Longrightarrow> er_ok (er\<lparr>awaitResponse := mput (Uuid m) m (awaitResponse er)\<rparr>)"
  by (auto simp: er_ok_def maps_ok_def)

lemma er_ok_forget:
  "er_ok er \<Longrightarrow> er_ok (er\<lparr>agents := mdel t (agents er)\<rparr>)"
  "er_ok er \<Longrightarrow> er_ok (er\<lparr>mrnToAgent := mdel x (mrnToAgent er)\<rparr>)"
  "er_ok er \<Longrightarrow> a < nextAgent er \<Longrightarrow> er_ok (er\<lparr>agents := mput t a (agents er)\<rparr>)"
  by (auto simp: er_ok_def maps_ok_def)

lemma er_ok_sub:
  "er_ok er \<Longrightarrow> sub_ok (agentHeap er) (nextAgent er) s sub \<Longrightarrow>
   er_ok (er\<lparr>subscriptions := mput s sub (subscriptions er)\<rparr>)"
  by (auto simp: er_ok_def maps_ok_def)

lemma er_ok_sub_get:
  "er_ok er \<Longrightarrow> mget (subscriptions er) s = Some sub \<Longrightarrow> sub_ok (agentHeap er) (nextAgent er) s sub"
  by (auto simp: er_ok_def maps_ok_def dest: all_entries_get)

lemma sub_ok_ops:
  "s \<noteq> '''' \<Longrightarrow> sub_ok h n s (NewSubscription s)"
  "sub_ok h n s sub \<Longrightarrow> a < n \<Longrightarrow> sub_ok h n s (AddSubscriber h a sub)"
  "sub_ok h n s sub \<Longrightarrow> sub_ok h n s (DeleteSubscriber h a sub)"
  by (auto simp: sub_ok_def NewSubscription_def AddSubscriber_def DeleteSubscriber_def)

lemma er_ok_NewEdgeRouter [simp]: "er_ok (NewEdgeRouter mrn)"
  by (simp add: er_ok_def maps_ok_def agent_ok_def NewEdgeRouter_def blank_agent_def Agent.defs
      Consumer.defs consumer_ok_def new_consumer_def)

lemma alloc_agent_ok:
  assumes "er_ok er" "alloc_agent mrn u auth er = (a, er')" "auth \<longrightarrow> mrn \<noteq> ''''"
  shows "er_ok er' \<and> a < nextAgent er' \<and> nextAgent er' = Suc (nextAgent er)"
proof -
  let ?n = "nextAgent er" and ?ag = "Consumer.extend (new_consumer mrn) (Agent.fields u False auth)"
  define h where "h = (agentHeap er)(?n := ?ag)"
  have new: "Mrn (h ?n) = mrn" "agent_ok (h ?n)"
    using assms(3) by (simp_all add: h_def Consumer.defs Agent.defs new_consumer_def consumer_ok_def agent_ok_def)
  have old: "b < ?n \<Longrightarrow> h b = agentHeap er b" "b \<noteq> ?n \<Longrightarrow> h b = agentHeap er b" for b
    by (simp_all add: h_def)
  from assms(2) have a: "a = ?n"
    and er': "er' = er\<lparr>agentHeap := h, nextAgent := Suc ?n,
      mrnToAgent := (if mrn \<noteq> '''' then mput mrn ?n (mrnToAgent er) else mrnToAgent er)\<rparr>"
    by (auto simp: alloc_agent_def Let_def h_def)
  from assms(1) have m: "maps_ok (agentHeap er) er" by (simp add: er_ok_def)
  have subs: "all_entries (sub_ok h (Suc ?n)) (subscriptions er)"
    using m old(1) by (auto simp: maps_ok_def elim!: all_entries_mono sub_ok_mono)
  have route: "all_entries (\<lambda>x b. x \<noteq> '''' \<and> b < Suc ?n \<and> Mrn (h b) = x) (mrnToAgent er)"
    using m old(1) by (auto simp: maps_ok_def elim!: all_entries_mono)
  have tokens: "all_entries (\<lambda>_ b. b < Suc ?n) (agents er)"
    using m by (auto simp: maps_ok_def elim!: all_entries_mono)
  have heap: "agent_ok (h b)" for b
    using assms(1) new(2) old(2) [of b] by (cases "b = ?n") auto
  show ?thesis
    using m subs route tokens heap new(1) by (auto simp: er_ok_def maps_ok_def a er')
qed


section \<open>Queueing and the invariant\<close>

lemma more_Agent:
  "Consumer.more (x :: Agent) = Consumer.more (y :: Agent) \<Longrightarrow>
   agentUuid x = agentUuid y \<and> directMessages x = directMessages y \<and> authenticated x = authenticated y"
  by (cases x; cases y) simp

lemma queue_all_more:
  fixes h :: "nat \<Rightarrow> Agent"
  shows "agentUuid (queue_all m as h b) = agentUuid (h b)"
    and "directMessages (queue_all m as h b) = directMessages (h b)"
    and "authenticated (queue_all m as h b) = authenticated (h b)"
  using more_Agent [OF queue_all_frame(4) [of m as h b]] by simp_all

lemmas queue_all_simps = queue_all_frame(1-3) queue_all_more

lemma queue_all_agent_ok:
  "(\<And>a. agent_ok (h a)) \<Longrightarrow> headerOf m \<noteq> None \<Longrightarrow> agent_ok (queue_all m as h b)"
  by (cases "Uuid m = ''''")
    (auto simp: queue_all_no_uuid agent_ok_def queue_all_simps storable_def intro: queue_all_ok)

lemma same_ids_queue_all: "same_ids h (queue_all m as h)"
  by (simp add: same_ids_def queue_all_simps)

text \<open>What the two loops compute: queueing for a list of addresses that does not depend on the heap.\<close>

definition direct_targets :: "(string, nat) gomap \<Rightarrow> string list \<Rightarrow> (nat \<Rightarrow> Agent) \<Rightarrow> nat list" where
  "direct_targets M rs h = filter (\<lambda>a. directMessages (h a)) (List.map_filter (mget M) rs)"

lemma direct_targets_queue: "direct_targets M rs (queue_all m as h) = direct_targets M rs h"
  by (simp add: direct_targets_def queue_all_simps)

lemma queue_direct_eq: "queue_direct m M rs h = queue_all m (direct_targets M rs h) h"
proof (induction rs arbitrary: h)
  case Nil
  then show ?case by (simp add: direct_targets_def)
next
  case (Cons r rs)
  show ?case
  proof (cases "mget M r")
    case None
    with Cons show ?thesis by (simp add: direct_targets_def)
  next
    case (Some a)
    have "queue_all m (direct_targets M rs (queue_all m [a] h)) (queue_all m [a] h)
        = queue_all m (a # direct_targets M rs h) h"
      using queue_all_append [of m "[a]" "direct_targets M rs h" h] by (simp add: direct_targets_queue)
    with Some Cons [of h] Cons [of "queue_all m [a] h"] show ?thesis
      by (simp add: direct_targets_def)
  qed
qed

lemma queue_others_eq:
  "queue_others m a ss h = queue_all m (filter (\<lambda>b. Mrn (h b) \<noteq> Mrn (h a)) ss) h"
proof (induction ss arbitrary: h)
  case (Cons b ss)
  show ?case by (simp add: Cons queue_all_simps queue_all_single)
qed simp

section \<open>Every step keeps the invariant\<close>

text \<open>
  \<open>keeps er er'\<close>: the invariant holds after the step, and of the agents there before, MRN, UUID
  and authentication are unchanged.
\<close>

definition keeps :: "EdgeRouter \<Rightarrow> EdgeRouter \<Rightarrow> bool" where
  "keeps er er' \<longleftrightarrow> er_ok er' \<and> nextAgent er \<le> nextAgent er' \<and>
     (\<forall>a < nextAgent er. Mrn (agentHeap er' a) = Mrn (agentHeap er a)
        \<and> agentUuid (agentHeap er' a) = agentUuid (agentHeap er a)
        \<and> authenticated (agentHeap er' a) = authenticated (agentHeap er a))"

abbreviation keeps_res :: "EdgeRouter \<Rightarrow> (er_state, 'r) result \<Rightarrow> bool" where
  "keeps_res er r \<equiv> keeps er (fst (state_of r))"

lemma keeps_refl [simp]: "keeps er er \<longleftrightarrow> er_ok er"
  by (simp add: keeps_def)

lemma keeps_trans [trans]: "keeps er er' \<Longrightarrow> keeps er' er'' \<Longrightarrow> keeps er er''"
  by (auto simp: keeps_def)

lemma keeps_ok: "keeps er er' \<Longrightarrow> er_ok er'"
  by (simp add: keeps_def)

text \<open>A step that leaves the heap, or that changes it as \<open>same_ids\<close> allows.\<close>

lemma keeps_maps:
  "er_ok er' \<Longrightarrow> agentHeap er' = agentHeap er \<Longrightarrow> nextAgent er' = nextAgent er \<Longrightarrow> keeps er er'"
  by (simp add: keeps_def)

lemma keeps_heap:
  "er_ok er \<Longrightarrow> same_ids (agentHeap er) h \<Longrightarrow> (\<And>a. agent_ok (h a)) \<Longrightarrow> keeps er (er\<lparr>agentHeap := h\<rparr>)"
  by (auto simp: keeps_def same_ids_def intro!: er_ok_heap)

lemma keeps_agent:
  "er_ok er \<Longrightarrow> agent_ok (f (agentHeap er a)) \<Longrightarrow> Mrn (f (agentHeap er a)) = Mrn (agentHeap er a) \<Longrightarrow>
   agentUuid (f (agentHeap er a)) = agentUuid (agentHeap er a) \<Longrightarrow>
   authenticated (f (agentHeap er a)) = authenticated (agentHeap er a) \<Longrightarrow> keeps er (upd_agent a f er)"
  unfolding upd_agent_def by (rule keeps_heap) (auto simp: same_ids_upd)

lemma keeps_queue:
  "er_ok er \<Longrightarrow> headerOf m \<noteq> None \<Longrightarrow> keeps er (er\<lparr>agentHeap := queue_all m as (agentHeap er)\<rparr>)"
  by (intro keeps_heap same_ids_queue_all queue_all_agent_ok) auto

lemma er_send_Return:
  "er_send er m = Return er' x \<Longrightarrow>
   er' = er\<lparr>outgoingChannel := (outgoingChannel er)\<lparr>cbuf := cbuf (outgoingChannel er) @ [m]\<rparr>\<rparr>"
  by (erule er_send_cases) auto

lemma keeps_send: "er_ok er \<Longrightarrow> keeps er (state_of (er_send er m))"
  by (rule er_send_cases [OF refl, of er m]) (auto simp: keeps_def)

lemma keeps_send_bind:
  "er_ok er \<Longrightarrow> (\<And>er'. keeps er er' \<Longrightarrow> er_send er m = Return er' () \<Longrightarrow> keeps_res er (f er' ())) \<Longrightarrow>
   keeps_res er (bind_result (er_send er m) f (\<lambda>er. (er, io)))"
  using keeps_send [of er m] by (cases "er_send er m") auto


lemma keeps_bind:
  "keeps_res er r \<Longrightarrow> (\<And>er' io' x. r = Return (er', io') x \<Longrightarrow> keeps er er' \<Longrightarrow> keeps_res er (f (er', io') x)) \<Longrightarrow>
   keeps_res er (bind_result r f (\<lambda>s. s))"
  by (cases r) auto

lemma keeps_then_agent:
  assumes "keeps er er'" and "agent_ok (f (agentHeap er' a))"
    and "Mrn (f (agentHeap er' a)) = Mrn (agentHeap er' a)"
    and "agentUuid (f (agentHeap er' a)) = agentUuid (agentHeap er' a)"
    and "authenticated (f (agentHeap er' a)) = authenticated (agentHeap er' a)"
  shows "keeps er (upd_agent a f er')"
  using assms(1) by (rule keeps_trans) (rule keeps_agent [where f = f and a = a, OF keeps_ok [OF assms(1)] assms(2-5)])

lemma agent_ok_updates [simp]:
  "agent_ok (ag\<lparr>Interests := is\<rparr>) = agent_ok ag"
  "agent_ok (ag\<lparr>ReconnectToken := t\<rparr>) = agent_ok ag"
  by (simp_all add: agent_ok_def)

lemma agent_ok_direct:
  "agent_ok ag \<Longrightarrow> Mrn ag \<noteq> '''' \<Longrightarrow> agent_ok (ag\<lparr>directMessages := b\<rparr>)"
  "agent_ok ag \<Longrightarrow> agent_ok (ag\<lparr>directMessages := False\<rparr>)"
  by (auto simp: agent_ok_def consumer_ok_def)

lemma keeps_subscribe:
  assumes "er_ok er" "a < nextAgent er" "s \<noteq> ''''"
    "sub = NewSubscription s \<or> mget (subscriptions er) s = Some sub"
  shows "keeps er (er\<lparr>subscriptions := mput s (AddSubscriber (agentHeap er) a sub) (subscriptions er)\<rparr>)"
  using assms by (intro keeps_maps er_ok_sub sub_ok_ops) (auto intro: sub_ok_ops er_ok_sub_get)

lemma keeps_Mrn: "keeps er er' \<Longrightarrow> a < nextAgent er \<Longrightarrow> Mrn (agentHeap er' a) = Mrn (agentHeap er a)"
  by (simp add: keeps_def)

lemma handleSubscribeSubject_keeps:
  assumes ok: "er_ok er" and a: "a < nextAgent er"
  shows "keeps_res er (handleSubscribeSubject env m a (er, io))"
proof -
  define s where "s = Subscribe_GetSubject (GetSubscribeMessage (GetProtocolMessage (Some m)))"
  let ?finish = "upd_agent a (\<lambda>ag. ag\<lparr>Interests := Interests ag @ [s]\<rparr>)"
  have finish: "keeps er e \<Longrightarrow> keeps er (?finish e)" for e
    by (rule keeps_then_agent) (auto dest: keeps_ok)
  note eq = handleSubscribeSubject_def [of env m a "(er, io)", folded s_def, unfolded Let_def, simplified]
  show ?thesis
  proof (cases "s = ''''")
    case True
    with ok show ?thesis by (simp add: eq)
  next
    case False
    let ?add = "\<lambda>sub. er\<lparr>subscriptions := mput s (AddSubscriber (agentHeap er) a sub) (subscriptions er)\<rparr>"
    show ?thesis
    proof (cases "mget (subscriptions er) s")
      case None
      let ?e = "?add (NewSubscription s)"
      have e: "keeps er ?e" using ok a False by (intro keeps_subscribe) auto
      have "keeps ?e (state_of (er_send ?e m))" by (rule keeps_send) (rule keeps_ok [OF e])
      with e have "keeps er (state_of (er_send ?e m))" by (rule keeps_trans)
      with None False finish show ?thesis
        by (cases "er_send ?e m") (auto simp: eq split: prod.splits)
    next
      case (Some sub)
      have "keeps er (?finish (?add sub))"
        using Some ok a False by (intro finish keeps_subscribe) auto
      with Some False show ?thesis by (auto simp: eq split: prod.splits)
    qed
  qed
qed

lemma handleSubscribeDirect_keeps:
  assumes ok: "er_ok er"
  shows "keeps_res er (handleSubscribeDirect env m a sub req (er, io))"
  using ok
  by (auto simp: handleSubscribeDirect_def Let_def split: option.splits prod.splits
      intro!: keeps_send_bind keeps_then_agent agent_ok_direct(1) dest!: er_send_Return)

lemma handleSubscribe_keeps:
  "er_ok er \<Longrightarrow> a < nextAgent er \<Longrightarrow> keeps_res er (handleSubscribe env m a req (er, io))"
  using handleSubscribeSubject_keeps [of er a env m io] handleSubscribeDirect_keeps [of er env m a _ req io]
  by (auto simp: handleSubscribe_def split: option.splits SubjectOrDirectMessages.splits)

lemma keeps_unsubscribe:
  assumes "er_ok er" "mget (subscriptions er) s = Some sub"
  shows "keeps er (er\<lparr>subscriptions := mput s (DeleteSubscriber (agentHeap er) a sub) (subscriptions er)\<rparr>)"
  using assms by (intro keeps_maps er_ok_sub sub_ok_ops) (auto intro: er_ok_sub_get)

lemma handleUnsubscribeSubject_keeps:
  "er_ok er \<Longrightarrow> keeps_res er (handleUnsubscribeSubject env m a un (er, io))"
  by (auto simp: handleUnsubscribeSubject_def Let_def split: option.splits prod.splits
      intro!: keeps_then_agent keeps_unsubscribe)

lemma handleUnsubscribeDirect_keeps:
  "er_ok er \<Longrightarrow> keeps_res er (handleUnsubscribeDirect env m a un (er, io))"
  by (auto simp: handleUnsubscribeDirect_def Let_def split: option.splits prod.splits
      intro!: keeps_send_bind keeps_then_agent agent_ok_direct(2) dest!: er_send_Return)

lemma handleUnsubscribe_keeps:
  "er_ok er \<Longrightarrow> keeps_res er (handleUnsubscribe env m a (er, io))"
  using handleUnsubscribeSubject_keeps [of er env m a _ io] handleUnsubscribeDirect_keeps [of er env m a _ io]
  by (auto simp: handleUnsubscribe_def split: option.splits Unsubscribe_SubjectOrDirectMessages.splits)

lemma deliver_local_keeps: "er_ok er \<Longrightarrow> keeps er (deliver_local m (headerOf m) a er)"
proof -
  assume ok: "er_ok er"
  have "keeps er (er\<lparr>agentHeap := queue_all m as (agentHeap er)\<rparr>)"
    if "GetRecipients_list (GetRecipients (headerOf m)) \<noteq> [] \<or> GetSubject (headerOf m) \<noteq> ''''" for as
  proof -
    from that have "headerOf m \<noteq> None" by (cases "headerOf m") auto
    with ok show ?thesis by (rule keeps_queue)
  qed
  with ok show ?thesis
    by (auto simp: deliver_local_def Let_def queue_direct_eq queue_others_eq
        simp del: GetProtocolMessage.simps split: option.split)
qed

lemma handleSend_keeps:
  assumes "er_ok er"
  shows "keeps_res er (handleSend env chk req alg m a (er, io))"
proof (cases "GetSendMessage (GetProtocolMessage (Some m))")
  case (Some send)
  have step: "keeps er (deliver_local m (headerOf m) a e)" if "keeps er e" for e
    using that deliver_local_keeps [OF keeps_ok [OF that]] by (rule keeps_trans)
  then have step: "keeps er (deliver_local m (GetHeader (GetApplicationMessage (Some send))) a e)" if "keeps er e" for e
    using that by (simp add: Some del: GetProtocolMessage.simps)
  show ?thesis
    using assms
    by (auto simp: handleSend_def Let_def Some
        simp del: GetProtocolMessage.simps GetApplicationMessage.simps
        split: option.splits result.splits prod.splits intro!: keeps_send_bind step)
qed (use assms in \<open>simp add: handleSend_def del: GetProtocolMessage.simps\<close>)

lemma same_owner_Agent:
  assumes "same_owner (x :: Agent) y"
  shows "Mrn y = Mrn x" "agentUuid y = agentUuid x" "authenticated y = authenticated x"
    "directMessages y = directMessages x" "ReconnectToken y = ReconnectToken x"
  using assms more_Agent [of y x] by (simp_all add: same_owner_def)

lemma same_owner_ok: "same_owner (x :: Agent) y \<Longrightarrow> agent_ok x \<Longrightarrow> consumer_ok y \<Longrightarrow> agent_ok y"
  using same_owner_Agent [of x y] by (simp add: agent_ok_def)

lemma keeps_owner:
  "er_ok er \<Longrightarrow> same_owner (agentHeap er a) ag \<Longrightarrow> consumer_ok ag \<Longrightarrow> keeps er (upd_agent a (\<lambda>_. ag) er)"
  using same_owner_Agent [of "agentHeap er a" ag]
  by (intro keeps_agent) (auto intro: same_owner_ok)

lemma consumer_ok_agent [simp]: "er_ok er \<Longrightarrow> consumer_ok (agentHeap er a)"
  using er_ok_agent [of er a] by (simp add: agent_ok_def)

lemma on_agent_keeps:
  assumes "er_ok er" "same_owner (agentHeap er a) (fst (state_of (f (agentHeap er a, io))))"
    "consumer_ok (fst (state_of (f (agentHeap er a, io))))"
  shows "keeps_res er (on_agent a f (er, io))"
  using keeps_owner [OF assms]
  by (cases "f (agentHeap er a, io)") (auto simp: on_agent_def split: prod.splits)

lemma keeps_go_on:
  "keeps_res er r \<Longrightarrow> keeps_res er (bind_result r (\<lambda>s _. Return s b) (\<lambda>s. s))"
  by (cases r) auto

lemma handle_message_keeps:
  assumes "er_ok er" "a < nextAgent er"
  shows "keeps_res er (handle_message env chk req alg a m n (er, io))"
proof -
  have forget: "er_ok (er\<lparr>mrnToAgent := mdel x (mrnToAgent er), agents := mdel t (agents er)\<rparr>)" for x t
    using er_ok_forget(1) [OF er_ok_forget(2) [OF assms(1)]] by simp
  have receive: "keeps_res er (on_agent a (HandleReceive env m) (er, io))"
    using assms(1) by (intro on_agent_keeps HandleReceive_owner HandleReceive_state_ok) auto
  have fetch: "keeps_res er (on_agent a (HandleFetch env m) (er, io))"
    using assms(1) by (intro on_agent_keeps HandleFetch_owner HandleFetch_state_ok) auto
  note steps = handleSubscribe_keeps [OF assms] handleUnsubscribe_keeps [OF assms(1)]
    handleSend_keeps [OF assms(1)] receive fetch
  show ?thesis
    using assms(1)
    by (auto simp: handle_message_def Let_def intro!: keeps_go_on steps keeps_maps forget
        split: MsgType.split option.split ProtocolMessageType.split prod.split)
qed

lemma alloc_agent_keeps:
  assumes "er_ok er" "alloc_agent mrn u auth er = (a, er')" "auth \<longrightarrow> mrn \<noteq> ''''"
  shows "keeps er er' \<and> a < nextAgent er'"
  using alloc_agent_ok [OF assms] assms(2) by (auto simp: keeps_def alloc_agent_def Let_def)

lemma saved_or_new_keeps:
  assumes "er_ok er" "saved_or_new env t mrn auth (er, io) = (a, er', io')" "auth \<longrightarrow> mrn \<noteq> ''''"
  shows "keeps er er' \<and> a < nextAgent er'"
  using assms alloc_agent_keeps [OF assms(1) _ assms(3)]
  by (auto simp: saved_or_new_def Let_def er_ok_def maps_ok_def split: option.splits prod.splits
      dest: all_entries_get)

lemma new_token_keeps:
  assumes "er_ok er" "a < nextAgent er" "new_token env a (er, io) = (t, er', io')"
  shows "keeps er er' \<and> nextAgent er' = nextAgent er"
proof -
  let ?e = "upd_agent a (\<lambda>ag. ag\<lparr>ReconnectToken := t\<rparr>) er"
  have e: "keeps er ?e" using assms(1) by (intro keeps_agent) auto
  have next_e: "nextAgent ?e = nextAgent er" by (simp add: upd_agent_def)
  have "keeps ?e (?e\<lparr>agents := mput t a (agents ?e)\<rparr>)"
    using keeps_ok [OF e] assms(2) next_e by (intro keeps_maps er_ok_forget(3)) auto
  with e have "keeps er (?e\<lparr>agents := mput t a (agents ?e)\<rparr>)" by (rule keeps_trans)
  with assms(3) next_e show ?thesis by (auto simp: new_token_def Let_def split: prod.splits)
qed

lemma AuthenticateConsumer_mrn: "AuthenticateConsumer req mrn = (alg, auth, err) \<Longrightarrow> auth \<longrightarrow> mrn \<noteq> ''''"
  by (cases auth) (auto simp: AuthenticateConsumer_True)

lemma connect_agent_keeps:
  assumes ok: "er_ok er" and r: "connect_agent env req (er, io) = ((er', io'), r)"
  shows "keeps er er' \<and> (\<forall>a alg. r = Some (a, alg) \<longrightarrow> a < nextAgent er')"
proof -
  have both: "keeps er e'' \<and> a < nextAgent e''"
    if "saved_or_new env t mrn auth (er, i) = (a, e', i')" "new_token env a (e', i') = (t', e'', i'')"
      "auth \<longrightarrow> mrn \<noteq> ''''" for t mrn auth i a e' i' t' e'' i''
    using saved_or_new_keeps [OF ok that(1,3)] new_token_keeps [OF _ _ that(2)]
    by (auto dest: keeps_ok intro: keeps_trans)
  show ?thesis
    using r ok
    by (auto simp: connect_agent_def Let_def simp del: GetProtocolMessage.simps
        split: sum.splits option.splits prod.splits if_splits
        dest!: AuthenticateConsumer_mrn both)
qed


lemma gc_agents_same_ids: "same_ids h (gc_agents now es h)"
proof (induction now es h rule: gc_agents.induct)
  case (2 now t a es h)
  have "same_ids h (h(a := gc_consumer now (h a)))"
    using same_owner_Agent [OF gc_consumer_owner [of "h a" now]] by (simp only: same_ids_upd simp_thms)
  then show ?case using 2 by (simp only: gc_agents.simps) (rule same_ids_trans)
qed simp

lemma gc_agents_ok: "(\<And>a. agent_ok (h a)) \<Longrightarrow> agent_ok (gc_agents now es h b)"
proof (induction now es h rule: gc_agents.induct)
  case (2 now t a es h)
  have "agent_ok (gc_consumer now (h a))"
    using "2.prems" [of a] same_owner_ok [OF gc_consumer_owner]
    by (auto simp: agent_ok_def intro: gc_consumer_ok)
  then have "agent_ok ((h(a := gc_consumer now (h a))) c)" for c
    using "2.prems" by simp
  from "2.IH" [OF this] show ?case by (simp only: gc_agents.simps)
qed simp

lemma messageGC_keeps: "er_ok er \<Longrightarrow> keeps er (fst (messageGC env (er, io)))"
  by (auto simp: messageGC_def NowUnix_def intro!: keeps_heap gc_agents_same_ids gc_agents_ok)

lemma CheckNewMessages_keeps:
  assumes "er_ok er" "CheckNewMessages env ts (agentHeap er a, io) = (ag, io')"
  shows "keeps er (upd_agent a (\<lambda>_. ag) er)"
  using keeps_owner [OF assms(1) CheckNewMessages_owner [of "agentHeap er a" env ts io]
      CheckNewMessages_ok [of "agentHeap er a" env ts io]] assms by simp

lemma handleNotify_keeps: "er_ok er \<Longrightarrow> keeps_res er (handleNotify env md (er, io))"
  by (auto simp: handleNotify_def Let_def intro!: keeps_send_bind split: prod.splits)

lemma headerOf_sendRequest [simp]: "headerOf (sendRequest u x) = GetHeader x"
  by (simp add: sendRequest_def)

lemma deliver_content_keeps: "er_ok er \<Longrightarrow> keeps er (fst (deliver_content env x (er, io)))"
proof -
  assume ok: "er_ok er"
  have "GetSubjectOrRecipient (GetHeader x) = Some y \<Longrightarrow> headerOf (sendRequest u x) \<noteq> None" for y u
    by (cases "GetHeader x") (simp_all del: GetProtocolMessage.simps)
  note q = keeps_queue [OF ok this]
  show ?thesis
    using ok by (auto simp: deliver_content_def Let_def queue_direct_eq q
        split: option.splits ApplicationMessageHeader_SubjectOrRecipient.splits prod.splits)
qed

lemma deliver_contents_keeps: "er_ok er \<Longrightarrow> keeps er (fst (deliver_contents env now cs (er, io)))"
proof (induction cs arbitrary: er io)
  case (Cons c cs)
  obtain er' io' where d: "deliver_content env (GetMsg (Some c)) (er, io) = (er', io')" by fastforce
  with deliver_content_keeps [OF Cons.prems, of env "GetMsg (Some c)" io] have k: "keeps er er'" by simp
  from Cons.IH [OF keeps_ok [OF k], of io'] k Cons.IH [OF Cons.prems, of io] d show ?case
    by (auto intro: keeps_trans)
qed simp

lemma handle_response_keeps:
  assumes "er_ok er"
  shows "keeps_res er (handle_response env rm (er, io))"
proof -
  let ?e = "er\<lparr>awaitResponse := mdel (GetResponseToUuid rm) (awaitResponse er)\<rparr>"
  have e: "keeps er ?e" using assms by (intro keeps_maps er_ok_await(1)) auto
  have d: "keeps er (fst (deliver_contents env now cs (?e, i)))" for now cs i
    using e deliver_contents_keeps [OF keeps_ok [OF e], of env now cs i] by (rule keeps_trans)
  have s: "keeps er (state_of (er_send ?e m))" for m
    using e keeps_send [OF keeps_ok [OF e], of m] by (rule keeps_trans)
  have "keeps_res er (bind_result (er_send ?e m) (\<lambda>er _. Return (er, io) ()) (\<lambda>er. (er, io)))" for m
    using s [of m] by (cases "er_send ?e m") auto
  with e d show ?thesis
    by (auto simp: handle_response_def Let_def NowUnix_def split: option.split)
qed

lemma handleIncomingMessages_keeps:
  "er_ok er \<Longrightarrow> keeps_res er (handleIncomingMessages env canceled ping dials (er, io))"
  using handle_response_keeps [of er env] handleNotify_keeps [of er env]
  by (auto simp: handleIncomingMessages_def Let_def intro!: keeps_bind
      split: sum.split prod.split option.split MmtpMessage_Body.split)

lemma handleOutgoingMessages_keeps:
  assumes "er_ok er"
  shows "keeps_res er (handleOutgoingMessages env ping dials (er, io))"
proof (cases "cbuf (outgoingChannel er)")
  case Nil
  with assms show ?thesis by (simp add: handleOutgoingMessages_def)
next
  case (Cons m rest)
  let ?e = "er\<lparr>outgoingChannel := (outgoingChannel er)\<lparr>cbuf := rest\<rparr>\<rparr>"
  have e: "keeps er ?e" using assms by (intro keeps_maps) auto
  have s: "keeps er (state_of (er_send ?e m))"
    using e keeps_send [OF keeps_ok [OF e], of m] by (rule keeps_trans)
  have b: "keeps_res er (bind_result (er_send ?e m) (\<lambda>er _. Return (er, f er) ()) (\<lambda>er. (er, i)))" for f i
    using s by (cases "er_send ?e m") auto
  have w: "keeps er (?e\<lparr>awaitResponse := mput (Uuid m) m (awaitResponse ?e)\<rparr>)"
    using e er_ok_await(2) [OF keeps_ok [OF e], of m] by (intro keeps_maps) auto
  show ?thesis
    using e b w by (auto simp: handleOutgoingMessages_def Cons Let_def split: prod.split option.split)
qed

section \<open>Reachable states\<close>

text \<open>
  The goroutines of the edge router, interleaved step by step: a connection is set up, a
  message of a connected agent is handled, an agent is notified, a message from the router
  comes in or one to it goes out, and expired messages are collected. A step that panics or
  waits leaves the state it reached.
\<close>

inductive er_step :: "Env \<Rightarrow> SigChecker \<Rightarrow> EdgeRouter \<Rightarrow> EdgeRouter \<Rightarrow> bool" for env chk where
  connect: "connect_agent env req (er, io) = ((er', io'), r) \<Longrightarrow> er_step env chk er er'"
| message: "a < nextAgent er \<Longrightarrow>
    state_of (handle_message env chk req alg a m n (er, io)) = (er', io') \<Longrightarrow> er_step env chk er er'"
| check: "a < nextAgent er \<Longrightarrow> CheckNewMessages env ts (agentHeap er a, io) = (ag, io') \<Longrightarrow>
    er_step env chk er (upd_agent a (\<lambda>_. ag) er)"
| incoming: "state_of (handleIncomingMessages env canceled ping dials (er, io)) = (er', io') \<Longrightarrow>
    er_step env chk er er'"
| outgoing: "state_of (handleOutgoingMessages env ping dials (er, io)) = (er', io') \<Longrightarrow>
    er_step env chk er er'"
| gc: "messageGC env (er, io) = (er', io') \<Longrightarrow> er_step env chk er er'"

inductive er_reach :: "Env \<Rightarrow> SigChecker \<Rightarrow> EdgeRouter \<Rightarrow> bool" for env chk where
  init: "er_reach env chk (NewEdgeRouter mrn)"
| step: "er_reach env chk er \<Longrightarrow> er_step env chk er er' \<Longrightarrow> er_reach env chk er'"

lemma er_step_keeps: "er_step env chk er er' \<Longrightarrow> er_ok er \<Longrightarrow> keeps er er'"
proof (induction rule: er_step.induct)
  case (connect req er io er' io' r)
  then show ?case using connect_agent_keeps by blast
next
  case (message a er req alg m n io er' io')
  then show ?case using handle_message_keeps [of er a env chk req alg m n io] by simp
next
  case (check a er ts io ag io')
  then show ?case by (simp add: CheckNewMessages_keeps)
next
  case (incoming canceled ping dials er io er' io')
  then show ?case using handleIncomingMessages_keeps [of er env canceled ping dials io] by simp
next
  case (outgoing ping dials er io er' io')
  then show ?case using handleOutgoingMessages_keeps [of er env ping dials io] by simp
next
  case (gc er io er' io')
  then show ?case using messageGC_keeps [of er env io] by simp
qed

lemma er_reach_ok: "er_reach env chk er \<Longrightarrow> er_ok er"
  by (induction rule: er_reach.induct) (auto dest: er_step_keeps keeps_ok)


section \<open>A sample router\<close>

text \<open>
  Two authenticated agents, a and b, both subscribed to \<open>s\<close>; b takes direct messages.
\<close>

definition sample_agent :: "string \<Rightarrow> string \<Rightarrow> bool \<Rightarrow> Agent" where
  "sample_agent mrn u direct = Consumer.extend (new_consumer mrn) (Agent.fields u direct True)"

definition sample_er :: EdgeRouter where
  "sample_er = (NewEdgeRouter ''urn:mrn:er'')
     \<lparr>agentHeap := (\<lambda>a. if a = 0 then sample_agent ''urn:mrn:a'' ''ua'' False
                        else if a = 1 then sample_agent ''urn:mrn:b'' ''ub'' True else blank_agent),
      nextAgent := 2,
      agents := [(''ta'', 0), (''tb'', 1)],
      mrnToAgent := [(''urn:mrn:a'', 0), (''urn:mrn:b'', 1)],
      subscriptions := [(''s'', \<lparr>Interest = ''s'', Subscribers = [(''ua'', 0), (''ub'', 1)]\<rparr>)]\<rparr>"

lemma sample_agent_simps [simp]:
  "Mrn (sample_agent mrn u d) = mrn" "agentUuid (sample_agent mrn u d) = u"
  "directMessages (sample_agent mrn u d) = d" "authenticated (sample_agent mrn u d) = True"
  "Messages (sample_agent mrn u d) = []" "Interests (sample_agent mrn u d) = []"
  "Notifications (sample_agent mrn u d) = []" "ReconnectToken (sample_agent mrn u d) = ''''"
  by (simp_all add: sample_agent_def Consumer.defs Agent.defs new_consumer_def)

lemma sample_er_simps [simp]:
  "agentHeap sample_er 0 = sample_agent ''urn:mrn:a'' ''ua'' False"
  "agentHeap sample_er (Suc 0) = sample_agent ''urn:mrn:b'' ''ub'' True"
  "nextAgent sample_er = 2"
  "agents sample_er = [(''ta'', 0), (''tb'', 1)]"
  "mrnToAgent sample_er = [(''urn:mrn:a'', 0), (''urn:mrn:b'', 1)]"
  "subscriptions sample_er = [(''s'', \<lparr>Interest = ''s'', Subscribers = [(''ua'', 0), (''ub'', 1)]\<rparr>)]"
  "chan_ready (outgoingChannel sample_er)"
  "cbuf (outgoingChannel sample_er) = []" "\<not> cclosed (outgoingChannel sample_er)"
  "ownMrn sample_er = ''urn:mrn:er''" "awaitResponse sample_er = []"
  by (simp_all add: sample_er_def NewEdgeRouter_def chan_ready_def ChannelBufSize_def)

lemma sample_er_ok [simp]: "er_ok sample_er"
proof -
  have "agent_ok (agentHeap sample_er a)" for a
    by (simp add: sample_er_def agent_ok_def consumer_ok_def blank_agent_def new_consumer_def
        Consumer.defs Agent.defs sample_agent_def)
  then show ?thesis
    by (simp add: er_ok_def maps_ok_def all_entries_def sub_ok_def keys_ok_def)
qed


section \<open>Facts about sending\<close>

text \<open>
  What a Send has to satisfy on a session whose request is \<open>req\<close> and whose algorithm is \<open>alg\<close>.
\<close>

definition send_accepted :: "SigChecker \<Rightarrow> Request \<Rightarrow> SignatureAlgorithm \<Rightarrow> MmtpMessage \<Rightarrow> Agent \<Rightarrow> bool" where
  "send_accepted chk req alg m ag \<longleftrightarrow>
     authenticated ag \<and> Mrn ag = GetSender (headerOf m) \<and> alg \<noteq> UnknownSignatureAlgorithm \<and>
     (case PeerCertificates req of
        Some (cert # _) \<Rightarrow> chk cert alg (toBeVerified (appMsgOf m)) (GetSignature (appMsgOf m))
      | _ \<Rightarrow> False) \<and>
     length (GetSubject (headerOf m)) \<le> 100"

text \<open>Who gets an accepted message at this edge router.\<close>

definition local_receivers :: "EdgeRouter \<Rightarrow> nat \<Rightarrow> MmtpMessage \<Rightarrow> nat set" where
  "local_receivers er a m =
     (let recipients = GetRecipients_list (GetRecipients (headerOf m))
      in if recipients \<noteq> []
         then {b. directMessages (agentHeap er b) \<and> (\<exists>r \<in> set recipients. mget (mrnToAgent er) r = Some b)}
         else {b. Mrn (agentHeap er b) \<noteq> Mrn (agentHeap er a) \<and> GetSubject (headerOf m) \<noteq> '''' \<and>
                  (\<exists>sub. mget (subscriptions er) (GetSubject (headerOf m)) = Some sub
                     \<and> b \<in> snd ` set (Subscribers sub))})"

lemma set_direct_targets:
  "set (direct_targets M rs h) = {b. directMessages (h b) \<and> (\<exists>r \<in> set rs. mget M r = Some b)}"
  by (induction rs) (auto simp: direct_targets_def List.map_filter_simps split: option.splits)

definition delivered :: "MmtpMessage \<Rightarrow> nat set \<Rightarrow> (nat \<Rightarrow> Agent) \<Rightarrow> (nat \<Rightarrow> Agent) \<Rightarrow> bool" where
  "delivered m S h h' \<longleftrightarrow> (\<forall>b.
     (\<forall>k. mget (Messages (h' b)) k = (if b \<in> S \<and> Uuid m \<noteq> '''' \<and> k = Uuid m then Some m else mget (Messages (h b)) k)) \<and>
     (\<forall>k. mget (Notifications (h' b)) k =
        (if b \<in> S \<and> Uuid m \<noteq> '''' \<and> k = Uuid m then Some m else mget (Notifications (h b)) k)) \<and>
     Mrn (h' b) = Mrn (h b) \<and> agentUuid (h' b) = agentUuid (h b) \<and>
     Interests (h' b) = Interests (h b) \<and> ReconnectToken (h' b) = ReconnectToken (h b) \<and>
     directMessages (h' b) = directMessages (h b) \<and> authenticated (h' b) = authenticated (h b))"

lemma delivered_queue_all: "delivered m (set as) h (queue_all m as h)"
  by (simp add: delivered_def queue_all_Messages queue_all_Notifications queue_all_simps)

lemma VerifySignature_result:
  assumes "AuthenticateConsumer req mrn = (alg, auth, err)"
  shows "VerifySignatureOnMessage chk m alg req = Return () e \<Longrightarrow>
      e = None \<longleftrightarrow> alg \<noteq> UnknownSignatureAlgorithm \<and>
        (case PeerCertificates req of
           Some (cert # _) \<Rightarrow> chk cert alg (toBeVerified (appMsgOf m)) (GetSignature (appMsgOf m))
         | _ \<Rightarrow> False)"
    and "\<exists>e. VerifySignatureOnMessage chk m alg req = Return () e"
proof -
  have "alg = UnknownSignatureAlgorithm \<or> (\<exists>cert rest. PeerCertificates req = Some (cert # rest))"
    using AuthenticateConsumer_alg [OF assms] by blast
  then show "\<exists>e. VerifySignatureOnMessage chk m alg req = Return () e"
    and "VerifySignatureOnMessage chk m alg req = Return () e \<Longrightarrow>
      e = None \<longleftrightarrow> alg \<noteq> UnknownSignatureAlgorithm \<and>
        (case PeerCertificates req of
           Some (cert # _) \<Rightarrow> chk cert alg (toBeVerified (appMsgOf m)) (GetSignature (appMsgOf m))
         | _ \<Rightarrow> False)"
    by (auto simp: VerifySignatureOnMessage_def Let_def split: if_splits )
qed

lemma deliver_local_delivered:
  "\<exists>h. deliver_local m (headerOf m) a er = er\<lparr>agentHeap := h\<rparr>
     \<and> delivered m (local_receivers er a m) (agentHeap er) h"
proof -
  have none: "delivered m {} (agentHeap er) (agentHeap er)" by (simp add: delivered_def)
  define rs where "rs = GetRecipients_list (GetRecipients (headerOf m))"
  define s where "s = GetSubject (headerOf m)"
  consider (rs) "rs \<noteq> []" | (sub) x where "rs = []" "s \<noteq> ''''" "mget (subscriptions er) s = Some x"
    | (nobody) "rs = []" "s = '''' \<or> mget (subscriptions er) s = None" by fastforce
  then show ?thesis
  proof cases
    case rs
    then have "local_receivers er a m = set (direct_targets (mrnToAgent er) rs (agentHeap er))"
      by (simp add: local_receivers_def set_direct_targets Let_def rs_def)
    with rs delivered_queue_all show ?thesis
      by (auto simp: deliver_local_def queue_direct_eq Let_def rs_def [symmetric])
  next
    case sub
    let ?as = "filter (\<lambda>b. Mrn (agentHeap er b) \<noteq> Mrn (agentHeap er a)) (SnapshotSubscribers x)"
    from sub have "local_receivers er a m = set ?as"
      by (auto simp: local_receivers_def Let_def rs_def s_def SnapshotSubscribers_def)
    with sub delivered_queue_all [of m ?as] show ?thesis
      by (auto simp: deliver_local_def queue_others_eq Let_def rs_def [symmetric] s_def [symmetric])
  next
    case nobody
    then have "local_receivers er a m = {}" by (auto simp: local_receivers_def Let_def rs_def s_def)
    moreover from nobody have "deliver_local m (headerOf m) a er = er\<lparr>agentHeap := agentHeap er\<rparr>"
      by (auto simp: deliver_local_def Let_def rs_def [symmetric] s_def [symmetric])
    ultimately show ?thesis using none by (intro exI [of _ "agentHeap er"]) simp
  qed
qed

lemma handleSend_cases:
  assumes auth: "AuthenticateConsumer req mrn = (alg, au, err)"
    and send: "GetSendMessage (GetProtocolMessage (Some m)) = Some snd_m"
  shows "if send_accepted chk req alg m (agentHeap er a)
     then handleSend env chk req alg m a (er, io) =
       bind_result (er_send er m)
         (\<lambda>er _. Return (deliver_local m (headerOf m) a er, fst (respond env io (goodResponse (Uuid m)))) ())
         (\<lambda>er. (er, io))
     else \<exists>txt. handleSend env chk req alg m a (er, io) = Return (er, SendErrorMessage env (Uuid m) txt io) ()"
proof -
  obtain e where v: "VerifySignatureOnMessage chk m alg req = Return () e"
    using VerifySignature_result(2) [OF auth] by blast
  note ok = VerifySignature_result(1) [OF auth v]
  show ?thesis
    using ok
    by (cases e)
      (auto simp: handleSend_def send v send_accepted_def Let_def case_prod_beta
        split: option.splits)
qed


lemma chan_send_state: "chan_ready (outgoingChannel er) \<Longrightarrow>
   er_send er m = Return (er\<lparr>outgoingChannel := (outgoingChannel er)\<lparr>cbuf := cbuf (outgoingChannel er) @ [m]\<rparr>\<rparr>) ()"
  by (simp add: er_send_def)

section \<open>Properties\<close>

text \<open>
  C2: a Send that fails one of the checks (the agent is authenticated, the sender is its MRN,
  the certificate of the session signed the message, the subject has at most 100 bytes) has no
  effect but an error response: nothing is forwarded to the router or queued for any agent.
\<close>

theorem handleSend_refused:
  assumes "AuthenticateConsumer req mrn = (alg, au, err)"
    and "GetSendMessage (GetProtocolMessage (Some m)) = Some sm"
    and "\<not> (authenticated (agentHeap er a) \<and> Mrn (agentHeap er a) = GetSender (headerOf m)
      \<and> (\<exists>cert rest. PeerCertificates req = Some (cert # rest) \<and> alg \<noteq> UnknownSignatureAlgorithm
           \<and> chk cert alg (toBeVerified (appMsgOf m)) (GetSignature (appMsgOf m)))
      \<and> length (GetSubject (headerOf m)) \<le> 100)"
  shows "\<exists>txt io'. handleSend env chk req alg m a (er, io) = Return (er, io') ()
    \<and> io' = fst (respond env io (errorResponse (Uuid m) txt))"
proof -
  from assms(3) have "\<not> send_accepted chk req alg m (agentHeap er a)"
    by (auto simp: send_accepted_def split: option.splits list.splits)
  with handleSend_cases [OF assms(1,2), of chk er a env io] show ?thesis
    by (auto simp: SendErrorMessage_respond)
qed

theorem handleSend_refused_witness:
  "\<exists>txt io'. handleSend (sample_env (\<lambda>_. 10) (\<lambda>_. None)) (\<lambda>_ _ _ sig. sig = ''forged'')
       (sample_request (Some ''urn:mrn:a'')) ECDSAWithSHA256 (sample_msg ''m'' ''s'' 20) 0
       (sample_er, sample_io [] (\<lambda>_. False)) = Return (sample_er, io') ()
     \<and> io' = fst (respond (sample_env (\<lambda>_. 10) (\<lambda>_. None)) (sample_io [] (\<lambda>_. False))
                    (errorResponse (Uuid (sample_msg ''m'' ''s'' 20)) txt))"
proof -
  have auth: "AuthenticateConsumer (sample_request (Some ''urn:mrn:a'')) ''urn:mrn:a'' = (ECDSAWithSHA256, True, None)"
    by (rule sample_request_auth) simp_all
  obtain sm where send: "GetSendMessage (GetProtocolMessage (Some (sample_msg ''m'' ''s'' 20))) = Some sm"
    by (simp add: sample_msg_def)
  show ?thesis
    by (rule handleSend_refused [OF auth send]) (simp add: sample_app_def)
qed

lemma send_accepted_delivers:
  assumes "AuthenticateConsumer req mrn = (alg, au, err)"
    and "GetSendMessage (GetProtocolMessage (Some m)) = Some sm"
    and "send_accepted chk req alg m (agentHeap er a)" and "chan_ready (outgoingChannel er)"
  shows "\<exists>h. handleSend env chk req alg m a (er, io) =
       Return (er\<lparr>outgoingChannel := (outgoingChannel er)\<lparr>cbuf := cbuf (outgoingChannel er) @ [m]\<rparr>,
                  agentHeap := h\<rparr>, fst (respond env io (goodResponse (Uuid m)))) ()
    \<and> delivered m (local_receivers er a m) (agentHeap er) h"
proof -
  let ?e = "er\<lparr>outgoingChannel := (outgoingChannel er)\<lparr>cbuf := cbuf (outgoingChannel er) @ [m]\<rparr>\<rparr>"
  obtain h where h: "deliver_local m (headerOf m) a ?e = ?e\<lparr>agentHeap := h\<rparr>"
    "delivered m (local_receivers ?e a m) (agentHeap ?e) h"
    using deliver_local_delivered [of m a ?e] by blast
  have "local_receivers ?e a m = local_receivers er a m" by (simp add: local_receivers_def Let_def)
  with h handleSend_cases [OF assms(1,2), of chk er a env io] assms(3) chan_send_state [OF assms(4)] show ?thesis
    by auto
qed

text \<open>
  C1: an accepted Send is forwarded to the router exactly once, at the end of the outgoing
  queue, and is stored under its UUID for exactly the named agents that take direct messages,
  or, when it names no recipients, the subscribers of its subject whose MRN is not the
  sender's; no other message, agent or map changes, and the answer is GOOD.
\<close>

theorem handleSend_delivers:
  assumes "AuthenticateConsumer req mrn = (alg, au, err)"
    and "GetSendMessage (GetProtocolMessage (Some m)) = Some sm"
    and "send_accepted chk req alg m (agentHeap er a)" and "chan_ready (outgoingChannel er)"
  shows "\<exists>h io'. handleSend env chk req alg m a (er, io) =
       Return (er\<lparr>outgoingChannel := (outgoingChannel er)\<lparr>cbuf := cbuf (outgoingChannel er) @ [m]\<rparr>,
                  agentHeap := h\<rparr>, io') ()
    \<and> delivered m (local_receivers er a m) (agentHeap er) h
    \<and> io' = fst (respond env io (goodResponse (Uuid m)))"
  using send_accepted_delivers [OF assms, of env io] by blast

theorem handleSend_delivers_witness:
  "\<exists>h io'. handleSend (sample_env (\<lambda>_. 10) (\<lambda>_. None)) (\<lambda>_ _ _ sig. sig = ''sig'')
       (sample_request (Some ''urn:mrn:a'')) ECDSAWithSHA256 (sample_msg ''m'' ''s'' 20) 0
       (sample_er, sample_io [] (\<lambda>_. False))
     = Return (sample_er\<lparr>outgoingChannel := (outgoingChannel sample_er)\<lparr>cbuf := [sample_msg ''m'' ''s'' 20]\<rparr>,
         agentHeap := h\<rparr>, io') ()
     \<and> mget (Messages (h 1)) ''m'' = Some (sample_msg ''m'' ''s'' 20) \<and> mget (Messages (h 0)) ''m'' = None"
proof -
  let ?m = "sample_msg ''m'' ''s'' 20" and ?req = "sample_request (Some ''urn:mrn:a'')"
  have auth: "AuthenticateConsumer ?req ''urn:mrn:a'' = (ECDSAWithSHA256, True, None)"
    by (rule sample_request_auth) simp_all
  obtain sm where send: "GetSendMessage (GetProtocolMessage (Some ?m)) = Some sm"
    by (simp add: sample_msg_def)
  have acc: "send_accepted (\<lambda>_ _ _ sig. sig = ''sig'') ?req ECDSAWithSHA256 ?m (agentHeap sample_er 0)"
    by (simp add: send_accepted_def sample_request_def sample_app_def)
  have r: "local_receivers sample_er 0 ?m = {1}"
    by (auto simp: local_receivers_def Let_def sample_app_def)
  obtain h io' where run: "handleSend (sample_env (\<lambda>_. 10) (\<lambda>_. None)) (\<lambda>_ _ _ sig. sig = ''sig'')
       ?req ECDSAWithSHA256 ?m 0 (sample_er, sample_io [] (\<lambda>_. False))
     = Return (sample_er\<lparr>outgoingChannel := (outgoingChannel sample_er)\<lparr>cbuf := [?m]\<rparr>, agentHeap := h\<rparr>, io') ()"
    and h: "delivered ?m {1} (agentHeap sample_er) h"
    using handleSend_delivers [OF auth send acc, of "sample_env (\<lambda>_. 10) (\<lambda>_. None)" "sample_io [] (\<lambda>_. False)"] r
    by auto
  have "mget (Messages (h 1)) ''m'' = Some ?m" "mget (Messages (h 0)) ''m'' = None"
    using h by (simp_all add: delivered_def)
  with run show ?thesis by (intro exI conjI)
qed


text \<open>The abstract view of the subscriptions: for each subject, the agents under their UUIDs.\<close>

definition er_registry :: "EdgeRouter \<Rightarrow> string \<Rightarrow> string \<rightharpoonup> nat" where
  "er_registry er = registry (\<lambda>sub. mget (Subscribers sub)) (subscriptions er)"

lemma er_registry_new:
  "mget (subscriptions er) s = None \<Longrightarrow>
   registry (\<lambda>sub. mget (Subscribers sub))
       (mput s (AddSubscriber (agentHeap er) a (NewSubscription s)) (subscriptions er))
     = (er_registry er)(s := (er_registry er s)(agentUuid (agentHeap er a) \<mapsto> a))"
  unfolding er_registry_def by (rule es.registry_new)

lemma er_registry_join:
  "mget (subscriptions er) s = Some sub \<Longrightarrow>
   registry (\<lambda>sub. mget (Subscribers sub)) (mput s (AddSubscriber (agentHeap er) a sub) (subscriptions er))
     = (er_registry er)(s := (er_registry er s)(agentUuid (agentHeap er a) \<mapsto> a))"
  unfolding er_registry_def by (rule es.registry_join)

lemma er_registry_leave:
  "registry (\<lambda>sub. mget (Subscribers sub))
       (case mget (subscriptions er) s of
          Some sub \<Rightarrow> mput s (DeleteSubscriber (agentHeap er) a sub) (subscriptions er)
        | None \<Rightarrow> subscriptions er)
     = (er_registry er)(s := (er_registry er s)(agentUuid (agentHeap er a) := None))"
proof (cases "mget (subscriptions er) s")
  case None
  then show ?thesis
    unfolding er_registry_def by (simp add: es.registry_absent)
next
  case (Some sub)
  then show ?thesis
    unfolding er_registry_def by (simp add: es.registry_leave [where h = "agentHeap er"])
qed

text \<open>
  C24: subscribing to a subject adds exactly this agent to exactly this subject; the request is
  forwarded to the router when and only when the edge router had no subscription under the
  subject before; the answer is GOOD, and an error means that it could not be written.
\<close>

theorem subscribe_refines_registry:
  assumes "Subscribe_GetSubject (GetSubscribeMessage (GetProtocolMessage (Some m))) = s" and "s \<noteq> ''''"
    and "chan_ready (outgoingChannel er)"
  shows "\<exists>er' io' e. handleSubscribeSubject env m a (er, io) = Return (er', io') e
    \<and> er_registry er' = (er_registry er)(s := (er_registry er s)(agentUuid (agentHeap er a) \<mapsto> a))
    \<and> cbuf (outgoingChannel er') = cbuf (outgoingChannel er)
         @ (if mget (subscriptions er) s = None then [m] else [])
    \<and> Interests (agentHeap er' a) = Interests (agentHeap er a) @ [s]
    \<and> mrnToAgent er' = mrnToAgent er \<and> agents er' = agents er
    \<and> (e = None \<longleftrightarrow> wrote env io io' (mkResponse (newUuid env (uuidn io)) (goodResponse (Uuid m))))"
proof -
  obtain io' err where r: "respond env io (goodResponse (Uuid m)) = (io', err)" by fastforce
  have w: "err = None \<longleftrightarrow> wrote env io io' (mkResponse (newUuid env (uuidn io)) (goodResponse (Uuid m)))"
    using respond_ok respond_err r by (cases err) (auto simp: wrote_def)
  show ?thesis
  proof (cases "mget (subscriptions er) s")
    case None
    let ?e = "er\<lparr>subscriptions := mput s (AddSubscriber (agentHeap er) a (NewSubscription s)) (subscriptions er)\<rparr>"
    have "er_send ?e m = Return (?e\<lparr>outgoingChannel := (outgoingChannel er)\<lparr>cbuf := cbuf (outgoingChannel er) @ [m]\<rparr>\<rparr>) ()"
      using chan_send_state [of ?e m] assms(3) by simp
    with None assms(1,2) r w er_registry_new [OF None] show ?thesis
      by (simp add: handleSubscribeSubject_def upd_agent_def er_registry_def Let_def)
  next
    case (Some sub)
    with assms(1,2) r w er_registry_join [OF Some] show ?thesis
      by (simp add: handleSubscribeSubject_def upd_agent_def er_registry_def Let_def)
  qed
qed

lemma sample_er_registry: "er_registry sample_er ''s'' = [''ua'' \<mapsto> 0, ''ub'' \<mapsto> 1]"
  by (auto simp: er_registry_def registry_def fun_eq_iff)

theorem subscribe_refines_registry_witness:
  "\<exists>er' io' e. handleSubscribeSubject (sample_env (\<lambda>_. 10) (\<lambda>_. None)) (sample_subscribe (Subscribe_Subject ''t'')) 1
       (sample_er, sample_io [] (\<lambda>_. False)) = Return (er', io') e
     \<and> er_registry er' ''t'' ''ub'' = Some 1 \<and> er_registry er' ''s'' ''ub'' = Some 1
     \<and> cbuf (outgoingChannel er') = [sample_subscribe (Subscribe_Subject ''t'')]"
proof -
  let ?m = "sample_subscribe (Subscribe_Subject ''t'')" and ?env = "sample_env (\<lambda>_. 10) (\<lambda>_. None)"
  have s: "Subscribe_GetSubject (GetSubscribeMessage (GetProtocolMessage (Some ?m))) = ''t''"
    by (simp add: sample_subscribe_def)
  obtain er' io' e where run: "handleSubscribeSubject ?env ?m 1 (sample_er, sample_io [] (\<lambda>_. False)) = Return (er', io') e"
    and reg: "er_registry er' = (er_registry sample_er)(''t'' := (er_registry sample_er ''t'')(''ub'' \<mapsto> 1))"
    and out: "cbuf (outgoingChannel er') = [?m]"
    using subscribe_refines_registry [OF s, of sample_er ?env 1 "sample_io [] (\<lambda>_. False)"] by auto
  have "er_registry er' ''t'' ''ub'' = Some 1" "er_registry er' ''s'' ''ub'' = Some 1"
    by (simp_all add: reg sample_er_registry)
  with run out show ?thesis by (intro exI conjI)
qed

text \<open>
  Unsubscribing from a subject removes exactly this agent from exactly this subject, tells
  the router nothing, and from then on a Send on the subject is not delivered to the agent.
\<close>

lemma unsubscribe_refines_registry:
  assumes "er_ok er" and "Unsubscribe_GetSubject (Some un) = s" and "s \<noteq> ''''"
  shows "\<exists>er' io' e. handleUnsubscribeSubject env m a un (er, io) = Return (er', io') e
    \<and> er_registry er' = (er_registry er)(s := (er_registry er s)(agentUuid (agentHeap er a) := None))
    \<and> outgoingChannel er' = outgoingChannel er
    \<and> Interests (agentHeap er' a) = swap_remove s (Interests (agentHeap er a))
    \<and> (\<forall>c msg. GetRecipients_list (GetRecipients (headerOf msg)) = [] \<and> GetSubject (headerOf msg) = s
          \<longrightarrow> a \<notin> local_receivers er' c msg)"
proof -
  obtain io' err where r: "respond env io (goodResponse (Uuid m)) = (io', err)" by fastforce
  let ?subs = "case mget (subscriptions er) s of
      Some sub \<Rightarrow> mput s (DeleteSubscriber (agentHeap er) a sub) (subscriptions er)
    | None \<Rightarrow> subscriptions er"
  let ?e = "upd_agent a (\<lambda>ag. ag\<lparr>Interests := swap_remove s (Interests ag)\<rparr>) (er\<lparr>subscriptions := ?subs\<rparr>)"
  have run: "\<exists>e. handleUnsubscribeSubject env m a un (er, io) = Return (?e, io') e"
    using assms(2,3) r by (auto simp: handleUnsubscribeSubject_def Let_def split: option.splits)
  have reg: "er_registry ?e = (er_registry er)(s := (er_registry er s)(agentUuid (agentHeap er a) := None))"
    using er_registry_leave [of er s a] by (simp add: er_registry_def upd_agent_def)
  have ok: "er_ok ?e"
    using handleUnsubscribeSubject_keeps [OF assms(1), of env m a un io] run by (auto dest: keeps_ok)
  have "a \<notin> local_receivers ?e c msg"
    if "GetRecipients_list (GetRecipients (headerOf msg)) = []" "GetSubject (headerOf msg) = s" for c msg
  proof
    assume "a \<in> local_receivers ?e c msg"
    with that obtain sub u where sub: "mget (subscriptions ?e) s = Some sub" "(u, a) \<in> set (Subscribers sub)"
      by (auto simp: local_receivers_def Let_def)
    from er_ok_sub_get [OF ok sub(1)] sub(2) have "agentUuid (agentHeap ?e a) = u" "mget (Subscribers sub) u = Some a"
      by (auto simp: sub_ok_def all_entries_def mget_in_iff [symmetric])
    then have "er_registry ?e s (agentUuid (agentHeap er a)) = Some a"
      using sub(1) by (simp add: er_registry_def registry_def upd_agent_def)
    with reg show False by simp
  qed
  with run reg show ?thesis by (auto simp: upd_agent_def)
qed

text \<open>The parts of a handshake that succeeds.\<close>

lemma connect_agent_run:
  assumes "connect_agent env req (er, io) = ((er', io'), Some (a, alg))"
  shows "\<exists>c m n conn auth er1 io1 token io2. ReadMessage env (ws io) = (c, Inr (m, n))
    \<and> GetConnectMessage (GetProtocolMessage (Some m)) = Some conn
    \<and> AuthenticateConsumer req (ToLower (GetOwnMrn (Some conn))) = (alg, auth, None)
    \<and> saved_or_new env (GetReconnectToken (Some conn)) (ToLower (GetOwnMrn (Some conn))) auth (er, io\<lparr>ws := c\<rparr>) = (a, er1, io1)
    \<and> new_token env a (er1, io1) = (token, er', io2)
    \<and> respond env io2 ((goodResponse (Uuid m))\<lparr>RM_ReconnectToken := Some token\<rparr>) = (io', None)"
  using assms
  by (auto simp: connect_agent_def Let_def simp del: GetOwnMrn.simps GetReconnectToken.simps
      split: sum.splits if_splits option.splits prod.splits)

text \<open>
  C30: a session that gets through the handshake either is a new agent, with the lower-cased MRN
  of the Connect message, authenticated exactly if AuthenticateConsumer said so, without
  messages, and routed under its MRN; or, when the Connect carries a known reconnect token, it
  is the agent saved under that token, with the MRN, the authentication and the messages it
  had. In both cases the new token is the next UUID drawn (after that of the agent, if it is new),
  so that it differs from every UUID drawn before; exactly this entry is added to the
  registered tokens, it replaces the token stored in the agent and it is sent with the GOOD answer.
\<close>

theorem connect_identity:
  assumes "connect_agent env req (er, io) = ((er', io'), Some (a, alg))"
  shows "\<exists>c m n conn auth k token u.
      ReadMessage env (ws io) = (c, Inr (m, n))
    \<and> GetConnectMessage (GetProtocolMessage (Some m)) = Some conn
    \<and> AuthenticateConsumer req (ToLower (GetOwnMrn (Some conn))) = (alg, auth, None)
    \<and> k = uuidn io + (if mget (agents er) (GetReconnectToken (Some conn)) = None then 1 else 0)
    \<and> token = newUuid env k \<and> (inj (newUuid env) \<longrightarrow> token \<notin> newUuid env ` {..<uuidn io})
    \<and> agents er' = mput token a (agents er) \<and> ReconnectToken (agentHeap er' a) = token
    \<and> wrote env io io' (mkResponse u ((goodResponse (Uuid m))\<lparr>RM_ReconnectToken := Some token\<rparr>))
    \<and> (case mget (agents er) (GetReconnectToken (Some conn)) of
         Some b \<Rightarrow> a = b \<and> agentHeap er' a = (agentHeap er b)\<lparr>ReconnectToken := token\<rparr>
                 \<and> mrnToAgent er' = mrnToAgent er
       | None \<Rightarrow> a = nextAgent er \<and> Mrn (agentHeap er' a) = ToLower (GetOwnMrn (Some conn))
                 \<and> agentUuid (agentHeap er' a) = newUuid env (uuidn io)
                 \<and> authenticated (agentHeap er' a) = auth \<and> \<not> directMessages (agentHeap er' a)
                 \<and> Messages (agentHeap er' a) = [] \<and> Interests (agentHeap er' a) = []
                 \<and> (GetOwnMrn (Some conn) \<noteq> ''''
                      \<longrightarrow> mget (mrnToAgent er') (ToLower (GetOwnMrn (Some conn))) = Some a))"
proof -
  let ?mrn = "\<lambda>conn. ToLower (GetOwnMrn (Some conn))"
  from connect_agent_run [OF assms] obtain c m n conn auth er1 io1 token io2 where
    rd: "ReadMessage env (ws io) = (c, Inr (m, n))" and conn: "GetConnectMessage (GetProtocolMessage (Some m)) = Some conn"
    and auth: "AuthenticateConsumer req (?mrn conn) = (alg, auth, None)"
    and s: "saved_or_new env (GetReconnectToken (Some conn)) (?mrn conn) auth (er, io\<lparr>ws := c\<rparr>) = (a, er1, io1)"
    and t: "new_token env a (er1, io1) = (token, er', io2)"
    and w: "respond env io2 ((goodResponse (Uuid m))\<lparr>RM_ReconnectToken := Some token\<rparr>) = (io', None)" by blast
  have io2: "framesOf io2 = framesOf io"
    using s t rd by (auto simp: saved_or_new_def new_token_def NewString_def framesOf_def ReadMessage_def Let_def
        split: option.splits prod.splits list.splits)
  let ?k = "uuidn io + (if mget (agents er) (GetReconnectToken (Some conn)) = None then 1 else 0)"
  have er1: "agents er1 = agents er" "uuidn io1 = ?k"
    using s by (auto simp: saved_or_new_def alloc_agent_def NewString_def Let_def split: option.splits prod.splits)
  have tok: "token = newUuid env ?k" "agents er' = mput token a (agents er)" "ReconnectToken (agentHeap er' a) = token"
    "agentHeap er' a = (agentHeap er1 a)\<lparr>ReconnectToken := token\<rparr>" "mrnToAgent er' = mrnToAgent er1"
    using t er1 by (auto simp: new_token_def upd_agent_def NewString_def Let_def split: prod.splits)
  have fresh: "inj (newUuid env) \<longrightarrow> token \<notin> newUuid env ` {..<uuidn io}"
    by (auto simp: tok(1) inj_eq split: if_splits)
  have wr: "wrote env io io' (mkResponse (newUuid env (uuidn io2)) ((goodResponse (Uuid m))\<lparr>RM_ReconnectToken := Some token\<rparr>))"
    using respond_ok [OF w] io2 by (simp add: wrote_def)
  have new: "case mget (agents er) (GetReconnectToken (Some conn)) of
         Some b \<Rightarrow> a = b \<and> agentHeap er' a = (agentHeap er b)\<lparr>ReconnectToken := token\<rparr>
                 \<and> mrnToAgent er' = mrnToAgent er
       | None \<Rightarrow> a = nextAgent er \<and> Mrn (agentHeap er' a) = ?mrn conn
                 \<and> agentUuid (agentHeap er' a) = newUuid env (uuidn io)
                 \<and> authenticated (agentHeap er' a) = auth \<and> \<not> directMessages (agentHeap er' a)
                 \<and> Messages (agentHeap er' a) = [] \<and> Interests (agentHeap er' a) = []
                 \<and> (GetOwnMrn (Some conn) \<noteq> '''' \<longrightarrow> mget (mrnToAgent er') (?mrn conn) = Some a)"
    using s tok(4,5)
    by (auto simp: saved_or_new_def alloc_agent_def NewString_def Let_def Consumer.defs Agent.defs new_consumer_def
        split: option.splits prod.splits)
  show ?thesis using rd conn auth refl [of ?k] tok(1-3) fresh wr new by (intro exI conjI)
qed


lemmas connect_defs = connect_agent_def saved_or_new_def new_token_def NewString_def ReadMessage_def
  respond_def write_io_def WriteMessage_def sample_defs

lemma sample_connect_new:
  "\<exists>er' io'. connect_agent (con_env (Some ''urn:MRN:c'') None) (sample_request (Some ''urn:mrn:c''))
     (sample_er, sample_io [''x''] (\<lambda>_. False)) = ((er', io'), Some (2, ECDSAWithSHA256))"
  by (simp add: connect_defs alloc_agent_def Let_def)

lemma sample_connect_again:
  "\<exists>er' io'. connect_agent (con_env (Some ''urn:mrn:b'') (Some ''ta'')) (sample_request (Some ''urn:mrn:b''))
     (sample_er, sample_io [''x''] (\<lambda>_. False)) = ((er', io'), Some (0, ECDSAWithSHA256))
   \<and> outgoingChannel er' = outgoingChannel sample_er \<and> local_receivers er' 0 (sample_msg ''m'' ''s'' 20) = {1}"
  by (auto simp: connect_defs upd_agent_def local_receivers_def sample_app_def Let_def)

theorem connect_identity_witness:
  "\<exists>er' io'. connect_agent (con_env (Some ''urn:MRN:c'') None) (sample_request (Some ''urn:mrn:c''))
       (sample_er, sample_io [''x''] (\<lambda>_. False)) = ((er', io'), Some (2, ECDSAWithSHA256))
     \<and> Mrn (agentHeap er' 2) = ''urn:mrn:c'' \<and> mget (mrnToAgent er') ''urn:mrn:c'' = Some 2
     \<and> agents er' = mput (newUuid (con_env (Some ''urn:MRN:c'') None) 1) 2 (agents sample_er)"
proof -
  from sample_connect_new obtain er' io' where
    run: "connect_agent (con_env (Some ''urn:MRN:c'') None) (sample_request (Some ''urn:mrn:c''))
       (sample_er, sample_io [''x''] (\<lambda>_. False)) = ((er', io'), Some (2, ECDSAWithSHA256))" by blast
  from connect_identity [OF run] have "Mrn (agentHeap er' 2) = ''urn:mrn:c'' \<and> mget (mrnToAgent er') ''urn:mrn:c'' = Some 2
      \<and> agents er' = mput (newUuid (con_env (Some ''urn:MRN:c'') None) 1) 2 (agents sample_er)"
    by (auto simp: ReadMessage_def sample_defs)
  with run show ?thesis by blast
qed


text \<open>
  A first message that is no Connect, or a Connect whose authentication fails, leaves the
  router as it was; the close code is 1003, or 1008 for a certificate with an unusable key. A
  missing certificate (CertValErr) sends no close of its own.
\<close>

lemma connect_refused:
  assumes "ReadMessage env (ws io) = (Some w, Inr (m, n))"
  shows "(MsgType m \<noteq> MsgType_PROTOCOL_MESSAGE \<or> GetConnectMessage (GetProtocolMessage (Some m)) = None \<longrightarrow>
      (\<exists>io' txt. connect_agent env req (er, io) = ((er, io'), None) \<and> closesOf io' = closes w @ [(1003, txt)]))
    \<and> (MsgType m = MsgType_PROTOCOL_MESSAGE \<and> GetConnectMessage (GetProtocolMessage (Some m)) = Some conn \<and>
      AuthenticateConsumer req (ToLower (GetOwnMrn (Some conn))) = (alg, auth, Some err) \<longrightarrow>
      (\<exists>io'. connect_agent env req (er, io) = ((er, io'), None)
        \<and> closesOf io' = closes w @ (case err of CertValErr _ \<Rightarrow> [] | SigAlgErr txt \<Rightarrow> [(1008, txt)]
                                         | MrnMismatchErr txt \<Rightarrow> [(1003, txt)] | _ \<Rightarrow> [])))"
proof (intro conjI impI; (elim conjE)?)
  have w: "closesOf (io\<lparr>ws := Some w\<rparr>) = closes w" "ws (io\<lparr>ws := Some w\<rparr>) \<noteq> None"
    by (simp_all add: closesOf_def)
  note cl = close_log_closes [OF w(2), unfolded w(1)]
  show "MsgType m \<noteq> MsgType_PROTOCOL_MESSAGE \<or> GetConnectMessage (GetProtocolMessage (Some m)) = None \<Longrightarrow>
      \<exists>io' txt. connect_agent env req (er, io) = ((er, io'), None) \<and> closesOf io' = closes w @ [(1003, txt)]"
    using assms by (auto simp: connect_agent_def cl StatusUnsupportedData_def Let_def)
  assume c: "MsgType m = MsgType_PROTOCOL_MESSAGE" "GetConnectMessage (GetProtocolMessage (Some m)) = Some conn"
    and a: "AuthenticateConsumer req (ToLower (GetOwnMrn (Some conn))) = (alg, auth, Some err)"
  from c(2) obtain p where p: "GetProtocolMessage (Some m) = Some p"
    by (cases "GetProtocolMessage (Some m)") auto
  have "connect_agent env req (er, io) = ((er, reject_auth err (io\<lparr>ws := Some w\<rparr>)), None)"
    using assms c a p by (simp add: connect_agent_def Let_def)
  then show "\<exists>io'. connect_agent env req (er, io) = ((er, io'), None)
        \<and> closesOf io' = closes w @ (case err of CertValErr _ \<Rightarrow> [] | SigAlgErr txt \<Rightarrow> [(1008, txt)]
                                         | MrnMismatchErr txt \<Rightarrow> [(1003, txt)] | _ \<Rightarrow> [])"
    by (auto simp: reject_auth_def cl w(1) StatusUnsupportedData_def StatusPolicyViolation_def split: error.splits)
qed

text \<open>
  C34: a Connect with another agent's reconnect token is authenticated for the MRN it names
  itself, yet the session becomes the saved agent. With a certificate for any other MRN,
  handleSend then takes a Send in the name of the saved agent if it is signed with that
  certificate (and its subject is not too long): it is forwarded to the router, queued for the
  receivers and answered GOOD. A Send that is not signed with it only gets an error response.
\<close>

theorem token_holder_sends_as_saved_agent:
  assumes "ReadMessage env (ws io) = (c, Inr (m, n))" and "MsgType m = MsgType_PROTOCOL_MESSAGE"
    and "GetConnectMessage (GetProtocolMessage (Some m)) = Some conn"
    and "AuthenticateConsumer req (ToLower (GetOwnMrn (Some conn))) = (alg, True, None)"
    and "mget (agents er) (GetReconnectToken (Some conn)) = Some b" and "authenticated (agentHeap er b)"
    and "connect_agent env req (er, io) = ((er', io'), Some (a, alg'))"
    and "GetSendMessage (GetProtocolMessage (Some sm)) = Some snd_m"
    and "GetSender (headerOf sm) = Mrn (agentHeap er b)" and "length (GetSubject (headerOf sm)) \<le> 100"
    and "chan_ready (outgoingChannel er')"
  shows "a = b \<and>
    (if \<exists>cert rest. PeerCertificates req = Some (cert # rest)
          \<and> chk cert alg' (toBeVerified (appMsgOf sm)) (GetSignature (appMsgOf sm))
     then \<exists>h. handleSend env chk req alg' sm a (er', io2) =
            Return (er'\<lparr>outgoingChannel := (outgoingChannel er')\<lparr>cbuf := cbuf (outgoingChannel er') @ [sm]\<rparr>,
                       agentHeap := h\<rparr>, fst (respond env io2 (goodResponse (Uuid sm)))) ()
          \<and> delivered sm (local_receivers er' b sm) (agentHeap er') h
     else \<exists>txt. handleSend env chk req alg' sm a (er', io2) = Return (er', SendErrorMessage env (Uuid sm) txt io2) ())"
proof -
  from connect_agent_run [OF assms(7)] assms(1,3,4,5)
  have a: "a = b" and h: "\<exists>t. agentHeap er' a = (agentHeap er b)\<lparr>ReconnectToken := t\<rparr>" and alg: "alg' = alg"
    by (auto simp: saved_or_new_def new_token_def upd_agent_def NewString_def Let_def)
  from assms(4) have "alg \<noteq> UnknownSignatureAlgorithm" by (auto simp: AuthenticateConsumer_True key_alg_def)
  with h alg assms(6,9,10) have acc: "send_accepted chk req alg' sm (agentHeap er' a) \<longleftrightarrow>
      (\<exists>cert rest. PeerCertificates req = Some (cert # rest)
        \<and> chk cert alg' (toBeVerified (appMsgOf sm)) (GetSignature (appMsgOf sm)))"
    by (auto simp: send_accepted_def split: option.splits list.splits)
  have auth: "AuthenticateConsumer req (ToLower (GetOwnMrn (Some conn))) = (alg', True, None)" using assms(4) alg by simp
  note cases = handleSend_cases [OF auth assms(8), of chk er' b env io2]
  show ?thesis
  proof (cases "send_accepted chk req alg' sm (agentHeap er' b)")
    case True
    with acc a send_accepted_delivers [OF auth assms(8) True assms(11), of env io2] show ?thesis by auto
  next
    case False
    with acc a cases show ?thesis by auto
  qed
qed

theorem token_holder_sends_as_saved_agent_witness:
  "\<exists>er' io'. connect_agent (con_env (Some ''urn:mrn:b'') (Some ''ta'')) (sample_request (Some ''urn:mrn:b''))
       (sample_er, sample_io [''x''] (\<lambda>_. False)) = ((er', io'), Some (0, ECDSAWithSHA256))
     \<and> GetSender (headerOf (sample_msg ''m'' ''s'' 20)) = ''urn:mrn:a''
     \<and> (\<exists>h. handleSend (con_env (Some ''urn:mrn:b'') (Some ''ta'')) (\<lambda>cert _ _ _. cert = sample_cert (Some ''urn:mrn:b''))
          (sample_request (Some ''urn:mrn:b'')) ECDSAWithSHA256 (sample_msg ''m'' ''s'' 20) 0 (er', io') =
          Return (er'\<lparr>outgoingChannel := (outgoingChannel er')\<lparr>cbuf := [sample_msg ''m'' ''s'' 20]\<rparr>, agentHeap := h\<rparr>,
            fst (respond (con_env (Some ''urn:mrn:b'') (Some ''ta'')) io' (goodResponse ''m''))) ()
        \<and> mget (Messages (h 1)) ''m'' = Some (sample_msg ''m'' ''s'' 20))"
proof -
  let ?env = "con_env (Some ''urn:mrn:b'') (Some ''ta'')" and ?req = "sample_request (Some ''urn:mrn:b'')"
    and ?m = "sample_connect (Some ''urn:mrn:b'') (Some ''ta'')" and ?s = "sample_msg ''m'' ''s'' 20"
    and ?chk = "\<lambda>cert _ _ _. cert = sample_cert (Some ''urn:mrn:b'')"
  have rd: "ReadMessage ?env (ws (sample_io [''x''] (\<lambda>_. False)))
      = (Some ((sample_conn [''x''] (\<lambda>_. False))\<lparr>inbox := []\<rparr>), Inr (?m, 1))"
    by (simp add: ReadMessage_def sample_defs)
  obtain conn where c: "GetConnectMessage (GetProtocolMessage (Some ?m)) = Some conn"
    "GetOwnMrn (Some conn) = ''urn:mrn:b''" "GetReconnectToken (Some conn) = ''ta''" by simp
  from sample_connect_again obtain er' io' where
    run: "connect_agent ?env ?req (sample_er, sample_io [''x''] (\<lambda>_. False)) = ((er', io'), Some (0, ECDSAWithSHA256))"
    and er': "outgoingChannel er' = outgoingChannel sample_er" "local_receivers er' 0 ?s = {1}" by blast
  have s: "GetSender (headerOf ?s) = ''urn:mrn:a''" "length (GetSubject (headerOf ?s)) \<le> 100"
    by (simp_all add: sample_app_def)
  obtain sm where send: "GetSendMessage (GetProtocolMessage (Some ?s)) = Some sm"
    by (simp add: sample_msg_def)
  have "\<exists>h. handleSend ?env ?chk ?req ECDSAWithSHA256 ?s 0 (er', io') =
          Return (er'\<lparr>outgoingChannel := (outgoingChannel er')\<lparr>cbuf := [?s]\<rparr>, agentHeap := h\<rparr>,
            fst (respond ?env io' (goodResponse ''m''))) ()
        \<and> delivered ?s {1} (agentHeap er') h"
    using token_holder_sends_as_saved_agent [OF rd _ c(1) _ _ _ run send, of ECDSAWithSHA256 0 ?chk io'] c s er'
    by simp
  then have "\<exists>h. handleSend ?env ?chk ?req ECDSAWithSHA256 ?s 0 (er', io') =
          Return (er'\<lparr>outgoingChannel := (outgoingChannel er')\<lparr>cbuf := [?s]\<rparr>, agentHeap := h\<rparr>,
            fst (respond ?env io' (goodResponse ''m''))) ()
        \<and> mget (Messages (h 1)) ''m'' = Some ?s"
    by (auto simp: delivered_def)
  with run s show ?thesis by blast
qed


text \<open>
  C3: in every reachable state of the edge router a routed MRN is not empty and leads to an
  agent of that MRN, a subscription is stored under its own subject and holds each agent under
  its own UUID, only agents with an MRN are authenticated or take direct messages, every
  stored message is kept under its UUID and has a header, and a request waiting for its
  response is kept under its UUID.
\<close>

theorem edge_router_invariant:
  assumes "er_reach env chk er"
  shows "(\<forall>mrn a. mget (mrnToAgent er) mrn = Some a \<longrightarrow> mrn \<noteq> '''' \<and> Mrn (agentHeap er a) = mrn)
    \<and> (\<forall>s sub. mget (subscriptions er) s = Some sub \<longrightarrow> s \<noteq> '''' \<and> Interest sub = s
         \<and> (\<forall>u a. mget (Subscribers sub) u = Some a \<longrightarrow> agentUuid (agentHeap er a) = u))
    \<and> (\<forall>a. authenticated (agentHeap er a) \<or> directMessages (agentHeap er a) \<longrightarrow> Mrn (agentHeap er a) \<noteq> '''')
    \<and> (\<forall>a k m. mget (Messages (agentHeap er a)) k = Some m \<longrightarrow> Uuid m = k \<and> k \<noteq> '''' \<and> headerOf m \<noteq> None)
    \<and> (\<forall>u m. mget (awaitResponse er) u = Some m \<longrightarrow> Uuid m = u)"
proof -
  from er_reach_ok [OF assms] have ok: "er_ok er" .
  then have m: "maps_ok (agentHeap er) er" by (simp add: er_ok_def)
  have "mget (mrnToAgent er) mrn = Some a \<Longrightarrow> mrn \<noteq> '''' \<and> Mrn (agentHeap er a) = mrn" for mrn a
    using m by (auto simp: maps_ok_def dest: all_entries_get)
  moreover have "mget (subscriptions er) s = Some sub \<Longrightarrow> s \<noteq> '''' \<and> Interest sub = s
      \<and> (\<forall>u a. mget (Subscribers sub) u = Some a \<longrightarrow> agentUuid (agentHeap er a) = u)" for s sub
    using er_ok_sub_get [OF ok, of s sub] by (auto simp: sub_ok_def dest: all_entries_get)
  moreover have "authenticated (agentHeap er a) \<or> directMessages (agentHeap er a) \<Longrightarrow> Mrn (agentHeap er a) \<noteq> ''''" for a
    using er_ok_agent [OF ok, of a] by (auto simp: agent_ok_def)
  moreover have "mget (Messages (agentHeap er a)) k = Some x \<Longrightarrow> Uuid x = k \<and> k \<noteq> '''' \<and> headerOf x \<noteq> None" for a k x
    using consumer_ok_agent [OF ok, of a] by (rule consumer_ok_entry)
  moreover have "mget (awaitResponse er) u = Some x \<Longrightarrow> Uuid x = u" for u x
    using m by (auto simp: maps_ok_def dest: all_entries_get)
  ultimately show ?thesis by blast
qed

lemma sample_connect_fresh:
  "\<exists>er' io'. connect_agent (con_env (Some ''urn:mrn:c'') None) (sample_request (Some ''urn:mrn:c''))
     (NewEdgeRouter ''urn:mrn:er'', sample_io [''x''] (\<lambda>_. False)) = ((er', io'), Some (0, ECDSAWithSHA256))
   \<and> mget (mrnToAgent er') ''urn:mrn:c'' = Some 0"
  by (simp add: connect_defs alloc_agent_def upd_agent_def NewEdgeRouter_def Let_def)

theorem edge_router_invariant_witness:
  "\<exists>er io'. connect_agent (con_env (Some ''urn:mrn:c'') None) (sample_request (Some ''urn:mrn:c''))
       (NewEdgeRouter ''urn:mrn:er'', sample_io [''x''] (\<lambda>_. False)) = ((er, io'), Some (0, ECDSAWithSHA256))
     \<and> Mrn (agentHeap er 0) = ''urn:mrn:c''"
proof -
  from sample_connect_fresh obtain er io' where
    run: "connect_agent (con_env (Some ''urn:mrn:c'') None) (sample_request (Some ''urn:mrn:c''))
       (NewEdgeRouter ''urn:mrn:er'', sample_io [''x''] (\<lambda>_. False)) = ((er, io'), Some (0, ECDSAWithSHA256))"
    and m: "mget (mrnToAgent er) ''urn:mrn:c'' = Some 0" by blast
  have "er_reach (con_env (Some ''urn:mrn:c'') None) (\<lambda>_ _ _ _. True) er"
    using er_reach.init er_step.connect [OF run] by (rule er_reach.step)
  from edge_router_invariant [OF this] m have "Mrn (agentHeap er 0) = ''urn:mrn:c''" by blast
  with run show ?thesis by blast
qed

text \<open>
  No step of the edge router, whatever message or event it handles, changes the MRN, the
  UUID or the authentication of an agent that exists, or makes an agent disappear.
\<close>

lemma agent_identity_stable:
  assumes "er_reach env chk er" and "er_step env chk er er'" and "a < nextAgent er"
  shows "Mrn (agentHeap er' a) = Mrn (agentHeap er a)
    \<and> agentUuid (agentHeap er' a) = agentUuid (agentHeap er a)
    \<and> authenticated (agentHeap er' a) = authenticated (agentHeap er a)
    \<and> a < nextAgent er'"
  using er_step_keeps [OF assms(2) er_reach_ok [OF assms(1)]] assms(3) by (auto simp: keeps_def)

text \<open>
  C37: the Disconnect of any session of an agent deletes the route of its MRN, also when a newer
  session of the same MRN holds it: that newer agent then gets no direct messages, whatever it
  subscribed to. The tokens of earlier sessions of the agent stay valid.
\<close>

theorem disconnect_drops_newer_route:
  assumes "er_ok er" and "MsgType m = MsgType_PROTOCOL_MESSAGE" and "GetProtocolMessage (Some m) = Some p"
    and "ProtocolMsgType p = ProtocolMessageType_DISCONNECT_MESSAGE"
    and "HandleDisconnect env m io = (io', None)"
    and "mget (mrnToAgent er) (Mrn (agentHeap er a)) = Some b"
  shows "\<exists>er'. handle_message env chk req alg a m n (er, io) = Return (er', io') False
    \<and> mget (mrnToAgent er') (Mrn (agentHeap er b)) = None
    \<and> (\<forall>c msg. GetRecipients_list (GetRecipients (headerOf msg)) \<noteq> [] \<longrightarrow> b \<notin> local_receivers er' c msg)
    \<and> (\<forall>t. t \<noteq> ReconnectToken (agentHeap er a) \<longrightarrow> mget (agents er') t = mget (agents er) t)"
proof -
  let ?e = "er\<lparr>mrnToAgent := mdel (Mrn (agentHeap er a)) (mrnToAgent er),
               agents := mdel (ReconnectToken (agentHeap er a)) (agents er)\<rparr>"
  from assms(1) have route: "mget (mrnToAgent er) mrn = Some c \<Longrightarrow> Mrn (agentHeap er c) = mrn" for mrn c
    by (auto simp: er_ok_def maps_ok_def dest: all_entries_get)
  have run: "handle_message env chk req alg a m n (er, io) = Return (?e, io') False"
    using assms(2-5) by (simp add: handle_message_def)
  have b: "Mrn (agentHeap er b) = Mrn (agentHeap er a)" using route assms(6) by blast
  have "b \<notin> local_receivers ?e c msg" if "GetRecipients_list (GetRecipients (headerOf msg)) \<noteq> []" for c msg
    using that route b by (auto simp: local_receivers_def Let_def split: if_splits)
  with run b show ?thesis by auto
qed


definition sample_twice :: EdgeRouter where
  "sample_twice = sample_er\<lparr>mrnToAgent := [(''urn:mrn:a'', 1)], subscriptions := [],
     agentHeap := (agentHeap sample_er)(1 := sample_agent ''urn:mrn:a'' ''ub'' True)\<rparr>"

lemma sample_twice_ok: "er_ok sample_twice"
proof -
  have "agent_ok (agentHeap sample_twice a)" for a
    using er_ok_agent [OF sample_er_ok, of a]
    by (simp add: sample_twice_def agent_ok_def consumer_ok_def)
  then show ?thesis
    by (simp add: er_ok_def maps_ok_def all_entries_def sample_twice_def keys_ok_def)
qed

theorem disconnect_drops_newer_route_witness:
  "\<exists>er' io'. handle_message (sample_env (\<lambda>_. 10) (\<lambda>_. None)) (\<lambda>_ _ _ _. True) (sample_request None)
       UnknownSignatureAlgorithm 0 sample_disconnect 9 (sample_twice, sample_io [] (\<lambda>_. False)) = Return (er', io') False
     \<and> mget (mrnToAgent sample_twice) ''urn:mrn:a'' = Some 1 \<and> mget (mrnToAgent er') ''urn:mrn:a'' = None"
proof -
  let ?env = "sample_env (\<lambda>_. 10) (\<lambda>_. None)" and ?io = "sample_io [] (\<lambda>_. False)"
  obtain p where p: "GetProtocolMessage (Some sample_disconnect) = Some p"
      "ProtocolMsgType p = ProtocolMessageType_DISCONNECT_MESSAGE"
    and t: "MsgType sample_disconnect = MsgType_PROTOCOL_MESSAGE"
    by (simp add: sample_disconnect_def)
  obtain io' where d: "HandleDisconnect ?env sample_disconnect ?io = (io', None)"
    by (simp add: HandleDisconnect_def sample_disconnect_def respond_def NewString_def write_io_def
        WriteMessage_def close_io_def CloseConn_def sample_defs)
  have r: "mget (mrnToAgent sample_twice) (Mrn (agentHeap sample_twice 0)) = Some 1"
    and b: "Mrn (agentHeap sample_twice 1) = ''urn:mrn:a''"
    by (simp_all add: sample_twice_def)
  from disconnect_drops_newer_route [OF sample_twice_ok t p d r] b
  show ?thesis by (fastforce simp: sample_twice_def)
qed

text \<open>Which handlers can panic.\<close>

lemma on_agent_returns: "returns (f (agentHeap er a, io)) \<Longrightarrow> returns (on_agent a f (er, io))"
  by (cases "f (agentHeap er a, io)") (auto simp: on_agent_def)

lemma er_send_panics: "\<not> cclosed (outgoingChannel er) \<Longrightarrow> \<not> panics (er_send er m)"
  by (simp add: er_send_def chan_send_def)

lemma handleSubscribe_panics:
  assumes "\<not> cclosed (outgoingChannel er)"
  shows "panics (handleSubscribe env m a req (er, io)) \<longleftrightarrow>
    PeerCertificates req = None \<and> Mrn (agentHeap er a) \<noteq> []
    \<and> (\<exists>sub. GetSubscribeMessage (GetProtocolMessage (Some m)) = Some sub
         \<and> GetSubjectOrDirectMessages (Some sub) = Some (Subscribe_DirectMessages True))"
  using assms by (auto simp: handleSubscribe_def handleSubscribeSubject_def handleSubscribeDirect_def Let_def panics_bind
      er_send_panics split: option.split SubjectOrDirectMessages.split prod.split)

lemma handleUnsubscribe_panics:
  "\<not> cclosed (outgoingChannel er) \<Longrightarrow> \<not> panics (handleUnsubscribe env m a (er, io))"
  by (auto simp: handleUnsubscribe_def handleUnsubscribeSubject_def handleUnsubscribeDirect_def Let_def panics_bind
      er_send_panics split: option.split Unsubscribe_SubjectOrDirectMessages.split prod.split)

lemma handleSend_panics:
  "AuthenticateConsumer req mrn = (alg, auth, err) \<Longrightarrow> \<not> cclosed (outgoingChannel er) \<Longrightarrow>
   \<not> panics (handleSend env chk req alg m a (er, io))"
  using handleSend_cases [of req mrn alg auth err m _ chk er a env io]
  by (cases "GetSendMessage (GetProtocolMessage (Some m))")
    (auto simp: handleSend_def panics_bind er_send_panics split: if_splits)

text \<open>
  C33: as long as the outgoing channel is open, exactly one message makes the handler of a session
  that came through the handshake panic: a request for direct messages of an agent with an MRN on a
  connection without TLS, where the missing TLS state is dereferenced. Over TLS none does.
\<close>

theorem message_panics_exactly:
  assumes "er_reach env chk er" and "AuthenticateConsumer req mrn = (alg, auth, err)"
    and "\<not> cclosed (outgoingChannel er)"
  shows "panics (handle_message env chk req alg a m n (er, io)) \<longleftrightarrow>
    PeerCertificates req = None \<and> Mrn (agentHeap er a) \<noteq> ''''
    \<and> MsgType m = MsgType_PROTOCOL_MESSAGE
    \<and> (\<exists>p sub. GetProtocolMessage (Some m) = Some p
         \<and> ProtocolMsgType p = ProtocolMessageType_SUBSCRIBE_MESSAGE
         \<and> GetSubscribeMessage (Some p) = Some sub
         \<and> GetSubjectOrDirectMessages (Some sub) = Some (Subscribe_DirectMessages True))"
proof -
  note ok = er_reach_ok [OF assms(1)]
  have r: "\<not> panics (on_agent a (HandleReceive env m) (er, io))" "\<not> panics (on_agent a (HandleFetch env m) (er, io))"
    using ok by (auto intro!: panics_returns on_agent_returns HandleReceive_returns HandleFetch_returns)
  show ?thesis
    using handleSubscribe_panics [OF assms(3), of env m a req io] handleUnsubscribe_panics [OF assms(3), of env m a io]
      handleSend_panics [OF assms(2,3), of env chk m a io] r
    by (auto simp: handle_message_def Let_def panics_bind
        split: MsgType.split option.split ProtocolMessageType.split prod.split)
qed

theorem message_panics_exactly_witness:
  "\<exists>er io'. connect_agent (con_env (Some ''urn:mrn:c'') None) (sample_request (Some ''urn:mrn:c''))
       (NewEdgeRouter ''urn:mrn:er'', sample_io [''x''] (\<lambda>_. False)) = ((er, io'), Some (0, ECDSAWithSHA256))
     \<and> \<not> panics (handle_message (con_env (Some ''urn:mrn:c'') None) (\<lambda>_ _ _ _. True)
          (sample_request (Some ''urn:mrn:c'')) ECDSAWithSHA256 0 (sample_receive None) 9 (er, io'))"
proof -
  let ?env = "con_env (Some ''urn:mrn:c'') None" and ?req = "sample_request (Some ''urn:mrn:c'')"
  from sample_connect_fresh obtain er io' where
    run: "connect_agent ?env ?req
       (NewEdgeRouter ''urn:mrn:er'', sample_io [''x''] (\<lambda>_. False)) = ((er, io'), Some (0, ECDSAWithSHA256))" by blast
  have reach: "er_reach ?env (\<lambda>_ _ _ _. True) er"
    using er_reach.init er_step.connect [OF run] by (rule er_reach.step)
  have open_ch: "\<not> cclosed (outgoingChannel er)"
    using run by (auto simp: connect_defs alloc_agent_def upd_agent_def NewEdgeRouter_def Let_def)
  have "\<not> panics (handle_message ?env (\<lambda>_ _ _ _. True) ?req ECDSAWithSHA256 0 (sample_receive None) 9 (er, io'))"
    using message_panics_exactly [OF reach sample_auth(1) open_ch] by simp
  with run show ?thesis by blast
qed

text \<open>The loop stays within the reachable states.\<close>

lemma agent_loop_reach:
  "er_reach env chk er \<Longrightarrow> a < nextAgent er \<Longrightarrow>
   er_reach env chk (fst (state_of (agent_loop env chk req alg a (er, io))))"
proof (induction env chk req alg a "(er, io)" arbitrary: er io rule: agent_loop.induct)
  case (1 env chk req alg a er io)
  show ?case
  proof (cases "ReadMessage env (ws io)")
    case (Pair c r)
    show ?thesis
    proof (cases r)
      case (Inl e)
      with Pair 1 show ?thesis by (simp add: agent_loop.simps)
    next
      case (Inr mn)
      obtain m n where mn: "mn = (m, n)" by (cases mn)
      let ?r = "handle_message env chk req alg a m n (er, io\<lparr>ws := c\<rparr>)"
      obtain e i where st: "state_of ?r = (e, i)" by (cases "state_of ?r")
      have reach: "er_reach env chk e"
        using "1.prems"(1) er_step.message [OF "1.prems"(2) st] by (rule er_reach.step)
      have a: "a < nextAgent e"
        using er_step_keeps [OF er_step.message [OF "1.prems"(2) st] er_reach_ok [OF "1.prems"(1)]] "1.prems"(2)
        by (simp add: keeps_def)
      note IH = "1.hyps" [OF Pair [symmetric] Inr mn [symmetric]]
      show ?thesis
        using IH reach a st Pair Inr mn
        by (cases ?r) (auto simp: agent_loop.simps)
    qed
  qed
qed


text \<open>
  The handler of an agent's connection, from handshake to deferred close, leaves a
  reachable state of the edge router, and when it returns or panics the last close
  recorded on the connection has status 1011.
\<close>

lemma connection_handler_closes:
  assumes "er_reach env chk er"
  shows "er_reach env chk (fst (state_of (handleHttpConnection env chk req (er, io))))
    \<and> (\<forall>er' io' x. handleHttpConnection env chk req (er, io) \<in> {Return (er', io') (), Panic (er', io') x}
         \<longrightarrow> ws io' \<noteq> None \<longrightarrow> (\<exists>cs. closesOf io' = cs @ [(1011, ''PANIC!!!'')]))"
proof -
  have closed: "ws (snd (deferred_close s)) \<noteq> None \<Longrightarrow>
      \<exists>cs. closesOf (snd (deferred_close s)) = cs @ [(1011, ''PANIC!!!'')]" for s
    using close_log_closes [of "snd s" StatusInternalError "''PANIC!!!''"]
    by (cases "ws (snd s)") (auto simp: deferred_close_def StatusInternalError_def close_log_def close_io_def)
  obtain e i r where c: "connect_agent env req (er, io) = ((e, i), r)" by (metis surj_pair)
  have e: "er_reach env chk e" using assms er_step.connect [OF c] by (rule er_reach.step)
  show ?thesis
  proof (cases r)
    case None
    with c e closed [of "(e, i)"] show ?thesis by (auto simp: handleHttpConnection_def deferred_close_def)
  next
    case (Some aa)
    obtain a alg where aa: "aa = (a, alg)" by (cases aa)
    have "a < nextAgent e" using connect_agent_keeps [OF er_reach_ok [OF assms] c] Some aa by auto
    note l = agent_loop_reach [OF e this, of req alg i]
    show ?thesis
      using c Some aa l closed
      by (cases "agent_loop env chk req alg a (e, i)")
        (auto simp: handleHttpConnection_def deferred_close_def)
  qed
qed

section \<open>Messages from the router\<close>

definition incoming_receivers :: "EdgeRouter \<Rightarrow> ApplicationMessage option \<Rightarrow> nat set" where
  "incoming_receivers er x =
     (case GetSubjectOrRecipient (GetHeader x) of
        Some (ApplicationMessageHeader_Subject s) \<Rightarrow>
          {b. \<exists>sub. mget (subscriptions er) s = Some sub \<and> b \<in> snd ` set (Subscribers sub)}
      | Some (ApplicationMessageHeader_Recipients r) \<Rightarrow>
          {b. directMessages (agentHeap er b) \<and> (\<exists>mrn \<in> set (GetRecipients_list r). mget (mrnToAgent er) mrn = Some b)}
      | None \<Rightarrow> {})"

lemma sendRequest_simps [simp]:
  "Uuid (sendRequest u x) = u" "appMsgOf (sendRequest u x) = x"
  by (simp_all add: sendRequest_def)

lemma deliver_content_spec:
  "\<exists>h. deliver_content env x (er, io) = (er\<lparr>agentHeap := h\<rparr>, io\<lparr>uuidn := Suc (uuidn io)\<rparr>)
     \<and> delivered (sendRequest (newUuid env (uuidn io)) x) (incoming_receivers er x) (agentHeap er) h"
proof -
  let ?m = "sendRequest (newUuid env (uuidn io)) x"
  have subs: "{b. \<exists>sub. mget (subscriptions er) s = Some sub \<and> b \<in> snd ` set (Subscribers sub)}
      = (case mget (subscriptions er) s of None \<Rightarrow> {} | Some sub \<Rightarrow> snd ` set (Subscribers sub))" for s
    by (cases "mget (subscriptions er) s") simp_all
  define as where "as = (case GetSubjectOrRecipient (GetHeader x) of
      Some (ApplicationMessageHeader_Subject s) \<Rightarrow>
        (case mget (subscriptions er) s of None \<Rightarrow> [] | Some sub \<Rightarrow> SnapshotSubscribers sub)
    | Some (ApplicationMessageHeader_Recipients r) \<Rightarrow> direct_targets (mrnToAgent er) (GetRecipients_list r) (agentHeap er)
    | None \<Rightarrow> [])"
  have "set as = incoming_receivers er x"
    by (simp add: as_def incoming_receivers_def set_direct_targets SnapshotSubscribers_def subs
        split: option.split ApplicationMessageHeader_SubjectOrRecipient.split)
  moreover have "deliver_content env x (er, io)
      = (er\<lparr>agentHeap := queue_all ?m as (agentHeap er)\<rparr>, io\<lparr>uuidn := Suc (uuidn io)\<rparr>)"
    by (auto simp: deliver_content_def as_def NewString_def queue_direct_eq Let_def
        split: option.split ApplicationMessageHeader_SubjectOrRecipient.split)
  ultimately show ?thesis using delivered_queue_all [of ?m as "agentHeap er"] by auto
qed

text \<open>What a whole response does to the stores, and how later contents leave earlier ones alone.\<close>

definition incoming_ok :: "Env \<Rightarrow> int \<Rightarrow> MessageContent list \<Rightarrow> EdgeRouter \<Rightarrow> (nat \<Rightarrow> Agent) \<Rightarrow> bool" where
  "incoming_ok env now cs er h \<longleftrightarrow>
     (\<forall>b k. mget (Messages (h b)) k = mget (Messages (agentHeap er b)) k
        \<or> (\<exists>c \<in> set cs. \<not> discarded now (MC_Msg c) \<and> b \<in> incoming_receivers er (MC_Msg c)
             \<and> mget (Messages (h b)) k = Some (sendRequest k (MC_Msg c))))
   \<and> (uuids_ok env \<longrightarrow> (\<forall>c \<in> set cs. \<not> discarded now (MC_Msg c) \<longrightarrow>
        (\<forall>b \<in> incoming_receivers er (MC_Msg c). \<exists>k. mget (Messages (h b)) k = Some (sendRequest k (MC_Msg c)))))"

lemma delivered_receivers:
  "delivered m S (agentHeap er) h \<Longrightarrow> incoming_receivers (er\<lparr>agentHeap := h\<rparr>) x = incoming_receivers er x"
  by (auto simp: delivered_def incoming_receivers_def
      split: option.split ApplicationMessageHeader_SubjectOrRecipient.split)

lemma deliver_contents_spec:
  "\<exists>h n. deliver_contents env now cs (er, io) = (er\<lparr>agentHeap := h\<rparr>, io\<lparr>uuidn := n\<rparr>)
     \<and> incoming_ok env now cs er h
     \<and> (uuids_ok env \<longrightarrow> (\<forall>b. \<forall>j < uuidn io.
          mget (Messages (h b)) (newUuid env j) = mget (Messages (agentHeap er b)) (newUuid env j)))"
proof (induction cs arbitrary: er io)
  case Nil
  show ?case
    by (intro exI [of _ "agentHeap er"] exI [of _ "uuidn io"]) (simp add: incoming_ok_def)
next
  case (Cons c cs)
  let ?x = "MC_Msg c"
  show ?case
  proof (cases "discarded now ?x")
    case True
    from Cons.IH [of er io] show ?thesis
      using True by (elim exE) (intro exI, auto simp: incoming_ok_def)
  next
    case False
    let ?u = "newUuid env (uuidn io)" and ?io = "io\<lparr>uuidn := Suc (uuidn io)\<rparr>"
    obtain h1 where d: "deliver_content env ?x (er, io) = (er\<lparr>agentHeap := h1\<rparr>, ?io)"
      and h1: "delivered (sendRequest ?u ?x) (incoming_receivers er ?x) (agentHeap er) h1"
      using deliver_content_spec by blast
    note recv = delivered_receivers [OF h1]
    obtain h n where r: "deliver_contents env now cs (er\<lparr>agentHeap := h1\<rparr>, ?io) = (er\<lparr>agentHeap := h\<rparr>, io\<lparr>uuidn := n\<rparr>)"
      and ok: "incoming_ok env now cs (er\<lparr>agentHeap := h1\<rparr>) h"
      and keep: "uuids_ok env \<Longrightarrow> j < Suc (uuidn io) \<Longrightarrow>
        mget (Messages (h b)) (newUuid env j) = mget (Messages (h1 b)) (newUuid env j)" for b j
      using Cons.IH [of "er\<lparr>agentHeap := h1\<rparr>" ?io] by auto
    have old: "mget (Messages (h1 b)) k = (if b \<in> incoming_receivers er ?x \<and> ?u \<noteq> '''' \<and> k = ?u
        then Some (sendRequest ?u ?x) else mget (Messages (agentHeap er b)) k)" for b k
      using h1 by (simp add: delivered_def)
    have "incoming_ok env now (c # cs) er h"
      unfolding incoming_ok_def
    proof (intro conjI allI impI ballI)
      fix b k
      show "mget (Messages (h b)) k = mget (Messages (agentHeap er b)) k
        \<or> (\<exists>c' \<in> set (c # cs). \<not> discarded now (MC_Msg c') \<and> b \<in> incoming_receivers er (MC_Msg c')
             \<and> mget (Messages (h b)) k = Some (sendRequest k (MC_Msg c')))"
      proof (cases "mget (Messages (h b)) k = mget (Messages (h1 b)) k")
        case True
        with old [of b k] False show ?thesis by (auto split: if_splits)
      next
        case False
        with ok show ?thesis by (auto simp: incoming_ok_def recv)
      qed
    next
      fix c' b
      assume u: "uuids_ok env" and c': "c' \<in> set (c # cs)" "\<not> discarded now (MC_Msg c')"
        and b: "b \<in> incoming_receivers er (MC_Msg c')"
      show "\<exists>k. mget (Messages (h b)) k = Some (sendRequest k (MC_Msg c'))"
      proof (cases "c' = c")
        case True
        with old [of b ?u] b u keep [OF u, of "uuidn io" b] show ?thesis
          by (intro exI [of _ ?u]) (simp add: uuids_ok_def)
      next
        case False
        with ok u c' b show ?thesis by (auto simp: incoming_ok_def recv)
      qed
    qed
    moreover have "mget (Messages (h b)) (newUuid env j) = mget (Messages (agentHeap er b)) (newUuid env j)"
      if "uuids_ok env" "j < uuidn io" for b j
    proof -
      from that have "newUuid env j \<noteq> ?u" by (auto simp: uuids_ok_def inj_def)
      with keep [OF that(1), of j b] that(2) old [of b "newUuid env j"] show ?thesis by simp
    qed
    ultimately show ?thesis using False d r by auto
  qed
qed


lemma handle_response_good:
  assumes "Response rm = ResponseEnum_GOOD" and "now = clock env (clockn io)"
  shows "\<exists>h io'. handle_response env (Some rm) (er, io) =
       Return (er\<lparr>awaitResponse := mdel (ResponseToUuid rm) (awaitResponse er), agentHeap := h\<rparr>, io') ()
    \<and> incoming_ok env now (RM_MessageContent rm) er h"
proof -
  let ?e = "er\<lparr>awaitResponse := mdel (ResponseToUuid rm) (awaitResponse er)\<rparr>" and ?io = "io\<lparr>clockn := Suc (clockn io)\<rparr>"
  obtain h n where d: "deliver_contents env now (RM_MessageContent rm) (?e, ?io) = (?e\<lparr>agentHeap := h\<rparr>, ?io\<lparr>uuidn := n\<rparr>)"
    and ok: "incoming_ok env now (RM_MessageContent rm) ?e h"
    using deliver_contents_spec [of env now "RM_MessageContent rm" ?e ?io] by blast
  have recv: "incoming_receivers ?e x = incoming_receivers er x" for x
    by (simp add: incoming_receivers_def
        split: option.split ApplicationMessageHeader_SubjectOrRecipient.split)
  have "handle_response env (Some rm) (er, io) = Return (?e\<lparr>agentHeap := h\<rparr>, ?io\<lparr>uuidn := n\<rparr>) ()"
    using assms d by (auto simp: handle_response_def NowUnix_def Let_def split: option.split)
  moreover from ok have "incoming_ok env now (RM_MessageContent rm) er h"
    by (simp add: incoming_ok_def recv)
  ultimately show ?thesis by blast
qed

lemma not_discarded_iff:
  "\<not> discarded now x \<longleftrightarrow> x \<noteq> None \<and> now \<le> GetExpires (GetHeader x) \<and> GetExpires (GetHeader x) \<le> now + 2592000"
  by (auto simp: discarded_def ExpirationLimit_def Let_def)

text \<open>
  C26: of a good response from the router exactly the contents with an application message that
  has not expired and expires within thirty days are delivered: whatever appears in an agent's
  store is such a content, addressed to it, under a new UUID, and every such content appears at
  every subscriber of its subject or every named agent that takes direct messages. The request
  it answers is no longer awaited.
\<close>

theorem incoming_response_delivers:
  assumes "Response rm = ResponseEnum_GOOD" and "now = clock env (clockn io)"
  shows "\<exists>h io'. handle_response env (Some rm) (er, io) =
       Return (er\<lparr>awaitResponse := mdel (ResponseToUuid rm) (awaitResponse er), agentHeap := h\<rparr>, io') ()
    \<and> (\<forall>b k. mget (Messages (h b)) k \<noteq> mget (Messages (agentHeap er b)) k \<longrightarrow>
         (\<exists>c \<in> set (RM_MessageContent rm). MC_Msg c \<noteq> None
            \<and> now \<le> GetExpires (GetHeader (MC_Msg c)) \<and> GetExpires (GetHeader (MC_Msg c)) \<le> now + 2592000
            \<and> b \<in> incoming_receivers er (MC_Msg c) \<and> mget (Messages (h b)) k = Some (sendRequest k (MC_Msg c))))
    \<and> (uuids_ok env \<longrightarrow> (\<forall>c \<in> set (RM_MessageContent rm). MC_Msg c \<noteq> None
            \<and> now \<le> GetExpires (GetHeader (MC_Msg c)) \<and> GetExpires (GetHeader (MC_Msg c)) \<le> now + 2592000 \<longrightarrow>
         (\<forall>b \<in> incoming_receivers er (MC_Msg c). \<exists>k. mget (Messages (h b)) k = Some (sendRequest k (MC_Msg c)))))"
proof -
  obtain h io' where run: "handle_response env (Some rm) (er, io) =
       Return (er\<lparr>awaitResponse := mdel (ResponseToUuid rm) (awaitResponse er), agentHeap := h\<rparr>, io') ()"
    and ok: "incoming_ok env now (RM_MessageContent rm) er h"
    using handle_response_good [OF assms] by blast
  note ok = ok [unfolded incoming_ok_def not_discarded_iff]
  show ?thesis
    by (intro exI [of _ h] exI [of _ io'] conjI run) (use ok in metis)+
qed

definition sample_content :: "string \<Rightarrow> int \<Rightarrow> ResponseMessage" where
  "sample_content s x = (goodResponse ''q'')\<lparr>RM_MessageContent := [\<lparr>MC_Uuid = ''r1'', MC_Msg = Some (sample_app s x)\<rparr>]\<rparr>"

theorem incoming_response_delivers_witness:
  "\<exists>h io'. handle_response (sample_env (\<lambda>_. 10) (\<lambda>_. None)) (Some (sample_content ''s'' 20)) (sample_er, sample_io [] (\<lambda>_. False))
       = Return (sample_er\<lparr>awaitResponse := mdel ''q'' (awaitResponse sample_er), agentHeap := h\<rparr>, io') ()
     \<and> (\<exists>k. mget (Messages (h 1)) k = Some (sendRequest k (Some (sample_app ''s'' 20))))"
proof -
  let ?env = "sample_env (\<lambda>_. 10) (\<lambda>_. None)" and ?io = "sample_io [] (\<lambda>_. False)"
  have g: "Response (sample_content ''s'' 20) = ResponseEnum_GOOD" by (simp add: sample_content_def)
  have now: "10 = clock ?env (clockn ?io)" by (simp add: sample_defs)
  have b: "1 \<in> incoming_receivers sample_er (Some (sample_app ''s'' 20))"
    by (simp add: incoming_receivers_def)
  from incoming_response_delivers [OF g now, of sample_er] sample_uuids_ok b show ?thesis
    by (fastforce simp: sample_content_def)
qed







end
