(* ===== verification/EdgeStart.thy ===== *)
theory EdgeStart
  imports EdgeRouter
begin

text \<open>
  How the edge router starts and stops: the rest of edgerouter/edgerouter.go (NewEdgeRouter with
  its error, StartEdgeRouter, main and run) and the loop around the rounds of
  handleOutgoingMessages. Flags, TLS, the dial and mDNS are parameters.
\<close>

section \<open>Starting and stopping\<close>

text \<open>StartEdgeRouter up to its goroutines; an error is only logged.\<close>

definition start_connect :: "Env \<Rightarrow> EdgeRouter \<Rightarrow> Io \<Rightarrow> Io" where
  "start_connect env er io = (if ws io \<noteq> None then fst (connectMMTPToRouter env er io) else io)"

definition disconnectRequest :: "string \<Rightarrow> MmtpMessage" where
  "disconnectRequest u = mkProtocol u ProtocolMessageType_DISCONNECT_MESSAGE
     (ProtocolMessage_DisconnectMessage (Some Disconnect))"

text \<open>
  StartEdgeRouter from the end of the context on: Disconnect, its answer (only logged), the
  wait for the end of the connection (\<open>ends\<close> says whether it comes), the deferred close of the
  outgoing channel. The websockets of the agents are not closed.
\<close>

definition StopEdgeRouter :: "Env \<Rightarrow> bool \<Rightarrow> er_state \<Rightarrow> (er_state, unit) result" where
  "StopEdgeRouter env ends s =
     (let (er, io) = s;
          (u, io) = NewString env io;
          disconnectMsg = disconnectRequest u;
          finish = (\<lambda>io. bind_result (chan_close (outgoingChannel er))
                     (\<lambda>ch _. Return (er\<lparr>outgoingChannel := ch\<rparr>, io) ()) (\<lambda>ch. (er, io)))
      in if ws io = None then finish io
         else (let (io, err) = write_io env io disconnectMsg;
                   (c, response) = ReadMessage env (ws io)
               in if ends then finish (io\<lparr>ws := map_option CloseNow c\<rparr>)
                  else Wait (er, io\<lparr>ws := c\<rparr>) ''connection is open''))"

text \<open>The whole of it; \<open>run\<close> is what the goroutines do until the context ends.\<close>

definition StartEdgeRouter ::
    "Env \<Rightarrow> (er_state \<Rightarrow> er_state) \<Rightarrow> bool \<Rightarrow> er_state \<Rightarrow> (er_state, unit) result" where
  "StartEdgeRouter env run ends s =
     (let (er, io) = s in StopEdgeRouter env ends (run (er, start_connect env er io)))"

text \<open>
  The loop of handleOutgoingMessages over the channel. A message that cannot be written goes
  back to the queue, so that the loop need not end: \<open>fuel\<close> bounds the rounds. \<open>Return\<close> is the
  end of the loop on a closed channel.
\<close>

fun outgoing_loop :: "nat \<Rightarrow> Env \<Rightarrow> bool \<Rightarrow> dial list \<Rightarrow> er_state \<Rightarrow> (er_state, unit) result" where
  "outgoing_loop 0 env ping dials s = Wait s ''out of fuel''"
| "outgoing_loop (Suc fuel) env ping dials s =
     (case cbuf (outgoingChannel (fst s)) of
        [] \<Rightarrow> handleOutgoingMessages env ping dials s
      | _ # _ \<Rightarrow>
          (case handleOutgoingMessages env ping dials s of
             Return s _ \<Rightarrow> outgoing_loop fuel env ping dials s
           | Panic s w \<Rightarrow> Panic s w
           | Wait s w \<Rightarrow> Wait s w))"

section \<open>main\<close>

text \<open>
  The flags the program uses beyond ports and labels. \<open>flagSet.Parse\<close> gives the flags, asks
  for help, or fails.
\<close>

record EdgeFlags =
  f_routerAddr :: string
  f_ownMrn :: string
  f_clientCertPath :: string
  f_clientCertKeyPath :: string
  f_clientCAs :: string
  f_tlsCAs :: string
  f_insecure :: bool

datatype parsed_args = ParseError string | ParseHelp | Flags EdgeFlags

text \<open>
  What main asks of its environment: the key pair with its leaf certificate (parsed or not), and
  the dial with the trusted pool, the insecure flag and the callback for the client certificate.
  The dial says whether it called the callback and gives the connection.
\<close>

record 'pool EdgeMainEnv =
  parseFlags :: "string list \<Rightarrow> parsed_args"
  loadX509KeyPair :: "string \<Rightarrow> string \<Rightarrow> Certificate option option"
  dialRouter :: "string \<Rightarrow> 'pool option \<Rightarrow> bool \<Rightarrow> bool \<times> Conn option"

text \<open>The callback: it overwrites the MRN as soon as a server asks for the certificate.\<close>

definition clientCertFunc :: "'pool EdgeMainEnv \<Rightarrow> EdgeFlags \<Rightarrow> string \<Rightarrow> string" where
  "clientCertFunc me fl mrn =
     (if f_clientCertPath fl \<noteq> '''' \<and> f_clientCertKeyPath fl \<noteq> ''''
      then (case loadX509KeyPair me (f_clientCertPath fl) (f_clientCertKeyPath fl) of
              None \<Rightarrow> mrn
            | Some None \<Rightarrow> mrn
            | Some (Some parsedCert) \<Rightarrow> GetMrnFromCertificate parsedCert)
      else mrn)"

text \<open>NewEdgeRouter with the client CAs; the MRN is read when it is used, after the dial.\<close>

definition createEdgeRouter :: "'pool KeyEnv \<Rightarrow> string \<Rightarrow> string \<Rightarrow> error + EdgeRouter" where
  "createEdgeRouter ke clientCAs mrn =
     (case LoadCertPool ke clientCAs of Inl err \<Rightarrow> Inl err | Inr _ \<Rightarrow> Inr (NewEdgeRouter mrn))"

text \<open>
  runWithStderr up to the goroutines: the value is the error that ends it, or the router and its
  connection. After that it only waits for a signal and returns nil.
\<close>

definition runWithStderr ::
    "'pool KeyEnv \<Rightarrow> 'pool EdgeMainEnv \<Rightarrow> string list \<Rightarrow> (error + EdgeRouter \<times> Io) option" where
  "runWithStderr ke me args =
     (case parseFlags me args of
        ParseHelp \<Rightarrow> None
      | ParseError err \<Rightarrow> Some (Inl (Extern err))
      | Flags fl \<Rightarrow> Some
          (case LoadCertPool ke (f_tlsCAs fl) of
             Inl err \<Rightarrow> Inl (Wrapf ''could not load configured TLS CAs'' err)
           | Inr certPool \<Rightarrow>
               (let (asked, routerWs) = dialRouter me (f_routerAddr fl) certPool (f_insecure fl);
                    mrn = (if asked then clientCertFunc me fl (f_ownMrn fl) else f_ownMrn fl)
                in case createEdgeRouter ke (f_clientCAs fl) mrn of
                     Inl err \<Rightarrow> Inl (Wrapf ''could not create MMS Edge Router instance'' err)
                   | Inr er \<Rightarrow> Inr (er, \<lparr>ws = routerWs, uuidn = 0, clockn = 0\<rparr>))))"

text \<open>The exit code; \<open>None\<close> of runWithStderr is \<open>flag.ErrHelp\<close>.\<close>

definition runMain :: "'pool KeyEnv \<Rightarrow> 'pool EdgeMainEnv \<Rightarrow> string list \<Rightarrow> nat" where
  "runMain ke me args =
     (case runWithStderr ke me args of
        None \<Rightarrow> 0
      | Some (Inl _) \<Rightarrow> 1
      | Some (Inr _) \<Rightarrow> 0)"


section \<open>Facts\<close>

text \<open>After StopEdgeRouter no write on the connection to the router succeeds any more.\<close>

definition cut_off :: "Io \<Rightarrow> bool" where
  "cut_off io \<longleftrightarrow> (case ws io of None \<Rightarrow> True | Some w \<Rightarrow> (\<forall>n. writeFails w n) \<and> inbox w = [])"

lemma cut_off_write: "cut_off io \<Longrightarrow> \<exists>io' e. write_io env io m = (io', Some e) \<and> cut_off io'"
  by (cases "ws io"; cases "marshal env m") (auto simp: cut_off_def write_io_def WriteMessage_def Let_def)

lemma cut_off_CloseNow: "cut_off (io\<lparr>ws := map_option CloseNow c\<rparr>)"
  by (cases c) (simp_all add: cut_off_def CloseNow_def)

lemma StopEdgeRouter_eq:
  assumes "\<not> cclosed (outgoingChannel er)"
  shows "\<exists>io'. cut_off io' \<and> StopEdgeRouter env True (er, io) =
    Return (er\<lparr>outgoingChannel := (outgoingChannel er)\<lparr>cclosed := True\<rparr>\<rparr>, io') ()"
proof (cases "ws io")
  case None
  then have "ws (snd (NewString env io)) = None" "cut_off (snd (NewString env io))" by (simp_all add: cut_off_def)
  with assms show ?thesis
    by (intro exI [of _ "snd (NewString env io)"]) (simp add: StopEdgeRouter_def chan_close_def Let_def case_prod_beta)
next
  case (Some w)
  obtain io1 e where wr: "write_io env (snd (NewString env io)) (disconnectRequest (fst (NewString env io))) = (io1, e)"
    by fastforce
  obtain c x where rd: "ReadMessage env (ws io1) = (c, x)" by fastforce
  have "StopEdgeRouter env True (er, io) =
      Return (er\<lparr>outgoingChannel := (outgoingChannel er)\<lparr>cclosed := True\<rparr>\<rparr>, io1\<lparr>ws := map_option CloseNow c\<rparr>) ()"
    using Some assms wr rd by (simp add: StopEdgeRouter_def chan_close_def Let_def case_prod_beta)
  with cut_off_CloseNow show ?thesis by blast
qed

section \<open>Properties\<close>

text \<open>
  C38: if a message for the router is still queued when the edge router shuts down, the process
  crashes: StartEdgeRouter closes the outgoing channel after the connection to the router has
  ended, the sending loop takes the message, cannot write it, and sends it back on the closed
  channel, which panics in a goroutine.
\<close>

theorem shutdown_panics_with_pending_message:
  assumes "cbuf (outgoingChannel er) = m # rest" and "MsgType m = MsgType_PROTOCOL_MESSAGE"
    and "\<not> cclosed (outgoingChannel er)"
  shows "\<exists>er' io' s. StopEdgeRouter env True (er, io) = Return (er', io') ()
    \<and> cbuf (outgoingChannel er') = m # rest
    \<and> outgoing_loop (Suc fuel) env ping dials (er', io') = Panic s ''send on closed channel''"
proof -
  let ?er = "er\<lparr>outgoingChannel := (outgoingChannel er)\<lparr>cclosed := True\<rparr>\<rparr>"
  from StopEdgeRouter_eq [OF assms(3)] obtain io' where
    stop: "StopEdgeRouter env True (er, io) = Return (?er, io') ()" and cut: "cut_off io'" by blast
  from cut_off_write [OF cut] obtain io2 e where "write_io env io' m = (io2, Some e)" by blast
  then have "\<exists>s. handleOutgoingMessages env ping dials (?er, io') = Panic s ''send on closed channel''"
    using assms(1,2) by (simp add: handleOutgoingMessages_def er_send_def chan_send_def Let_def)
  then obtain s where "handleOutgoingMessages env ping dials (?er, io') = Panic s ''send on closed channel''" ..
  with stop assms(1) show ?thesis by (intro exI [of _ ?er] exI [of _ io'] exI [of _ s]) simp
qed

theorem shutdown_panics_with_pending_message_witness:
  "\<exists>er' io' s. StopEdgeRouter (sample_env (\<lambda>_. 10) (\<lambda>_. None)) True
       (sample_er\<lparr>outgoingChannel := (outgoingChannel sample_er)\<lparr>cbuf := [sample_msg ''m'' ''s'' 20]\<rparr>\<rparr>,
        sample_io [] (\<lambda>_. False)) = Return (er', io') ()
     \<and> outgoing_loop 1 (sample_env (\<lambda>_. 10) (\<lambda>_. None)) False [] (er', io') = Panic s ''send on closed channel''"
proof -
  let ?er = "sample_er\<lparr>outgoingChannel := (outgoingChannel sample_er)\<lparr>cbuf := [sample_msg ''m'' ''s'' 20]\<rparr>\<rparr>"
  have c: "cbuf (outgoingChannel ?er) = sample_msg ''m'' ''s'' 20 # []" by simp
  have o: "\<not> cclosed (outgoingChannel ?er)" by (simp add: sample_er_def NewEdgeRouter_def)
  have f: "outgoing_loop 1 = outgoing_loop (Suc 0)" by simp
  from shutdown_panics_with_pending_message [OF c _ o, of "sample_env (\<lambda>_. 10) (\<lambda>_. None)" "sample_io [] (\<lambda>_. False)" 0 False "[]"]
  show ?thesis unfolding f by auto
qed



section \<open>Draining the queue\<close>

definition awaits :: "MmtpMessage \<Rightarrow> bool" where
  "awaits m \<longleftrightarrow> GetProtocolMsgType (GetProtocolMessage (Some m))
     \<in> {ProtocolMessageType_SUBSCRIBE_MESSAGE, ProtocolMessageType_UNSUBSCRIBE_MESSAGE}"

definition await_all :: "MmtpMessage list \<Rightarrow> (string, MmtpMessage) gomap \<Rightarrow> (string, MmtpMessage) gomap" where
  "await_all ms A = fold (\<lambda>m A. if awaits m then mput (Uuid m) m A else A) ms A"

definition link_up :: "Io \<Rightarrow> bool" where
  "link_up io \<longleftrightarrow> (\<exists>w. ws io = Some w \<and> (\<forall>n. \<not> writeFails w n))"

definition drained :: "MmtpMessage list \<Rightarrow> EdgeRouter \<Rightarrow> EdgeRouter" where
  "drained ms er = er\<lparr>outgoingChannel := (outgoingChannel er)\<lparr>cbuf := []\<rparr>, awaitResponse := await_all ms (awaitResponse er)\<rparr>"

lemma link_up_write:
  "link_up io \<Longrightarrow> marshal env m = Some b \<Longrightarrow>
   \<exists>io'. write_io env io m = (io', None) \<and> link_up io' \<and> framesOf io' = framesOf io @ [b]
     \<and> uuidn io' = uuidn io \<and> clockn io' = clockn io"
  by (auto simp: link_up_def write_io_def WriteMessage_def framesOf_def Let_def)

lemma outgoing_round:
  assumes "cbuf (outgoingChannel er) = m # rest" and "MsgType m = MsgType_PROTOCOL_MESSAGE"
    and "link_up io" and "marshal env m = Some b"
  shows "\<exists>io'. handleOutgoingMessages env ping dials (er, io) =
      Return (er\<lparr>outgoingChannel := (outgoingChannel er)\<lparr>cbuf := rest\<rparr>, awaitResponse := await_all [m] (awaitResponse er)\<rparr>, io') ()
    \<and> link_up io' \<and> framesOf io' = framesOf io @ [b] \<and> uuidn io' = uuidn io \<and> clockn io' = clockn io"
proof -
  from link_up_write [OF assms(3,4)] obtain io' where
    "write_io env io m = (io', None)" "link_up io'" "framesOf io' = framesOf io @ [b]"
    "uuidn io' = uuidn io" "clockn io' = clockn io" by blast
  with assms(1,2) show ?thesis
    by (intro exI [of _ io']) (auto simp: handleOutgoingMessages_def await_all_def awaits_def Let_def)
qed

lemma outgoing_drains:
  assumes "link_up io" and "cbuf (outgoingChannel er) = ms" and "length ms < fuel"
    and "\<forall>m \<in> set ms. MsgType m = MsgType_PROTOCOL_MESSAGE \<and> marshal env m \<noteq> None"
  shows "\<exists>io'. framesOf io' = framesOf io @ map (\<lambda>m. the (marshal env m)) ms \<and>
    outgoing_loop fuel env ping dials (er, io) =
      (if cclosed (outgoingChannel er) then Return (drained ms er, io') () else Wait (drained ms er, io') ''channel is empty'')"
  using assms
proof (induction ms arbitrary: er io fuel)
  case Nil
  then obtain n where "fuel = Suc n" by (cases fuel) auto
  with Nil(2) have "outgoing_loop fuel env ping dials (er, io) =
      (if cclosed (outgoingChannel er) then Return (er, io) () else Wait (er, io) ''channel is empty'')"
    by (simp add: handleOutgoingMessages_def)
  moreover have "drained [] er = er" using Nil(2) by (cases "outgoingChannel er") (simp add: drained_def await_all_def)
  ultimately show ?case by (intro exI [of _ io]) simp
next
  case (Cons m ms)
  from Cons.prems obtain n b where n: "fuel = Suc n" "length ms < n"
    and b: "MsgType m = MsgType_PROTOCOL_MESSAGE" "marshal env m = Some b" by (cases fuel) auto
  let ?er = "er\<lparr>outgoingChannel := (outgoingChannel er)\<lparr>cbuf := ms\<rparr>, awaitResponse := await_all [m] (awaitResponse er)\<rparr>"
  from outgoing_round [OF Cons.prems(2) b(1) Cons.prems(1) b(2)] obtain io1 where
    r: "handleOutgoingMessages env ping dials (er, io) = Return (?er, io1) ()"
    and io1: "link_up io1" "framesOf io1 = framesOf io @ [b]" by blast
  have q: "cbuf (outgoingChannel ?er) = ms" "\<forall>m \<in> set ms. MsgType m = MsgType_PROTOCOL_MESSAGE \<and> marshal env m \<noteq> None"
    using Cons.prems(4) by simp_all
  have "drained ms ?er = drained (m # ms) er" by (simp add: drained_def await_all_def)
  with Cons.IH [OF io1(1) q(1) n(2) q(2)] r io1(2) b(2) n(1) Cons.prems(2) show ?case by auto
qed


lemma await_all_get:
  "mget (await_all ms A) u =
     (case filter (\<lambda>m. awaits m \<and> Uuid m = u) ms of [] \<Rightarrow> mget A u | fs \<Rightarrow> Some (last fs))"
proof (induction ms rule: rev_induct)
  case (snoc m ms)
  have "await_all (ms @ [m]) A = (if awaits m then mput (Uuid m) m (await_all ms A) else await_all ms A)"
    by (simp add: await_all_def)
  with snoc show ?case by (auto split: list.splits)
qed (simp add: await_all_def)

text \<open>
  C29: while the connection to the router holds, the sending loop empties a queue of protocol
  messages that can be encoded: it writes every queued message once, in the order of the queue, so
  that a router that decodes the new frames gets exactly these messages. Of the queued requests to
  subscribe or unsubscribe with one UUID, which agents choose, the last is then registered as
  awaiting its response; under every other UUID nothing changes. Then the loop waits for more
  or, on a closed channel, ends.
\<close>

theorem outgoing_queue_roundtrip:
  assumes "link_up io" and "length (cbuf (outgoingChannel er)) < fuel"
    and "\<forall>m \<in> set (cbuf (outgoingChannel er)). MsgType m = MsgType_PROTOCOL_MESSAGE \<and> marshal env m \<noteq> None"
    and "\<forall>m \<in> set (cbuf (outgoingChannel er)). \<forall>b. marshal env m = Some b \<longrightarrow> unmarshal envR b = Some m"
  shows "\<exists>er' io' bs. outgoing_loop fuel env ping dials (er, io) =
      (if cclosed (outgoingChannel er) then Return (er', io') () else Wait (er', io') ''channel is empty'')
    \<and> cbuf (outgoingChannel er') = []
    \<and> framesOf io' = framesOf io @ bs \<and> map (unmarshal envR) bs = map Some (cbuf (outgoingChannel er))
    \<and> (\<forall>u. mget (awaitResponse er') u =
         (case filter (\<lambda>m. awaits m \<and> Uuid m = u) (cbuf (outgoingChannel er)) of
            [] \<Rightarrow> mget (awaitResponse er) u
          | requests \<Rightarrow> Some (last requests)))"
proof -
  let ?ms = "cbuf (outgoingChannel er)" and ?er = "drained (cbuf (outgoingChannel er)) er"
  from outgoing_drains [OF assms(1) refl assms(2,3), of ping dials] obtain io' where
    io': "framesOf io' = framesOf io @ map (\<lambda>m. the (marshal env m)) ?ms" and
    run: "outgoing_loop fuel env ping dials (er, io) =
      (if cclosed (outgoingChannel er) then Return (?er, io') () else Wait (?er, io') ''channel is empty'')" by blast
  have "map (unmarshal envR) (map (\<lambda>m. the (marshal env m)) ?ms) = map Some ?ms"
    using assms(3,4) by (auto simp: list_eq_iff_nth_eq)
  moreover have "awaitResponse ?er = await_all ?ms (awaitResponse er)" "cbuf (outgoingChannel ?er) = []"
    by (simp_all add: drained_def)
  ultimately show ?thesis using run io' await_all_get [of ?ms "awaitResponse er"]
    by (intro exI [of _ ?er] exI [of _ io'] exI [of _ "map (\<lambda>m. the (marshal env m)) ?ms"]) simp
qed

theorem outgoing_queue_roundtrip_witness:
  "let m1 = sample_subscribe (Subscribe_Subject ''t''); m2 = sample_subscribe (Subscribe_Subject ''v'')
   in \<exists>er' io' bs. outgoing_loop 3 ((sample_env (\<lambda>_. 10) (\<lambda>_. None))
         \<lparr>marshal := (\<lambda>x. if x = m1 then Some ''a'' else if x = m2 then Some ''b'' else None)\<rparr>) False []
       (sample_er\<lparr>outgoingChannel := (outgoingChannel sample_er)\<lparr>cbuf := [m1, m2]\<rparr>\<rparr>,
        sample_io [] (\<lambda>_. False)) = Wait (er', io') ''channel is empty''
     \<and> framesOf io' = bs \<and> length bs = 2 \<and> mget (awaitResponse er') ''sub'' = Some m2"
proof -
  let ?m1 = "sample_subscribe (Subscribe_Subject ''t'')" and ?m2 = "sample_subscribe (Subscribe_Subject ''v'')"
    and ?io = "sample_io [] (\<lambda>_. False)"
  let ?env = "(sample_env (\<lambda>_. 10) (\<lambda>_. None))
      \<lparr>marshal := (\<lambda>x. if x = ?m1 then Some ''a'' else if x = ?m2 then Some ''b'' else None)\<rparr>"
  let ?er = "sample_er\<lparr>outgoingChannel := (outgoingChannel sample_er)\<lparr>cbuf := [?m1, ?m2]\<rparr>\<rparr>"
  have l: "link_up ?io" "framesOf ?io = []" by (simp_all add: link_up_def framesOf_def sample_defs)
  have n: "length (cbuf (outgoingChannel ?er)) < 3" by simp
  have d: "?m1 \<noteq> ?m2" by (simp add: sample_subscribe_def mkProtocol_def)
  have m: "\<forall>m \<in> set (cbuf (outgoingChannel ?er)). MsgType m = MsgType_PROTOCOL_MESSAGE \<and> marshal ?env m \<noteq> None"
    "Uuid ?m1 = ''sub''" "Uuid ?m2 = ''sub''" "awaits ?m1" "awaits ?m2"
    by (simp_all add: sample_subscribe_def awaits_def)
  have c: "\<forall>m \<in> set (cbuf (outgoingChannel ?er)). \<forall>b. marshal ?env m = Some b \<longrightarrow>
      unmarshal (sample_env (\<lambda>_. 10) (\<lambda>b. if b = ''a'' then Some ?m1 else Some ?m2)) b = Some m"
    using d by (simp add: sample_defs)
  have o: "\<not> cclosed (outgoingChannel sample_er)" by (simp add: sample_er_def NewEdgeRouter_def)
  from outgoing_queue_roundtrip [OF l(1) n m(1) c, of False "[]"] obtain er' io' bs where
    r: "outgoing_loop 3 ?env False [] (?er, ?io) = Wait (er', io') ''channel is empty''" "framesOf io' = bs"
    and b: "map (unmarshal (sample_env (\<lambda>_. 10) (\<lambda>b. if b = ''a'' then Some ?m1 else Some ?m2))) bs = map Some [?m1, ?m2]"
    and g: "mget (awaitResponse er') ''sub'' = Some ?m2"
    using o l(2) m(2-5) by auto
  from arg_cong [OF b, of length] have "length bs = 2" by simp
  with r g show ?thesis unfolding Let_def by blast
qed

end
