(* ===== verification/MmsRouter.thy ===== *)
theory MmsRouter
  imports Session
begin

text \<open>
  router/router.go: the MMS Router, which serves edge routers on websockets and exchanges their
  messages with other routers over libp2p publish/subscribe. Its locks are part of the state,
  because handleSend does not free them on every path. Names that the edge router has too carry
  the suffix \<open>_R\<close>.
\<close>

section \<open>Locks\<close>

text \<open>
  A \<open>sync.RWMutex\<close> between two steps: the read locks a handler left behind, and whether a
  writer holds it or waits for it for ever. A waiting writer keeps new readers out.
\<close>

record RWMutex =
  readers :: nat
  writer :: bool

definition newRWMutex :: RWMutex where
  "newRWMutex = \<lparr>readers = 0, writer = False\<rparr>"

definition RLock :: "RWMutex \<Rightarrow> RWMutex option" where
  "RLock mu = (if writer mu then None else Some (mu\<lparr>readers := Suc (readers mu)\<rparr>))"

definition RUnlock :: "RWMutex \<Rightarrow> RWMutex" where
  "RUnlock mu = mu\<lparr>readers := readers mu - 1\<rparr>"

text \<open>\<open>None\<close>: the caller waits, which \<open>Lock_waits\<close> records.\<close>

definition Lock :: "RWMutex \<Rightarrow> RWMutex option" where
  "Lock mu = (if readers mu = 0 \<and> \<not> writer mu then Some (mu\<lparr>writer := True\<rparr>) else None)"

definition Lock_waits :: "RWMutex \<Rightarrow> RWMutex" where
  "Lock_waits mu = mu\<lparr>writer := True\<rparr>"

definition Unlock :: "RWMutex \<Rightarrow> RWMutex" where
  "Unlock mu = mu\<lparr>writer := False\<rparr>"

section \<open>State\<close>

text \<open>
  The EdgeRouter struct of the router is a Consumer and nothing else. Its pointers are
  addresses of \<open>erHeap\<close>. A \<open>pubsub.Topic\<close> is known by its name. \<open>published\<close> and \<open>running\<close>
  record what was published on which topic and the subscriptions with a handleSubscription.
\<close>

record Subscription_R =
  Interest_R :: string
  Subscribers_R :: "(string, nat) gomap"
  Topic :: "string option"
  subsMu :: RWMutex

record MMSRouter =
  subscriptions_R :: "(string, Subscription_R) gomap"
  subMu :: RWMutex
  edgeRouters :: "(string, nat) gomap"
  erMu :: RWMutex
  erHeap :: "nat \<Rightarrow> Consumer"
  nextEr :: nat
  topicHandles :: "(string, string) gomap"
  incomingChannel :: "MmtpMessage Chan"
  outgoingChannel_R :: "MmtpMessage Chan"
  published :: "(string \<times> bytes) list"
  running :: "string list"

text \<open>The libp2p library: whether a call succeeds, and the identity of this host.\<close>

record P2P =
  joins :: "string \<Rightarrow> bool"
  subscribes :: "string \<Rightarrow> bool"
  publishes :: "string \<Rightarrow> bytes \<Rightarrow> bool"
  uuidVersion4 :: "string \<Rightarrow> bool"
  hostID :: string

definition MessageSizeLimit_R :: nat where "MessageSizeLimit_R = 50 * 1024"
definition ExpirationLimit_R :: int where "ExpirationLimit_R = 60 * 60 * 24 * 30"
definition ChannelBufSize_R :: nat where "ChannelBufSize_R = 1048576"

definition NewSubscription_R :: "string \<Rightarrow> Subscription_R" where
  "NewSubscription_R interest =
     \<lparr>Interest_R = interest, Subscribers_R = [], Topic = None, subsMu = newRWMutex\<rparr>"

definition AddSubscriber_R :: "(nat \<Rightarrow> Consumer) \<Rightarrow> nat \<Rightarrow> Subscription_R \<Rightarrow> Subscription_R" where
  "AddSubscriber_R h e sub = sub\<lparr>Subscribers_R := mput (Mrn (h e)) e (Subscribers_R sub)\<rparr>"

definition DeleteSubscriber_R :: "(nat \<Rightarrow> Consumer) \<Rightarrow> nat \<Rightarrow> Subscription_R \<Rightarrow> Subscription_R" where
  "DeleteSubscriber_R h e sub = sub\<lparr>Subscribers_R := mdel (Mrn (h e)) (Subscribers_R sub)\<rparr>"

interpretation rs: subscription_set NewSubscription_R "AddSubscriber_R h" "DeleteSubscriber_R h"
    "\<lambda>sub. mget (Subscribers_R sub)" "\<lambda>e. Mrn (h e)" Interest_R
  for h :: "nat \<Rightarrow> Consumer"
  by unfold_locales
    (auto simp: NewSubscription_R_def AddSubscriber_R_def DeleteSubscriber_R_def fun_eq_iff)

definition NewMMSRouter :: MMSRouter where
  "NewMMSRouter = \<lparr>subscriptions_R = [], subMu = newRWMutex, edgeRouters = [], erMu = newRWMutex,
     erHeap = (\<lambda>_. new_consumer ''''), nextEr = 0, topicHandles = [],
     incomingChannel = \<lparr>cbuf = [], ccap = ChannelBufSize_R, cclosed = False\<rparr>,
     outgoingChannel_R = \<lparr>cbuf = [], ccap = ChannelBufSize_R, cclosed = False\<rparr>,
     published = [], running = []\<rparr>"

definition upd_er :: "nat \<Rightarrow> (Consumer \<Rightarrow> Consumer) \<Rightarrow> MMSRouter \<Rightarrow> MMSRouter" where
  "upd_er e f r = r\<lparr>erHeap := (erHeap r)(e := f (erHeap r e))\<rparr>"

definition r_send :: "MMSRouter \<Rightarrow> MmtpMessage \<Rightarrow> (MMSRouter, unit) result" where
  "r_send r m =
     bind_result (chan_send (outgoingChannel_R r) m)
       (\<lambda>ch _. Return (r\<lparr>outgoingChannel_R := ch\<rparr>) ()) (\<lambda>ch. r)"

type_synonym r_state = "MMSRouter \<times> Io"

definition lock_waits :: string where "lock_waits = ''lock is held''"

text \<open>
  Critical sections of one step: \<open>subMu.RLock\<close> to \<open>subMu.RUnlock\<close> around code that cannot leave
  early leaves no trace, and only waits if a writer does.
\<close>

definition reading :: "RWMutex \<Rightarrow> 's \<Rightarrow> ('s, 'a) result \<Rightarrow> ('s, 'a) result" where
  "reading mu s body = (case RLock mu of None \<Rightarrow> Wait s lock_waits | Some _ \<Rightarrow> body)"

section \<open>Subscribing\<close>

text \<open>
  AddSubscriber and DeleteSubscriber with their lock, called while subMu is locked for writing:
  if the lock of the subscription is held, the caller waits with subMu.
\<close>

definition locked_sub ::
    "string \<Rightarrow> (Subscription_R \<Rightarrow> Subscription_R) \<Rightarrow> Subscription_R \<Rightarrow> MMSRouter \<Rightarrow> (MMSRouter, Subscription_R) result" where
  "locked_sub subject f sub r =
     (case Lock (subsMu sub) of
        Some _ \<Rightarrow> Return r (f sub)
      | None \<Rightarrow> Wait (r\<lparr>subMu := Lock_waits (subMu r),
                       subscriptions_R := mput subject (sub\<lparr>subsMu := Lock_waits (subsMu sub)\<rparr>) (subscriptions_R r)\<rparr>)
                    lock_waits)"

text \<open>A new subscription: join the topic unless it is joined, subscribe, and start the reader.\<close>

definition open_subscription ::
    "P2P \<Rightarrow> string \<Rightarrow> nat \<Rightarrow> MMSRouter \<Rightarrow> MMSRouter \<times> (string \<times> error) option" where
  "open_subscription p2p subject e r =
     (case (case mget (topicHandles r) subject of
              Some topic \<Rightarrow> Inr (topic, topicHandles r)
            | None \<Rightarrow> if joins p2p subject then Inr (subject, mput subject subject (topicHandles r))
                      else Inl (Wrapf ''was not able to join topic'' (Extern ''pubsub''))) of
        Inl err \<Rightarrow> (r, Some (''Subscription failed'', err))
      | Inr (topic, handles) \<Rightarrow>
          (let r = r\<lparr>topicHandles := handles\<rparr>;
               sub = (AddSubscriber_R (erHeap r) e (NewSubscription_R subject))\<lparr>Topic := Some topic\<rparr>
           in if \<not> subscribes p2p topic
              then (r, Some (''Subscription failed'', Wrapf ''was not able to subscribe to topic'' (Extern ''pubsub'')))
              else (r\<lparr>running := running r @ [topic],
                      subscriptions_R := mput subject sub (subscriptions_R r)\<rparr>, None)))"

text \<open>The value is the pair of error text and error of the Go function.\<close>

definition handleSubscribe_R ::
    "Env \<Rightarrow> P2P \<Rightarrow> MmtpMessage \<Rightarrow> nat \<Rightarrow> r_state \<Rightarrow> (r_state, (string \<times> error) option) result" where
  "handleSubscribe_R env p2p mmtpMessage e s =
     (let (r, io) = s
      in case GetSubscribeMessage (GetProtocolMessage (Some mmtpMessage)) of
           None \<Rightarrow> Return (r, io) None
         | Some subscribe \<Rightarrow>
             (let subject = Subscribe_GetSubject (Some subscribe);
                  finish = (\<lambda>r.
                    let r = upd_er e (\<lambda>c. c\<lparr>Interests := Interests c @ [subject]\<rparr>) r;
                        (io, err) = respond env io (goodResponse (GetUuid (Some mmtpMessage)))
                    in Return (r, io) None)
              in if subject = ''''
                 then Return (r, io) (Some (''Cannot subscribe to empty subject'', Errorf ''cannot subscribe to empty subject''))
                 else (case Lock (subMu r) of
                         None \<Rightarrow> Wait (r\<lparr>subMu := Lock_waits (subMu r)\<rparr>, io) lock_waits
                       | Some _ \<Rightarrow>
                           (case mget (subscriptions_R r) subject of
                              None \<Rightarrow>
                                (case open_subscription p2p subject e r of
                                   (r, Some err) \<Rightarrow> Return (r, io) (Some err)
                                 | (r, None) \<Rightarrow> finish r)
                            | Some sub \<Rightarrow>
                                bind_result (locked_sub subject (AddSubscriber_R (erHeap r) e) sub r)
                                  (\<lambda>r sub. finish (r\<lparr>subscriptions_R := mput subject sub (subscriptions_R r)\<rparr>))
                                  (\<lambda>r. (r, io))))))"

definition handleUnsubscribe_R ::
    "Env \<Rightarrow> MmtpMessage \<Rightarrow> nat \<Rightarrow> r_state \<Rightarrow> (r_state, error option) result" where
  "handleUnsubscribe_R env mmtpMessage e s =
     (let (r, io) = s;
          uid = GetUuid (Some mmtpMessage);
          write = (\<lambda>r resp. let (io, err) = respond env io resp
                            in Return (r, io) (map_option (Wrapf ''could not write response to unsubscribe message'') err))
      in case GetUnsubscribeMessage (GetProtocolMessage (Some mmtpMessage)) of
           None \<Rightarrow> write r (errorResponse uid ''Message does not contain a Unsubscribe message'')
         | Some unsubscribe \<Rightarrow>
             (let subject = Unsubscribe_GetSubject (Some unsubscribe);
                  finish = (\<lambda>r. write (upd_er e (\<lambda>c. c\<lparr>Interests := swap_remove subject (Interests c)\<rparr>) r) (goodResponse uid))
              in if subject = '''' then write r (errorResponse uid ''Tried to unsubscribe to empty subject'')
                 else (case Lock (subMu r) of
                         None \<Rightarrow> Wait (r\<lparr>subMu := Lock_waits (subMu r)\<rparr>, io) lock_waits
                       | Some _ \<Rightarrow>
                           (case mget (subscriptions_R r) subject of
                              None \<Rightarrow> finish r
                            | Some sub \<Rightarrow>
                                bind_result (locked_sub subject (DeleteSubscriber_R (erHeap r) e) sub r)
                                  (\<lambda>r sub. finish (r\<lparr>subscriptions_R := mput subject sub (subscriptions_R r)\<rparr>))
                                  (\<lambda>r. (r, io))))))"


section \<open>Sending\<close>

text \<open>
  The loop over the subscribers of one subscription, skipping the sender; False if a message
  could not be queued, where handleSend returns at once.
\<close>

fun send_subscribers :: "MmtpMessage \<Rightarrow> nat \<Rightarrow> nat list \<Rightarrow> (nat \<Rightarrow> Consumer) \<Rightarrow> (nat \<Rightarrow> Consumer) \<times> bool" where
  "send_subscribers m e [] h = (h, True)"
| "send_subscribers m e (er # ers) h =
     (if Mrn (h er) \<noteq> Mrn (h e)
      then (case QueueMessage (Some (h er)) m of
              Inl _ \<Rightarrow> (h, False)
            | Inr c \<Rightarrow> send_subscribers m e ers (h(er := c)))
      else send_subscribers m e ers h)"

text \<open>
  The loop over the recipients, with the erMu read lock held. A return out of the inner loop
  leaves that lock and the one of the subscription behind.
\<close>

fun send_recipients :: "MmtpMessage \<Rightarrow> nat \<Rightarrow> string list \<Rightarrow> MMSRouter \<Rightarrow> (MMSRouter, bool) result" where
  "send_recipients m e [] r = Return r True"
| "send_recipients m e (recipient # rs) r =
     (case RLock (subMu r) of
        None \<Rightarrow> Wait r lock_waits
      | Some _ \<Rightarrow>
          (case mget (subscriptions_R r) recipient of
             None \<Rightarrow> send_recipients m e rs r
           | Some sub \<Rightarrow>
               (case RLock (subsMu sub) of
                  None \<Rightarrow> Wait r lock_waits
                | Some mu \<Rightarrow>
                    (case send_subscribers m e (map snd (Subscribers_R sub)) (erHeap r) of
                       (h, True) \<Rightarrow> send_recipients m e rs (r\<lparr>erHeap := h\<rparr>)
                     | (h, False) \<Rightarrow>
                         Return (r\<lparr>erHeap := h,
                           subscriptions_R := mput recipient (sub\<lparr>subsMu := mu\<rparr>) (subscriptions_R r)\<rparr>) False))))"

definition handleSend_R :: "Env \<Rightarrow> MmtpMessage \<Rightarrow> nat \<Rightarrow> r_state \<Rightarrow> (r_state, unit) result" where
  "handleSend_R env mmtpMessage e s =
     (let (r, io) = s
      in case GetSendMessage (GetProtocolMessage (Some mmtpMessage)) of
           None \<Rightarrow> Return (r, io) ()
         | Some send \<Rightarrow>
             (let header = GetHeader (GetApplicationMessage (Some send));
                  recipients = GetRecipients_list (GetRecipients header);
                  answer = (\<lambda>r. Return (r, fst (respond env io (goodResponse (GetUuid (Some mmtpMessage))))) ())
              in bind_result (r_send r mmtpMessage)
                   (\<lambda>r _.
                      if length recipients > 0
                      then (case RLock (erMu r) of
                              None \<Rightarrow> Wait (r, io) lock_waits
                            | Some mu \<Rightarrow>
                                bind_result (send_recipients mmtpMessage e recipients (r\<lparr>erMu := mu\<rparr>))
                                  (\<lambda>r done_all. if done_all then answer (r\<lparr>erMu := RUnlock (erMu r)\<rparr>) else Return (r, io) ())
                                  (\<lambda>r. (r, io)))
                      else if GetSubject header \<noteq> ''''
                      then (case RLock (subMu r) of
                              None \<Rightarrow> Wait (r, io) lock_waits
                            | Some mu \<Rightarrow>
                                (case mget (subscriptions_R r) (GetSubject header) of
                                   None \<Rightarrow> answer r
                                 | Some sub \<Rightarrow>
                                     (case send_subscribers mmtpMessage e (map snd (Subscribers_R sub)) (erHeap r) of
                                        (h, True) \<Rightarrow> answer (r\<lparr>erHeap := h\<rparr>)
                                      | (h, False) \<Rightarrow> Return (r\<lparr>erHeap := h, subMu := mu\<rparr>, io) ())))
                      else answer r)
                   (\<lambda>r. (r, io))))"

section \<open>The connection of an edge router\<close>

definition alloc_er :: "string \<Rightarrow> MMSRouter \<Rightarrow> nat \<times> MMSRouter" where
  "alloc_er mrn r = (nextEr r, r\<lparr>erHeap := (erHeap r)(nextEr r := new_consumer mrn), nextEr := Suc (nextEr r)\<rparr>)"

text \<open>
  Which EdgeRouter the session gets: a Connect with a reconnect token looks for the one of the
  same MRN. An error response that can be written does not end the handler. The value is None
  when the handler returned.
\<close>

definition find_er :: "Env \<Rightarrow> string \<Rightarrow> string \<Rightarrow> Connect \<Rightarrow> r_state \<Rightarrow> (r_state, nat option) result" where
  "find_er env uid erMrn connect s =
     (let (r, io) = s
      in if Connect_ReconnectToken connect \<noteq> None
         then reading (erMu r) (r, io)
           (case mget (edgeRouters r) erMrn of
              None \<Rightarrow>
                (case respond env io (errorResponse uid ''No existing session was found for the given MRN'') of
                   (io, Some _) \<Rightarrow> Return (r, io) None
                 | (io, None) \<Rightarrow> Panic (r, io) nil_deref)
            | Some e \<Rightarrow>
                if GetReconnectToken (Some connect) \<noteq> ReconnectToken (erHeap r e)
                then (case respond env io (errorResponse uid ''The given reconnect token does not match the one that is stored'') of
                        (io, Some _) \<Rightarrow> Return (r, io) None
                      | (io, None) \<Rightarrow> Return (r, io) (Some e))
                else Return (r, io) (Some e))
         else (let (e, r) = alloc_er erMrn r in Return (r, io) (Some e)))"

definition register_er :: "Env \<Rightarrow> string \<Rightarrow> nat \<Rightarrow> r_state \<Rightarrow> (r_state, nat option) result" where
  "register_er env uid e s =
     (let (r, io) = s;
          (token, io) = NewString env io;
          r = upd_er e (\<lambda>c. c\<lparr>ReconnectToken := token\<rparr>) r
      in case Lock (erMu r) of
           None \<Rightarrow> Wait (r\<lparr>erMu := Lock_waits (erMu r)\<rparr>, io) lock_waits
         | Some _ \<Rightarrow>
             (let r = r\<lparr>edgeRouters := mput (Mrn (erHeap r e)) e (edgeRouters r)\<rparr>;
                  (io, err) = respond env io ((goodResponse uid)\<lparr>RM_ReconnectToken := Some token\<rparr>)
              in Return (r, io) (case err of Some _ \<Rightarrow> None | None \<Rightarrow> Some e)))"

definition connect_R :: "Env \<Rightarrow> Request \<Rightarrow> r_state \<Rightarrow> (r_state, nat option) result" where
  "connect_R env request s =
     (let (r, io) = s;
          (c, rd) = ReadMessage env (ws io);
          io = io\<lparr>ws := c\<rparr>;
          refuse = (\<lambda>code reason. Return (r, close_log code reason io) None)
      in case rd of
           Inl _ \<Rightarrow> refuse StatusUnsupportedData ''The first message could not be parsed as an MMTP message''
         | Inr (mmtpMessage, _) \<Rightarrow>
             if MsgType mmtpMessage \<noteq> MsgType_PROTOCOL_MESSAGE \<or> GetProtocolMessage (Some mmtpMessage) = None
             then refuse StatusUnsupportedData ''The first message needs to be a Protocol Message containing a Connect message with the MRN of the Edge Router''
             else (case GetConnectMessage (GetProtocolMessage (Some mmtpMessage)) of
                     None \<Rightarrow> refuse StatusUnsupportedData ''The first message needs to contain a Connect message with the MRN of the Edge Router''
                   | Some connect \<Rightarrow>
                       if GetOwnMrn (Some connect) = ''''
                       then refuse StatusUnsupportedData ''The first message needs to be a Connect message with the MRN of the Edge Router''
                       else (let erMrn = ToLower (GetOwnMrn (Some connect));
                                 uid = GetUuid (Some mmtpMessage)
                             in case AuthenticateConsumer request erMrn of
                                  (_, _, Some err) \<Rightarrow> Return (r, reject_auth err io) None
                                | (_, auth, None) \<Rightarrow>
                                    if \<not> auth then refuse StatusPolicyViolation ''Could not authenticate Edge Router''
                                    else bind_result (find_er env uid erMrn connect (r, io))
                                           (\<lambda>s x. case x of None \<Rightarrow> Return s None | Some e \<Rightarrow> register_er env uid e s)
                                           (\<lambda>s. s))))"

definition on_er ::
    "nat \<Rightarrow> (Consumer \<times> Io \<Rightarrow> (Consumer \<times> Io, 'a) result) \<Rightarrow> r_state \<Rightarrow> (r_state, 'a) result" where
  "on_er e f s =
     (let (r, io) = s
      in bind_result (f (erHeap r e, io))
           (\<lambda>(c, io) x. Return (upd_er e (\<lambda>_. c) r, io) x)
           (\<lambda>(c, io). (upd_er e (\<lambda>_. c) r, io)))"

definition handle_message_R ::
    "Env \<Rightarrow> P2P \<Rightarrow> nat \<Rightarrow> MmtpMessage \<Rightarrow> nat \<Rightarrow> r_state \<Rightarrow> (r_state, bool) result" where
  "handle_message_R env p2p e mmtpMessage n s =
     (let (r, io) = s;
          uid = GetUuid (Some mmtpMessage);
          go_on = (\<lambda>x. bind_result x (\<lambda>s _. Return s True) (\<lambda>s. s))
      in case GetMsgType (Some mmtpMessage) of
           MsgType_PROTOCOL_MESSAGE \<Rightarrow>
             (case GetProtocolMessage (Some mmtpMessage) of
                None \<Rightarrow> Return s True
              | Some protoMessage \<Rightarrow>
                  (case ProtocolMsgType protoMessage of
                     ProtocolMessageType_SUBSCRIBE_MESSAGE \<Rightarrow>
                       bind_result (handleSubscribe_R env p2p mmtpMessage e s)
                         (\<lambda>(r, io) x. case x of
                            None \<Rightarrow> Return (r, io) True
                          | Some (errorText, _) \<Rightarrow> Return (r, SendErrorMessage env uid errorText io) True)
                         (\<lambda>s. s)
                   | ProtocolMessageType_UNSUBSCRIBE_MESSAGE \<Rightarrow> go_on (handleUnsubscribe_R env mmtpMessage e s)
                   | ProtocolMessageType_SEND_MESSAGE \<Rightarrow>
                       if n > MessageSizeLimit_R
                       then Return (r, SendErrorMessage env uid ''The message size exceeds the allowed 50 KiB'' io) True
                       else bind_result (handleSend_R env mmtpMessage e s) (\<lambda>s _. Return s True) (\<lambda>s. s)
                   | ProtocolMessageType_RECEIVE_MESSAGE \<Rightarrow> go_on (on_er e (HandleReceive env mmtpMessage) s)
                   | ProtocolMessageType_FETCH_MESSAGE \<Rightarrow> go_on (on_er e (HandleFetch env mmtpMessage) s)
                   | ProtocolMessageType_DISCONNECT_MESSAGE \<Rightarrow>
                       Return (r, fst (HandleDisconnect env mmtpMessage io)) False
                   | ProtocolMessageType_CONNECT_MESSAGE \<Rightarrow>
                       Return (r, SendErrorMessage env uid ''Already connected'' io) True
                   | _ \<Rightarrow> Return s True))
         | _ \<Rightarrow> Return s True)"


section \<open>libp2p\<close>

text \<open>
  One message of handleSubscription: \<open>from\<close> is its peer. Accepted messages go to the incoming
  channel.
\<close>

definition handleSubscription :: "Env \<Rightarrow> P2P \<Rightarrow> string \<Rightarrow> bytes \<Rightarrow> MMSRouter \<Rightarrow> (MMSRouter, unit) result" where
  "handleSubscription env p2p from data r =
     (if from \<noteq> hostID p2p
      then (case unmarshal env data of
              None \<Rightarrow> Return r ()
            | Some mmtpMessage \<Rightarrow>
                if \<not> uuidValid env (GetUuid (Some mmtpMessage)) \<or> \<not> uuidVersion4 p2p (GetUuid (Some mmtpMessage))
                then Return r ()
                else if GetMsgType (Some mmtpMessage) = MsgType_PROTOCOL_MESSAGE
                then (case GetSendMessage (GetProtocolMessage (Some mmtpMessage)) of
                        None \<Rightarrow> Return r ()
                      | Some _ \<Rightarrow>
                          bind_result (chan_send (incomingChannel r) mmtpMessage)
                            (\<lambda>ch _. Return (r\<lparr>incomingChannel := ch\<rparr>) ()) (\<lambda>ch. r))
                else Return r ())
      else Return r ())"

text \<open>
  One round of handleIncomingMessages. A subject without a subscription gives a nil pointer,
  whose field access panics with the read lock held.
\<close>

definition queue_subscription :: "MmtpMessage \<Rightarrow> string \<Rightarrow> MMSRouter \<Rightarrow> (MMSRouter, unit) result" where
  "queue_subscription m subject r =
     (case RLock (subMu r) of
        None \<Rightarrow> Wait r lock_waits
      | Some mu \<Rightarrow>
          (case mget (subscriptions_R r) subject of
             None \<Rightarrow> Panic (r\<lparr>subMu := mu\<rparr>) nil_deref
           | Some sub \<Rightarrow> Return (r\<lparr>erHeap := queue_all m (map snd (Subscribers_R sub)) (erHeap r)\<rparr>) ()))"

fun queue_recipients :: "MmtpMessage \<Rightarrow> string list \<Rightarrow> MMSRouter \<Rightarrow> (MMSRouter, unit) result" where
  "queue_recipients m [] r = Return r ()"
| "queue_recipients m (recipient # rs) r =
     (case queue_subscription m recipient r of
        Return r _ \<Rightarrow> queue_recipients m rs r
      | Panic r w \<Rightarrow> Panic r w
      | Wait r w \<Rightarrow> Wait r w)"

definition handleIncomingMessages_R :: "Env \<Rightarrow> r_state \<Rightarrow> (r_state, unit) result" where
  "handleIncomingMessages_R env s =
     (let (r, io) = s
      in case cbuf (incomingChannel r) of
           [] \<Rightarrow> if cclosed (incomingChannel r) then Return s () else Wait s ''channel is empty''
         | incomingMessage # rest \<Rightarrow>
             (let r = r\<lparr>incomingChannel := (incomingChannel r)\<lparr>cbuf := rest\<rparr>\<rparr>
              in if GetMsgType (Some incomingMessage) \<noteq> MsgType_PROTOCOL_MESSAGE then Return (r, io) ()
                 else (let (now, io) = NowUnix env io;
                           appMsg = appMsgOf incomingMessage;
                           msgExpires = GetExpires (GetHeader appMsg);
                           run = (\<lambda>x. bind_result x (\<lambda>r _. Return (r, io) ()) (\<lambda>r. (r, io)))
                       in if appMsg = None \<or> now > msgExpires \<or> msgExpires > now + ExpirationLimit_R
                          then Return (r, io) ()
                          else (case GetSubjectOrRecipient (GetHeader appMsg) of
                                  Some (ApplicationMessageHeader_Subject subject) \<Rightarrow>
                                    run (queue_subscription incomingMessage subject r)
                                | Some (ApplicationMessageHeader_Recipients recipients) \<Rightarrow>
                                    run (queue_recipients incomingMessage (GetRecipients_list recipients) r)
                                | None \<Rightarrow> Return (r, io) ()))))"

text \<open>Publishing on one topic, which is joined first unless it is; errors are only logged.\<close>

definition publish :: "P2P \<Rightarrow> bytes \<Rightarrow> string \<Rightarrow> MMSRouter \<Rightarrow> MMSRouter" where
  "publish p2p msgBytes subject r =
     (case (case mget (topicHandles r) subject of
              Some topic \<Rightarrow> Some (topic, topicHandles r)
            | None \<Rightarrow> if joins p2p subject then Some (subject, mput subject subject (topicHandles r)) else None) of
        None \<Rightarrow> r
      | Some (topic, handles) \<Rightarrow>
          r\<lparr>topicHandles := handles,
            published := (if publishes p2p topic msgBytes then published r @ [(topic, msgBytes)] else published r)\<rparr>)"

definition handleOutgoingMessages_R :: "Env \<Rightarrow> P2P \<Rightarrow> MMSRouter \<Rightarrow> (MMSRouter, unit) result" where
  "handleOutgoingMessages_R env p2p r =
     (case cbuf (outgoingChannel_R r) of
        [] \<Rightarrow> if cclosed (outgoingChannel_R r) then Return r () else Wait r ''channel is empty''
      | outgoingMessage # rest \<Rightarrow>
          Return
           (let r = r\<lparr>outgoingChannel_R := (outgoingChannel_R r)\<lparr>cbuf := rest\<rparr>\<rparr>;
                appMsg = appMsgOf outgoingMessage
            in if GetMsgType (Some outgoingMessage) \<noteq> MsgType_PROTOCOL_MESSAGE \<or> appMsg = None then r
               else (case marshal env outgoingMessage of
                       None \<Rightarrow> r
                     | Some msgBytes \<Rightarrow>
                         (case GetSubjectOrRecipient (GetHeader appMsg) of
                            Some (ApplicationMessageHeader_Subject subject) \<Rightarrow> publish p2p msgBytes subject r
                          | Some (ApplicationMessageHeader_Recipients recipients) \<Rightarrow>
                              fold (publish p2p msgBytes) (GetRecipients_list recipients) r
                          | None \<Rightarrow> r))) ())"

fun gc_ers :: "int \<Rightarrow> (string \<times> nat) list \<Rightarrow> (nat \<Rightarrow> Consumer) \<Rightarrow> (nat \<Rightarrow> Consumer)" where
  "gc_ers now [] h = h"
| "gc_ers now ((_, e) # es) h = gc_ers now es (h(e := gc_consumer now (h e)))"

definition messageGC_R :: "Env \<Rightarrow> r_state \<Rightarrow> (r_state, unit) result" where
  "messageGC_R env s =
     (let (r, io) = s
      in reading (erMu r) s
           (let (now, io) = NowUnix env io
            in Return (r\<lparr>erHeap := gc_ers now (edgeRouters r) (erHeap r)\<rparr>, io) ()))"

section \<open>Handlers leave the input alone\<close>

lemma same_inbox_bind:
  "same_inbox io r \<Longrightarrow> (\<And>e io' x. r = Return (e, io') x \<Longrightarrow> inboxOf io' = inboxOf io \<Longrightarrow> same_inbox io (f (e, io') x)) \<Longrightarrow>
   same_inbox io (bind_result r f (\<lambda>s. s))"
  by (cases r) (auto simp: same_inbox_def)

lemma same_inbox_lift:
  "inboxOf io' = inboxOf io \<Longrightarrow> (\<And>r x. same_inbox io (f r x)) \<Longrightarrow>
   same_inbox io (bind_result m f (\<lambda>r. (r, io')))"
  by (cases m) auto

lemma on_er_inbox:
  "(\<And>c. inboxOf (snd (state_of (f (c, io)))) = inboxOf io) \<Longrightarrow> same_inbox io (on_er e f (r, io))"
proof -
  assume "\<And>c. inboxOf (snd (state_of (f (c, io)))) = inboxOf io"
  from this [of "erHeap r e"] show ?thesis
    by (cases "f (erHeap r e, io)") (auto simp: on_er_def)
qed

lemma handleSubscribe_R_inbox: "same_inbox io (handleSubscribe_R env p2p m e (r, io))"
  by (auto simp: handleSubscribe_R_def Let_def split: option.split prod.split
      intro!: same_inbox_lift dest!: inbox_facts)

lemma handleUnsubscribe_R_inbox: "same_inbox io (handleUnsubscribe_R env m e (r, io))"
  by (auto simp: handleUnsubscribe_R_def Let_def split: option.split prod.split
      intro!: same_inbox_lift dest!: inbox_facts)

lemma handleSend_R_inbox: "same_inbox io (handleSend_R env m e (r, io))"
  by (auto simp: handleSend_R_def Let_def respond_frame split: option.split prod.split bool.split
      intro!: same_inbox_lift)

lemma handle_message_R_same_inbox: "same_inbox io (handle_message_R env p2p e m n (r, io))"
proof -
  obtain io1 e1 where d: "HandleDisconnect env m io = (io1, e1)" by fastforce
  then have di: "inboxOf io1 = inboxOf io" using HandleDisconnect_inbox [of env m io] by simp
  note steps = handleUnsubscribe_R_inbox handleSend_R_inbox
    on_er_inbox [of "HandleReceive env m" io e r, OF HandleReceive_inbox]
    on_er_inbox [of "HandleFetch env m" io e r, OF HandleFetch_inbox]
  show ?thesis
    by (auto simp: handle_message_R_def d di Let_def
        intro!: same_inbox_go_on steps same_inbox_bind [OF handleSubscribe_R_inbox]
        split: MsgType.split option.split ProtocolMessageType.split prod.split)
qed

lemma handle_message_R_inbox:
  "handle_message_R env p2p e m n (r, io) = Return (r', io') x \<Longrightarrow> inboxOf io' = inboxOf io"
  using handle_message_R_same_inbox [of io env p2p e m n r] by simp

section \<open>The whole connection handler\<close>

function er_loop :: "Env \<Rightarrow> P2P \<Rightarrow> nat \<Rightarrow> r_state \<Rightarrow> (r_state, unit) result" where
  "er_loop env p2p e (r, io) =
     (case ReadMessage env (ws io) of
        (c, Inl _) \<Rightarrow> Return (r, read_failed env (io\<lparr>ws := c\<rparr>)) ()
      | (c, Inr (mmtpMessage, n)) \<Rightarrow>
          (case handle_message_R env p2p e mmtpMessage n (r, io\<lparr>ws := c\<rparr>) of
             Return s goes_on \<Rightarrow> if goes_on then er_loop env p2p e s else Return s ()
           | Panic s w \<Rightarrow> Panic s w
           | Wait s w \<Rightarrow> Wait s w))"
  by pat_completeness auto

termination
proof (relation "measure (\<lambda>(_, _, _, _, io). length (inboxOf io))")
  fix env p2p e r io c m n goes_on and x :: "error + MmtpMessage \<times> nat" and z :: "MmtpMessage \<times> nat" and s :: r_state
  assume rd: "(c, x) = ReadMessage env (ws io)" "x = Inr z" "(m, n) = z"
    and hm: "handle_message_R env p2p e m n (r, io\<lparr>ws := c\<rparr>) = Return s goes_on"
  obtain r' io' where s: "s = (r', io')" by (cases s)
  from hm s have "inboxOf io' = inboxOf (io\<lparr>ws := c\<rparr>)" by (auto dest: handle_message_R_inbox)
  moreover have "length (inboxOf (io\<lparr>ws := c\<rparr>)) < length (inboxOf io)"
    using rd ReadMessage_inbox [of env io c "(m, n)"] by simp
  ultimately show "((env, p2p, e, s), env, p2p, e, r, io) \<in> measure (\<lambda>(_, _, _, _, io). length (inboxOf io))"
    using s by simp
qed simp

declare er_loop.simps [simp del]

definition handleHttpConnection_R :: "Env \<Rightarrow> P2P \<Rightarrow> Request \<Rightarrow> r_state \<Rightarrow> (r_state, unit) result" where
  "handleHttpConnection_R env p2p request s =
     (let close = (\<lambda>(r, io). (r, close_log StatusInternalError ''PANIC!!!'' io));
          ending = (\<lambda>x. case x of Return s _ \<Rightarrow> Return (close s) () | Panic s w \<Rightarrow> Panic (close s) w | Wait s w \<Rightarrow> Wait s w)
      in case connect_R env request s of
           Return s (Some e) \<Rightarrow> ending (er_loop env p2p e s)
         | Return s None \<Rightarrow> ending (Return s ())
         | Panic s w \<Rightarrow> ending (Panic s w)
         | Wait s w \<Rightarrow> Wait s w)"


section \<open>The invariant\<close>

definition sub_R_ok :: "(nat \<Rightarrow> Consumer) \<Rightarrow> nat \<Rightarrow> string \<Rightarrow> Subscription_R \<Rightarrow> bool" where
  "sub_R_ok h n subject sub \<longleftrightarrow> subject \<noteq> '''' \<and> Interest_R sub = subject \<and> keys_ok (Subscribers_R sub)
     \<and> all_entries (\<lambda>mrn e. e < n \<and> Mrn (h e) = mrn) (Subscribers_R sub)"

definition r_ok :: "MMSRouter \<Rightarrow> bool" where
  "r_ok r \<longleftrightarrow> (\<forall>e. consumer_ok (erHeap r e))
     \<and> keys_ok (edgeRouters r)
     \<and> all_entries (\<lambda>mrn e. mrn \<noteq> '''' \<and> e < nextEr r \<and> Mrn (erHeap r e) = mrn) (edgeRouters r)
     \<and> keys_ok (subscriptions_R r) \<and> all_entries (sub_R_ok (erHeap r) (nextEr r)) (subscriptions_R r)
     \<and> (\<forall>e < nextEr r. Mrn (erHeap r e) \<noteq> '''')"

definition keeps_R :: "MMSRouter \<Rightarrow> MMSRouter \<Rightarrow> bool" where
  "keeps_R r r' \<longleftrightarrow> r_ok r' \<and> nextEr r \<le> nextEr r' \<and> (\<forall>e < nextEr r. Mrn (erHeap r' e) = Mrn (erHeap r e))"

lemma keeps_R_refl [simp]: "keeps_R r r \<longleftrightarrow> r_ok r"
  by (simp add: keeps_R_def)

lemma keeps_R_trans [trans]: "keeps_R r r' \<Longrightarrow> keeps_R r' r'' \<Longrightarrow> keeps_R r r''"
  by (auto simp: keeps_R_def)

lemma keeps_R_ok: "keeps_R r r' \<Longrightarrow> r_ok r'"
  by (simp add: keeps_R_def)

lemma consumer_ok_er [simp]: "r_ok r \<Longrightarrow> consumer_ok (erHeap r e)"
  by (simp add: r_ok_def)

lemma r_ok_NewMMSRouter [simp]: "r_ok NewMMSRouter"
  by (simp add: r_ok_def NewMMSRouter_def)

text \<open>What does not concern the invariant.\<close>

lemma r_ok_other [simp]:
  "r_ok (r\<lparr>subMu := a\<rparr>) = r_ok r" "r_ok (r\<lparr>erMu := a\<rparr>) = r_ok r"
  "r_ok (r\<lparr>incomingChannel := ch\<rparr>) = r_ok r" "r_ok (r\<lparr>outgoingChannel_R := ch\<rparr>) = r_ok r"
  "r_ok (r\<lparr>topicHandles := t\<rparr>) = r_ok r" "r_ok (r\<lparr>published := p\<rparr>) = r_ok r"
  "r_ok (r\<lparr>running := x\<rparr>) = r_ok r"
  by (simp_all add: r_ok_def)

lemma keeps_R_other [simp]:
  "keeps_R r (r'\<lparr>subMu := a\<rparr>) = keeps_R r r'" "keeps_R r (r'\<lparr>erMu := a\<rparr>) = keeps_R r r'"
  "keeps_R r (r'\<lparr>incomingChannel := ch\<rparr>) = keeps_R r r'" "keeps_R r (r'\<lparr>outgoingChannel_R := ch\<rparr>) = keeps_R r r'"
  "keeps_R r (r'\<lparr>topicHandles := t\<rparr>) = keeps_R r r'" "keeps_R r (r'\<lparr>published := p\<rparr>) = keeps_R r r'"
  "keeps_R r (r'\<lparr>running := x\<rparr>) = keeps_R r r'"
  by (simp_all add: keeps_R_def)

lemma keeps_R_other_left [simp]:
  "keeps_R (r\<lparr>erMu := a\<rparr>) r' = keeps_R r r'" "keeps_R (r\<lparr>topicHandles := t\<rparr>) r' = keeps_R r r'"
  "keeps_R (r\<lparr>running := x\<rparr>) r' = keeps_R r r'"
  by (simp_all add: keeps_R_def)

lemma sub_R_ok_mono:
  "sub_R_ok h n s sub \<Longrightarrow> n \<le> n' \<Longrightarrow> (\<And>e. e < n \<Longrightarrow> Mrn (h' e) = Mrn (h e)) \<Longrightarrow> sub_R_ok h' n' s sub"
  by (auto simp: sub_R_ok_def elim!: all_entries_mono)

lemma keeps_R_heap:
  assumes "r_ok r" "\<And>e. Mrn (h e) = Mrn (erHeap r e)" "\<And>e. consumer_ok (h e)"
  shows "keeps_R r (r\<lparr>erHeap := h\<rparr>)"
proof -
  from assms(1) have "all_entries (sub_R_ok h (nextEr r)) (subscriptions_R r)"
    by (auto simp: r_ok_def assms(2) elim!: all_entries_mono sub_R_ok_mono)
  with assms show ?thesis by (simp add: keeps_R_def r_ok_def)
qed

lemma keeps_R_upd:
  "r_ok r \<Longrightarrow> consumer_ok (f (erHeap r e)) \<Longrightarrow> Mrn (f (erHeap r e)) = Mrn (erHeap r e) \<Longrightarrow> keeps_R r (upd_er e f r)"
  unfolding upd_er_def by (rule keeps_R_heap) auto

lemma keeps_R_then_upd:
  assumes "keeps_R r r'" "consumer_ok (f (erHeap r' e))" "Mrn (f (erHeap r' e)) = Mrn (erHeap r' e)"
  shows "keeps_R r (upd_er e f r')"
  using assms(1) by (rule keeps_R_trans) (rule keeps_R_upd [where f = f and e = e, OF keeps_R_ok [OF assms(1)] assms(2,3)])

lemma keeps_R_queue:
  assumes "r_ok r" "headerOf m \<noteq> None"
  shows "keeps_R r (r\<lparr>erHeap := queue_all m as (erHeap r)\<rparr>)"
proof (rule keeps_R_heap [OF assms(1)])
  show "Mrn (queue_all m as (erHeap r) e) = Mrn (erHeap r e)" for e by (simp add: queue_all_frame)
  show "consumer_ok (queue_all m as (erHeap r) e)" for e
    using assms by (cases "Uuid m = ''''") (auto simp: queue_all_no_uuid storable_def intro: queue_all_ok)
qed

lemma keeps_R_sub:
  "r_ok r \<Longrightarrow> sub_R_ok (erHeap r) (nextEr r) s sub \<Longrightarrow>
   keeps_R r (r\<lparr>subscriptions_R := mput s sub (subscriptions_R r)\<rparr>)"
  by (auto simp: keeps_R_def r_ok_def)

lemma r_ok_sub_get: "r_ok r \<Longrightarrow> mget (subscriptions_R r) s = Some sub \<Longrightarrow> sub_R_ok (erHeap r) (nextEr r) s sub"
  by (auto simp: r_ok_def dest: all_entries_get)

lemma sub_R_ok_ops:
  "s \<noteq> '''' \<Longrightarrow> sub_R_ok h n s (NewSubscription_R s)"
  "sub_R_ok h n s sub \<Longrightarrow> e < n \<Longrightarrow> sub_R_ok h n s (AddSubscriber_R h e sub)"
  "sub_R_ok h n s sub \<Longrightarrow> sub_R_ok h n s (DeleteSubscriber_R h e sub)"
  "sub_R_ok h n s (sub\<lparr>subsMu := mu\<rparr>) = sub_R_ok h n s sub"
  "sub_R_ok h n s (sub\<lparr>Topic := t\<rparr>) = sub_R_ok h n s sub"
  by (auto simp: sub_R_ok_def NewSubscription_R_def AddSubscriber_R_def DeleteSubscriber_R_def)

text \<open>The loop over subscribers, without the loop.\<close>

lemma send_subscribers_eq:
  "send_subscribers m e ers h =
     (queue_all m (filter (\<lambda>b. Mrn (h b) \<noteq> Mrn (h e)) ers) h,
      Uuid m \<noteq> '''' \<or> (\<forall>b \<in> set ers. Mrn (h b) = Mrn (h e)))"
proof (induction ers arbitrary: h)
  case (Cons b ers)
  show ?case
  proof (cases "Mrn (h b) = Mrn (h e)")
    case True
    with Cons show ?thesis by simp
  next
    case False
    show ?thesis
    proof (cases "Uuid m = ''''")
      case True
      with False show ?thesis by (simp add: QueueMessage_def queue_all_no_uuid)
    next
      case uuid: False
      then obtain c where c: "QueueMessage (Some (h b)) m = Inr c" using QueueMessage_total by blast
      have q: "queue_all m [b] h = h(b := c)" by (simp add: queue_all_def c)
      with False c uuid Cons [of "h(b := c)"] queue_all_frame(1) [of m "[b]" h]
        queue_all_single [of m "filter (\<lambda>x. Mrn (h x) \<noteq> Mrn (h e)) ers" b h]
      show ?thesis by (simp del: fun_upd_apply)
    qed
  qed
qed simp


section \<open>Every step keeps the invariant\<close>

abbreviation keeps_R_res :: "MMSRouter \<Rightarrow> (r_state, 'x) result \<Rightarrow> bool" where
  "keeps_R_res r x \<equiv> keeps_R r (fst (state_of x))"

lemma r_send_Return:
  "r_send r m = Return r' x \<Longrightarrow>
   r' = r\<lparr>outgoingChannel_R := (outgoingChannel_R r)\<lparr>cbuf := cbuf (outgoingChannel_R r) @ [m]\<rparr>\<rparr>"
  by (auto simp: r_send_def chan_send_def split: if_splits)

lemma r_send_stuck: "r_send r m = Panic r' w \<Longrightarrow> r' = r" "r_send r m = Wait r' w \<Longrightarrow> r' = r"
  by (auto simp: r_send_def chan_send_def split: if_splits)

lemma keeps_R_lift:
  "(\<And>r' w. x = Panic r' w \<Longrightarrow> keeps_R r r') \<Longrightarrow> (\<And>r' w. x = Wait r' w \<Longrightarrow> keeps_R r r') \<Longrightarrow>
   (\<And>r' y. x = Return r' y \<Longrightarrow> keeps_R_res r (f r' y)) \<Longrightarrow>
   keeps_R_res r (bind_result x f (\<lambda>r. (r, io)))"
  by (cases x) auto

lemma keeps_R_go_on: "keeps_R_res r x \<Longrightarrow> keeps_R_res r (bind_result x (\<lambda>s _. Return s b) (\<lambda>s. s))"
  by (cases x) auto

lemma keeps_R_locked:
  assumes "r_ok r" "mget (subscriptions_R r) s = Some sub" "sub_R_ok (erHeap r) (nextEr r) s (f sub)"
    "keeps_R r (r\<lparr>subscriptions_R := mput s (f sub) (subscriptions_R r)\<rparr>) \<Longrightarrow> keeps_R_res r (k r (f sub))"
  shows "keeps_R_res r (bind_result (locked_sub s f sub r) k (\<lambda>r. (r, io)))"
proof -
  let ?m = "\<lambda>x. r\<lparr>subscriptions_R := mput s x (subscriptions_R r)\<rparr>"
  have 1: "keeps_R r (?m (f sub))" using assms(1,3) by (rule keeps_R_sub)
  have "sub_R_ok (erHeap r) (nextEr r) s (sub\<lparr>subsMu := Lock_waits (subsMu sub)\<rparr>)"
    using r_ok_sub_get [OF assms(1,2)] by (simp add: sub_R_ok_ops)
  with assms(1) have "keeps_R r (?m (sub\<lparr>subsMu := Lock_waits (subsMu sub)\<rparr>))" by (rule keeps_R_sub)
  then have 2: "keeps_R r (r\<lparr>subMu := Lock_waits (subMu r),
      subscriptions_R := mput s (sub\<lparr>subsMu := Lock_waits (subsMu sub)\<rparr>) (subscriptions_R r)\<rparr>)"
    by (simp add: keeps_R_def r_ok_def)
  from 1 2 assms(4) show ?thesis
    by (cases "Lock (subsMu sub)") (simp_all add: locked_sub_def)
qed

lemma open_subscription_keeps:
  assumes "r_ok r" "e < nextEr r" "s \<noteq> ''''"
  shows "keeps_R r (fst (open_subscription p2p s e r))"
proof -
  let ?sub = "\<lambda>t. (AddSubscriber_R (erHeap r) e (NewSubscription_R s))\<lparr>Topic := t\<rparr>"
  have "keeps_R r (r\<lparr>topicHandles := hs, running := x, subscriptions_R := mput s (?sub t) (subscriptions_R r)\<rparr>)" for hs x t
    using keeps_R_sub [of "r\<lparr>topicHandles := hs, running := x\<rparr>" s "?sub t"] assms
    by (simp add: sub_R_ok_ops)
  with this [where hs = "topicHandles r"] assms(1) show ?thesis
    by (simp add: open_subscription_def Let_def split: option.split)
qed

lemma keeps_R_interests:
  "keeps_R r r' \<Longrightarrow> keeps_R r (upd_er e (\<lambda>c. c\<lparr>Interests := f (Interests c)\<rparr>) r')"
  by (rule keeps_R_then_upd) (auto dest: keeps_R_ok)

lemma handleSubscribe_R_keeps:
  assumes ok: "r_ok r" and e: "e < nextEr r"
  shows "keeps_R_res r (handleSubscribe_R env p2p m e (r, io))"
proof (cases "GetSubscribeMessage (GetProtocolMessage (Some m))")
  case None
  with ok show ?thesis by (simp add: handleSubscribe_R_def)
next
  case (Some sub)
  define s where "s = Subscribe_GetSubject (Some sub)"
  have add: "sub_R_ok (erHeap r) (nextEr r) s (AddSubscriber_R (erHeap r) e x)"
    if "mget (subscriptions_R r) s = Some x" for x
    using r_ok_sub_get [OF ok that] e by (rule sub_R_ok_ops(2))
  obtain r2 e2 where open_sub: "open_subscription p2p s e r = (r2, e2)" by fastforce
  show ?thesis
    using ok open_subscription_keeps [OF ok e, of s p2p]
    unfolding handleSubscribe_R_def Let_def case_prod_conv Some option.case s_def [symmetric]
    by (auto simp: open_sub intro!: keeps_R_locked add keeps_R_interests
        split: option.split prod.split)
qed

lemma handleUnsubscribe_R_keeps:
  assumes ok: "r_ok r"
  shows "keeps_R_res r (handleUnsubscribe_R env m e (r, io))"
proof (cases "GetUnsubscribeMessage (GetProtocolMessage (Some m))")
  case None
  with ok show ?thesis by (simp add: handleUnsubscribe_R_def Let_def split: prod.split)
next
  case (Some un)
  define s where "s = Unsubscribe_GetSubject (Some un)"
  have del: "sub_R_ok (erHeap r) (nextEr r) s (DeleteSubscriber_R (erHeap r) e x)"
    if "mget (subscriptions_R r) s = Some x" for x
    using r_ok_sub_get [OF ok that] by (rule sub_R_ok_ops(3))
  show ?thesis
    using ok
    unfolding handleUnsubscribe_R_def Let_def case_prod_conv Some option.case s_def [symmetric]
    by (auto intro!: keeps_R_locked del keeps_R_interests split: option.split prod.split)
qed

lemma send_subscribers_keeps:
  "r_ok r \<Longrightarrow> headerOf m \<noteq> None \<Longrightarrow> send_subscribers m e ers (erHeap r) = (h, b) \<Longrightarrow> keeps_R r (r\<lparr>erHeap := h\<rparr>)"
  using keeps_R_queue [of r m] by (auto simp: send_subscribers_eq)

lemma send_recipients_keeps:
  "r_ok r \<Longrightarrow> headerOf m \<noteq> None \<Longrightarrow> keeps_R r (state_of (send_recipients m e rs r))"
proof (induction m e rs r rule: send_recipients.induct)
  case (2 m e recipient rs r)
  show ?case
  proof (cases "RLock (subMu r) \<noteq> None \<and> mget (subscriptions_R r) recipient \<noteq> None")
    case False
    with 2 show ?thesis by (auto split: option.split)
  next
    case True
    then obtain l sub where l: "RLock (subMu r) = Some l" and sub: "mget (subscriptions_R r) recipient = Some sub" by auto
    obtain h b where s: "send_subscribers m e (map snd (Subscribers_R sub)) (erHeap r) = (h, b)" by fastforce
    have h: "keeps_R r (r\<lparr>erHeap := h\<rparr>)" using send_subscribers_keeps [OF "2.prems" s] .
    have "keeps_R r (state_of (send_recipients m e rs (r\<lparr>erHeap := h\<rparr>)))"
      if "RLock (subsMu sub) = Some mu" "b" for mu
      using "2.IH"(2) [OF l sub that(1) s [symmetric]] that(2) "2.prems"(2) h keeps_R_trans keeps_R_ok by blast
    moreover have "keeps_R r (r\<lparr>erHeap := h, subscriptions_R := mput recipient (sub\<lparr>subsMu := mu\<rparr>) (subscriptions_R r)\<rparr>)" for mu
    proof -
      let ?r = "r\<lparr>erHeap := h\<rparr>"
      have ok: "r_ok ?r" using h by (rule keeps_R_ok)
      have "sub_R_ok (erHeap ?r) (nextEr ?r) recipient (sub\<lparr>subsMu := mu\<rparr>)"
        using r_ok_sub_get [OF ok, of recipient sub] sub by (simp add: sub_R_ok_ops)
      from keeps_R_sub [OF ok this] h show ?thesis by (auto intro: keeps_R_trans)
    qed
    ultimately show ?thesis
      using l sub s "2.prems"(1) by (auto split: option.split bool.split)
  qed
qed simp

lemma handleSend_R_keeps:
  assumes ok: "r_ok r"
  shows "keeps_R_res r (handleSend_R env m e (r, io))"
proof (cases "GetSendMessage (GetProtocolMessage (Some m))")
  case None
  with ok show ?thesis by (simp add: handleSend_R_def)
next
  case (Some send)
  define rs where "rs = GetRecipients_list (GetRecipients (GetHeader (GetApplicationMessage (Some send))))"
  define s where "s = GetSubject (GetHeader (GetApplicationMessage (Some send)))"
  have hd: "GetHeader (GetApplicationMessage (Some send)) = headerOf m" by (simp add: Some)
  note eq = handleSend_R_def [of env m e "(r, io)", unfolded Let_def case_prod_conv Some option.case,
      folded rs_def s_def]
  show ?thesis
  proof (cases "r_send r m")
    case (Return r' x)
    then have r': "keeps_R r r'" using r_send_Return [OF Return] ok by simp
    note ok' = keeps_R_ok [OF r']
    consider (rs) "rs \<noteq> []" | (s) "rs = []" "s \<noteq> ''''" | (none) "rs = []" "s = ''''" by blast
    then show ?thesis
    proof cases
      case rs
      then have "headerOf m \<noteq> None"
        unfolding rs_def hd by (cases "headerOf m") simp_all
      with ok' have "keeps_R (r'\<lparr>erMu := mu\<rparr>) (state_of (send_recipients m e rs (r'\<lparr>erMu := mu\<rparr>)))" for mu
        by (intro send_recipients_keeps) auto
      with r' have rec: "keeps_R r (state_of (send_recipients m e rs (r'\<lparr>erMu := mu\<rparr>)))" for mu
        using keeps_R_trans [of r "r'\<lparr>erMu := mu\<rparr>"] by simp
      have "keeps_R_res r (bind_result (send_recipients m e rs (r'\<lparr>erMu := mu\<rparr>))
          (\<lambda>r d. if d then Return (r\<lparr>erMu := RUnlock (erMu r)\<rparr>, i) () else Return (r, io) ()) (\<lambda>r. (r, io)))" for mu i
        using rec [of mu] by (cases "send_recipients m e rs (r'\<lparr>erMu := mu\<rparr>)") auto
      with rs r' Return show ?thesis by (simp add: eq split: option.split)
    next
      case s
      then have h: "headerOf m \<noteq> None"
        unfolding s_def hd by (cases "headerOf m") simp_all
      have "keeps_R r (r'\<lparr>erHeap := h\<rparr>)" "keeps_R r (r'\<lparr>erHeap := h, subMu := mu\<rparr>)"
        if "send_subscribers m e ers (erHeap r') = (h, b)" for ers h b mu
        using keeps_R_trans [OF r' send_subscribers_keeps [OF ok' h that]] by simp_all
      with s r' Return show ?thesis by (auto simp: eq split: option.split bool.split prod.split)
    next
      case none
      with r' Return show ?thesis by (simp add: eq)
    qed
  qed (use ok r_send_stuck [of r m] in \<open>auto simp: eq\<close>)
qed


lemma alloc_er_keeps:
  assumes "r_ok r" "alloc_er mrn r = (e, r')" "mrn \<noteq> ''''"
  shows "keeps_R r r' \<and> e < nextEr r'"
proof -
  let ?n = "nextEr r"
  define h where "h = (erHeap r)(?n := new_consumer mrn)"
  have old: "e < ?n \<Longrightarrow> h e = erHeap r e" for e by (simp add: h_def)
  have new: "Mrn (h ?n) = mrn" by (simp add: h_def new_consumer_def)
  have heap: "consumer_ok (h e)" for e using assms(1) by (simp add: h_def)
  have r': "e = ?n" "r' = r\<lparr>erHeap := h, nextEr := Suc ?n\<rparr>"
    using assms(2) by (auto simp: alloc_er_def h_def)
  have subs: "all_entries (sub_R_ok h (Suc ?n)) (subscriptions_R r)"
    using assms(1) old by (auto simp: r_ok_def elim!: all_entries_mono sub_R_ok_mono)
  have ers: "all_entries (\<lambda>mrn e. mrn \<noteq> '''' \<and> e < Suc ?n \<and> Mrn (h e) = mrn) (edgeRouters r)"
    using assms(1) old by (auto simp: r_ok_def elim!: all_entries_mono)
  have named: "Mrn (h e) \<noteq> ''''" if "e < Suc ?n" for e
    using assms(1,3) old new that by (cases "e = ?n") (auto simp: r_ok_def)
  show ?thesis
    using assms(1) subs ers named heap old by (simp add: r' keeps_R_def r_ok_def)
qed

lemma find_er_keeps:
  assumes ok: "r_ok r" and mrn: "erMrn \<noteq> ''''"
  shows "keeps_R_res r (find_er env uid erMrn con (r, io))"
    and "find_er env uid erMrn con (r, io) = Return (r', io') (Some e) \<Longrightarrow> e < nextEr r'"
proof -
  obtain e' r'' where al: "alloc_er erMrn r = (e', r'')" by fastforce
  note new = alloc_er_keeps [OF ok al mrn]
  show "keeps_R_res r (find_er env uid erMrn con (r, io))"
    using ok new by (auto simp: find_er_def reading_def al split: option.split prod.split)
  have known: "mget (edgeRouters r) erMrn = Some x \<Longrightarrow> x < nextEr r" for x
    using ok by (auto simp: r_ok_def dest: all_entries_get)
  show "find_er env uid erMrn con (r, io) = Return (r', io') (Some e) \<Longrightarrow> e < nextEr r'"
    using new known by (auto simp: find_er_def reading_def al split: option.splits prod.splits if_splits)
qed

lemma register_er_keeps:
  assumes ok: "r_ok r" and e: "e < nextEr r"
  shows "keeps_R_res r (register_er env uid e (r, io))"
    and "register_er env uid e (r, io) = Return (r', io') x \<Longrightarrow> nextEr r' = nextEr r \<and> (x = None \<or> x = Some e)"
proof -
  let ?r = "\<lambda>t. upd_er e (\<lambda>c. c\<lparr>ReconnectToken := t\<rparr>) r"
  have tok: "keeps_R r (?r t)" for t using ok by (intro keeps_R_upd) auto
  have mrn: "Mrn (erHeap (?r t) e) = Mrn (erHeap r e)" "nextEr (?r t) = nextEr r" for t by (simp_all add: upd_er_def)
  have ne: "Mrn (erHeap r e) \<noteq> ''''" using ok e by (simp add: r_ok_def)
  have reg: "keeps_R (?r t) ((?r t)\<lparr>edgeRouters := mput (Mrn (erHeap (?r t) e)) e (edgeRouters (?r t))\<rparr>)" for t
    using keeps_R_ok [OF tok [of t]] e mrn ne by (auto simp: keeps_R_def r_ok_def)
  have "keeps_R r ((?r t)\<lparr>edgeRouters := mput (Mrn (erHeap (?r t) e)) e (edgeRouters (?r t))\<rparr>)" for t
    using tok reg by (rule keeps_R_trans)
  with tok show "keeps_R_res r (register_er env uid e (r, io))"
    by (auto simp: register_er_def Let_def split: option.split prod.split)
  show "register_er env uid e (r, io) = Return (r', io') x \<Longrightarrow> nextEr r' = nextEr r \<and> (x = None \<or> x = Some e)"
    by (auto simp: register_er_def Let_def upd_er_def split: option.splits prod.splits)
qed

lemma AuthenticateConsumer_mrn': "AuthenticateConsumer req mrn = (alg, True, err) \<Longrightarrow> mrn \<noteq> ''''"
  by (simp add: AuthenticateConsumer_True)

lemma connect_R_keeps:
  assumes ok: "r_ok r"
  shows "keeps_R_res r (connect_R env req (r, io))"
    and "connect_R env req (r, io) = Return (r', io') (Some e) \<Longrightarrow> e < nextEr r'"
proof -
  let ?b = "\<lambda>uid mrn con io. bind_result (find_er env uid mrn con (r, io))
      (\<lambda>s x. case x of None \<Rightarrow> Return s None | Some e \<Rightarrow> register_er env uid e s) (\<lambda>s. s)"
  have both: "keeps_R_res r (?b uid mrn con i) \<and> (?b uid mrn con i = Return (r', io') (Some e) \<longrightarrow> e < nextEr r')"
    if "mrn \<noteq> ''''" for uid mrn con i
  proof (cases "find_er env uid mrn con (r, i)")
    case (Return s x)
    obtain r1 i1 where s: "s = (r1, i1)" by (cases s)
    have k: "keeps_R r r1" using find_er_keeps(1) [OF ok that, of env uid con i] Return s by simp
    show ?thesis
    proof (cases x)
      case None
      with Return s k show ?thesis by simp
    next
      case (Some e1)
      with Return s have e1: "e1 < nextEr r1" using find_er_keeps(2) [OF ok that] by blast
      note reg = register_er_keeps [OF keeps_R_ok [OF k] e1, of env uid i1]
      from reg(1) k have "keeps_R r (fst (state_of (register_er env uid e1 (r1, i1))))"
        using keeps_R_trans by blast
      with Return s Some reg(2) e1 show ?thesis by fastforce
    qed
  qed (use find_er_keeps(1) [OF ok that, of env uid con i] in auto)
  have b2: "?b uid mrn con i = Return (r', io') (Some e) \<Longrightarrow> mrn = '''' \<or> e < nextEr r'" for uid mrn con i
    using both [of mrn uid con i] by blast
  show "keeps_R_res r (connect_R env req (r, io))"
    using ok both by (auto simp: connect_R_def Let_def simp del: GetOwnMrn.simps
        dest: AuthenticateConsumer_mrn' split: sum.split option.split prod.split)
  show "connect_R env req (r, io) = Return (r', io') (Some e) \<Longrightarrow> e < nextEr r'"
    by (auto simp: connect_R_def Let_def simp del: GetOwnMrn.simps dest: b2
        split: sum.splits option.splits prod.splits if_splits)
qed

lemma on_er_keeps:
  assumes "r_ok r" "same_owner (erHeap r e) (fst (state_of (f (erHeap r e, io))))"
    "consumer_ok (fst (state_of (f (erHeap r e, io))))"
  shows "keeps_R_res r (on_er e f (r, io))"
proof -
  have "keeps_R r (upd_er e (\<lambda>_. fst (state_of (f (erHeap r e, io)))) r)"
    using assms by (intro keeps_R_upd) (auto simp: same_owner_def)
  then show ?thesis
    by (cases "f (erHeap r e, io)") (auto simp: on_er_def split: prod.splits)
qed

lemma handle_message_R_keeps:
  assumes "r_ok r" "e < nextEr r"
  shows "keeps_R_res r (handle_message_R env p2p e m n (r, io))"
proof -
  have receive: "keeps_R_res r (on_er e (HandleReceive env m) (r, io))"
    using assms(1) by (intro on_er_keeps HandleReceive_owner HandleReceive_state_ok) auto
  have fetch: "keeps_R_res r (on_er e (HandleFetch env m) (r, io))"
    using assms(1) by (intro on_er_keeps HandleFetch_owner HandleFetch_state_ok) auto
  have sub: "keeps_R_res r (bind_result (handleSubscribe_R env p2p m e (r, io))
      (\<lambda>(r, io) x. case x of None \<Rightarrow> Return (r, io) True
         | Some (errorText, _) \<Rightarrow> Return (r, SendErrorMessage env uid errorText io) True) (\<lambda>s. s))" for uid
    using handleSubscribe_R_keeps [OF assms, of env p2p m io]
    by (cases "handleSubscribe_R env p2p m e (r, io)") (auto split: option.split prod.split)
  note steps = sub handleUnsubscribe_R_keeps [OF assms(1)] handleSend_R_keeps [OF assms(1)] receive fetch
  show ?thesis
    using assms(1)
    by (auto simp: handle_message_R_def Let_def intro!: keeps_R_go_on steps
        split: MsgType.split option.split ProtocolMessageType.split prod.split)
qed


lemma handleSubscription_keeps: "r_ok r \<Longrightarrow> keeps_R r (state_of (handleSubscription env p2p from data r))"
  by (auto simp: handleSubscription_def chan_send_def split: option.split)

lemma queue_subscription_keeps:
  "r_ok r \<Longrightarrow> headerOf m \<noteq> None \<Longrightarrow> keeps_R r (state_of (queue_subscription m s r))"
  using keeps_R_queue [of r m] by (auto simp: queue_subscription_def split: option.split)

lemma queue_recipients_keeps:
  "r_ok r \<Longrightarrow> headerOf m \<noteq> None \<Longrightarrow> keeps_R r (state_of (queue_recipients m rs r))"
proof (induction rs arbitrary: r)
  case (Cons s rs)
  note q = queue_subscription_keeps [OF Cons.prems, of s]
  show ?case
    using q Cons.IH Cons.prems(2)
    by (cases "queue_subscription m s r") (auto intro: keeps_R_trans dest: keeps_R_ok)
qed simp

lemma handleIncomingMessages_R_keeps:
  assumes ok: "r_ok r"
  shows "keeps_R_res r (handleIncomingMessages_R env (r, io))"
proof (cases "cbuf (incomingChannel r)")
  case Nil
  with ok show ?thesis by (simp add: handleIncomingMessages_R_def)
next
  case (Cons m rest)
  define r1 where "r1 = r\<lparr>incomingChannel := (incomingChannel r)\<lparr>cbuf := rest\<rparr>\<rparr>"
  have r1: "keeps_R r r1" using ok by (simp add: r1_def)
  have hd: "GetSubjectOrRecipient (headerOf m) = Some y \<Longrightarrow> headerOf m \<noteq> None" for y
    by (cases "headerOf m") simp_all
  have q: "keeps_R r (state_of (queue_subscription m s r1))" "keeps_R r (state_of (queue_recipients m rs r1))"
    if "headerOf m \<noteq> None" for s rs
    using queue_subscription_keeps [OF keeps_R_ok [OF r1] that] queue_recipients_keeps [OF keeps_R_ok [OF r1] that]
      keeps_R_trans [OF r1] by blast+
  have run: "keeps_R_res r (bind_result x (\<lambda>r. Return (r, i)) (\<lambda>r. (r, i)))"
    if "keeps_R r (state_of x)" for x :: "(MMSRouter, unit) result" and i
    using that by (cases x) auto
  show ?thesis
    using r1 hd q
    by (auto simp: handleIncomingMessages_R_def Cons r1_def [symmetric] Let_def intro!: run
        split: prod.split option.split ApplicationMessageHeader_SubjectOrRecipient.split)
qed

lemma publish_keeps: "r_ok r \<Longrightarrow> keeps_R r (publish p2p b s r)"
  by (auto simp: publish_def split: option.split)

lemma publish_all_keeps: "r_ok r \<Longrightarrow> keeps_R r (fold (publish p2p b) ss r)"
proof (induction ss arbitrary: r)
  case (Cons s ss)
  note k = publish_keeps [OF Cons.prems, of p2p b s]
  from k Cons.IH [OF keeps_R_ok [OF k]] show ?case by (auto intro: keeps_R_trans)
qed simp

lemma handleOutgoingMessages_R_keeps:
  assumes ok: "r_ok r"
  shows "keeps_R r (state_of (handleOutgoingMessages_R env p2p r))"
proof -
  have 1: "keeps_R r (publish p2p b s (r\<lparr>outgoingChannel_R := ch\<rparr>))"
    "keeps_R r (fold (publish p2p b) ss (r\<lparr>outgoingChannel_R := ch\<rparr>))" for b s ss ch
    using publish_keeps [of "r\<lparr>outgoingChannel_R := ch\<rparr>"] publish_all_keeps [of "r\<lparr>outgoingChannel_R := ch\<rparr>"] ok
    by (auto intro: keeps_R_trans [of r "r\<lparr>outgoingChannel_R := ch\<rparr>"])
  with ok show ?thesis
    by (auto simp: handleOutgoingMessages_R_def Let_def
        split: list.split option.split ApplicationMessageHeader_SubjectOrRecipient.split)
qed

lemma gc_ers_frame: "Mrn (gc_ers now es h e) = Mrn (h e)"
proof (induction now es h rule: gc_ers.induct)
  case (2 now t a es h)
  have "Mrn ((h(a := gc_consumer now (h a))) e) = Mrn (h e)"
    using gc_consumer_owner [of "h a" now] by (simp add: same_owner_def)
  with 2 show ?case by (simp only: gc_ers.simps)
qed simp

lemma gc_ers_ok: "(\<And>e. consumer_ok (h e)) \<Longrightarrow> consumer_ok (gc_ers now es h e)"
proof (induction now es h rule: gc_ers.induct)
  case (2 now t a es h)
  have "consumer_ok ((h(a := gc_consumer now (h a))) c)" for c
    using "2.prems" by (simp add: gc_consumer_ok)
  from "2.IH" [OF this] show ?case by (simp only: gc_ers.simps)
qed simp

lemma messageGC_R_keeps: "r_ok r \<Longrightarrow> keeps_R_res r (messageGC_R env (r, io))"
  by (auto simp: messageGC_R_def reading_def NowUnix_def split: option.split
      intro!: keeps_R_heap gc_ers_ok simp: gc_ers_frame)

section \<open>Reachable states\<close>

text \<open>The goroutines of the router, interleaved step by step, as for the edge router.\<close>

inductive r_step :: "Env \<Rightarrow> P2P \<Rightarrow> MMSRouter \<Rightarrow> MMSRouter \<Rightarrow> bool" for env p2p where
  connect: "state_of (connect_R env req (r, io)) = (r', io') \<Longrightarrow> r_step env p2p r r'"
| message: "e < nextEr r \<Longrightarrow>
    state_of (handle_message_R env p2p e m n (r, io)) = (r', io') \<Longrightarrow> r_step env p2p r r'"
| check: "e < nextEr r \<Longrightarrow> CheckNewMessages env ts (erHeap r e, io) = (c, io') \<Longrightarrow>
    r_step env p2p r (upd_er e (\<lambda>_. c) r)"
| subscription: "state_of (handleSubscription env p2p from data r) = r' \<Longrightarrow> r_step env p2p r r'"
| incoming: "state_of (handleIncomingMessages_R env (r, io)) = (r', io') \<Longrightarrow> r_step env p2p r r'"
| outgoing: "state_of (handleOutgoingMessages_R env p2p r) = r' \<Longrightarrow> r_step env p2p r r'"
| gc: "state_of (messageGC_R env (r, io)) = (r', io') \<Longrightarrow> r_step env p2p r r'"

inductive r_reach :: "Env \<Rightarrow> P2P \<Rightarrow> MMSRouter \<Rightarrow> bool" for env p2p where
  init: "r_reach env p2p NewMMSRouter"
| step: "r_reach env p2p r \<Longrightarrow> r_step env p2p r r' \<Longrightarrow> r_reach env p2p r'"

lemma r_step_keeps: "r_step env p2p r r' \<Longrightarrow> r_ok r \<Longrightarrow> keeps_R r r'"
proof (induction rule: r_step.induct)
  case (connect req r io r' io')
  with connect_R_keeps(1) [of r env req io] show ?case by simp
next
  case (message e r m n io r' io')
  with handle_message_R_keeps [of r e env p2p m n io] show ?case by simp
next
  case (check e r ts io c io')
  from check(2) CheckNewMessages_ok [of "erHeap r e" env ts io] CheckNewMessages_owner [of "erHeap r e" env ts io] check(3)
  show ?case by (intro keeps_R_upd) (auto simp: same_owner_def)
next
  case (subscription "from" data r r')
  with handleSubscription_keeps [of r env p2p "from" data] show ?case by simp
next
  case (incoming r io r' io')
  with handleIncomingMessages_R_keeps [of r env io] show ?case by simp
next
  case (outgoing r r')
  with handleOutgoingMessages_R_keeps [of r env p2p] show ?case by simp
next
  case (gc r io r' io')
  with messageGC_R_keeps [of r env io] show ?case by simp
qed

lemma r_reach_ok: "r_reach env p2p r \<Longrightarrow> r_ok r"
  by (induction rule: r_reach.induct) (auto dest: r_step_keeps keeps_R_ok)


section \<open>Facts about sending\<close>

text \<open>No writer holds or waits for a lock that a Send needs.\<close>

definition send_free :: "MMSRouter \<Rightarrow> bool" where
  "send_free r \<longleftrightarrow> \<not> writer (erMu r) \<and> \<not> writer (subMu r)
     \<and> all_entries (\<lambda>_ sub. \<not> writer (subsMu sub)) (subscriptions_R r)"

definition subscribers_of :: "MMSRouter \<Rightarrow> string \<Rightarrow> nat set" where
  "subscribers_of r s =
     (case mget (subscriptions_R r) s of None \<Rightarrow> {} | Some sub \<Rightarrow> snd ` set (Subscribers_R sub))"

definition router_receivers :: "MMSRouter \<Rightarrow> nat \<Rightarrow> MmtpMessage \<Rightarrow> nat set" where
  "router_receivers r e m =
     (let recipients = GetRecipients_list (GetRecipients (headerOf m))
      in {b. Mrn (erHeap r b) \<noteq> Mrn (erHeap r e) \<and>
             (if recipients \<noteq> [] then \<exists>s \<in> set recipients. b \<in> subscribers_of r s
              else GetSubject (headerOf m) \<noteq> '''' \<and> b \<in> subscribers_of r (GetSubject (headerOf m)))})"

definition stored_at :: "MmtpMessage \<Rightarrow> nat set \<Rightarrow> (nat \<Rightarrow> Consumer) \<Rightarrow> (nat \<Rightarrow> Consumer) \<Rightarrow> bool" where
  "stored_at m S h h' \<longleftrightarrow> (\<forall>b.
     (\<forall>k. mget (Messages (h' b)) k = (if b \<in> S \<and> Uuid m \<noteq> '''' \<and> k = Uuid m then Some m else mget (Messages (h b)) k)) \<and>
     (\<forall>k. mget (Notifications (h' b)) k =
        (if b \<in> S \<and> Uuid m \<noteq> '''' \<and> k = Uuid m then Some m else mget (Notifications (h b)) k)) \<and>
     Mrn (h' b) = Mrn (h b) \<and> Interests (h' b) = Interests (h b) \<and> ReconnectToken (h' b) = ReconnectToken (h b))"

lemma stored_at_queue_all: "stored_at m (set as) h (queue_all m as h)"
  by (simp add: stored_at_def queue_all_Messages queue_all_Notifications queue_all_frame)

lemma send_recipients_eq:
  "Uuid m \<noteq> '''' \<Longrightarrow> send_free r \<Longrightarrow>
   \<exists>as. send_recipients m e rs r = Return (r\<lparr>erHeap := queue_all m as (erHeap r)\<rparr>) True
     \<and> set as = {b. Mrn (erHeap r b) \<noteq> Mrn (erHeap r e) \<and> (\<exists>s \<in> set rs. b \<in> subscribers_of r s)}"
proof (induction rs arbitrary: r)
  case Nil
  show ?case by (intro exI [of _ "[]"]) simp
next
  case (Cons s rs)
  have free: "RLock (subMu r) \<noteq> None" using Cons.prems(2) by (simp add: send_free_def RLock_def)
  show ?case
  proof (cases "mget (subscriptions_R r) s")
    case None
    with Cons.IH [OF Cons.prems] free show ?thesis by (auto simp: subscribers_of_def)
  next
    case (Some sub)
    let ?bs = "filter (\<lambda>b. Mrn (erHeap r b) \<noteq> Mrn (erHeap r e)) (map snd (Subscribers_R sub))"
    let ?r = "r\<lparr>erHeap := queue_all m ?bs (erHeap r)\<rparr>"
    have "\<not> writer (subsMu sub)"
      using Cons.prems(2) Some all_entries_get unfolding send_free_def by fastforce
    then have step: "send_recipients m e (s # rs) r = send_recipients m e rs ?r"
      using free Some Cons.prems(1) by (auto simp: send_subscribers_eq RLock_def)
    have "send_free ?r" using Cons.prems(2) by (simp add: send_free_def)
    from Cons.IH [OF Cons.prems(1) this] obtain as where
      as: "send_recipients m e rs ?r = Return (?r\<lparr>erHeap := queue_all m as (erHeap ?r)\<rparr>) True"
      "set as = {b. Mrn (erHeap r b) \<noteq> Mrn (erHeap r e) \<and> (\<exists>s \<in> set rs. b \<in> subscribers_of ?r s)}"
      by (auto simp: queue_all_frame)
    have "subscribers_of ?r x = subscribers_of r x" for x by (simp add: subscribers_of_def)
    with as step Some show ?thesis
      by (intro exI [of _ "?bs @ as"]) (auto simp: queue_all_append subscribers_of_def)
  qed
qed

lemma send_recipients_state:
  "send_free r \<Longrightarrow> send_free (r\<lparr>erMu := mu\<rparr>) \<longleftrightarrow> \<not> writer mu"
  by (simp add: send_free_def)

section \<open>A sample router\<close>

definition sample_r :: MMSRouter where
  "sample_r = NewMMSRouter
     \<lparr>erHeap := (\<lambda>e. if e = 0 then new_consumer ''urn:mrn:era'' else if e = 1 then new_consumer ''urn:mrn:erb''
                      else new_consumer ''''),
      nextEr := 2,
      edgeRouters := [(''urn:mrn:era'', 0), (''urn:mrn:erb'', 1)],
      topicHandles := [(''s'', ''s'')], running := [''s''],
      subscriptions_R := [(''s'', \<lparr>Interest_R = ''s'', Subscribers_R = [(''urn:mrn:era'', 0), (''urn:mrn:erb'', 1)],
         Topic = Some ''s'', subsMu = newRWMutex\<rparr>)]\<rparr>"

lemma sample_r_simps [simp]:
  "erHeap sample_r 0 = new_consumer ''urn:mrn:era''" "erHeap sample_r (Suc 0) = new_consumer ''urn:mrn:erb''"
  "nextEr sample_r = 2" "edgeRouters sample_r = [(''urn:mrn:era'', 0), (''urn:mrn:erb'', 1)]"
  "topicHandles sample_r = [(''s'', ''s'')]" "running sample_r = [''s'']" "published sample_r = []"
  "subscriptions_R sample_r = [(''s'', \<lparr>Interest_R = ''s'', Subscribers_R = [(''urn:mrn:era'', 0), (''urn:mrn:erb'', 1)],
     Topic = Some ''s'', subsMu = newRWMutex\<rparr>)]"
  "subMu sample_r = newRWMutex" "erMu sample_r = newRWMutex"
  "chan_ready (outgoingChannel_R sample_r)" "chan_ready (incomingChannel sample_r)"
  "cbuf (outgoingChannel_R sample_r) = []" "cbuf (incomingChannel sample_r) = []"
  by (simp_all add: sample_r_def NewMMSRouter_def chan_ready_def ChannelBufSize_R_def)

lemma newRWMutex_simps [simp]: "readers newRWMutex = 0" "\<not> writer newRWMutex"
  by (simp_all add: newRWMutex_def)

lemma new_consumer_simps [simp]:
  "Mrn (new_consumer x) = x" "Messages (new_consumer x) = []" "Notifications (new_consumer x) = []"
  "ReconnectToken (new_consumer x) = ''''" "Interests (new_consumer x) = []"
  by (simp_all add: new_consumer_def)

definition sample_p2p :: P2P where
  "sample_p2p = \<lparr>joins = (\<lambda>_. True), subscribes = (\<lambda>_. True), publishes = (\<lambda>_ _. True),
     uuidVersion4 = (\<lambda>_. True), hostID = ''host''\<rparr>"

lemma sample_send_free [simp]: "send_free sample_r"
  by (simp add: send_free_def all_entries_def)

lemma r_send_ready: "chan_ready (outgoingChannel_R r) \<Longrightarrow>
   r_send r m = Return (r\<lparr>outgoingChannel_R := (outgoingChannel_R r)\<lparr>cbuf := cbuf (outgoingChannel_R r) @ [m]\<rparr>\<rparr>) ()"
  by (simp add: r_send_def)

section \<open>Properties\<close>

text \<open>What an accepted Send queues: a list of exactly the receivers.\<close>

lemma handleSend_R_queues:
  assumes "GetSendMessage (GetProtocolMessage (Some m)) = Some sm" and "Uuid m \<noteq> ''''"
    and "send_free r" and "chan_ready (outgoingChannel_R r)"
  shows "\<exists>as. set as = router_receivers r e m \<and> handleSend_R env m e (r, io) =
      Return (r\<lparr>outgoingChannel_R := (outgoingChannel_R r)\<lparr>cbuf := cbuf (outgoingChannel_R r) @ [m]\<rparr>,
                erHeap := queue_all m as (erHeap r)\<rparr>,
              fst (respond env io (goodResponse (Uuid m)))) ()"
proof -
  define r1 where "r1 = r\<lparr>outgoingChannel_R := (outgoingChannel_R r)\<lparr>cbuf := cbuf (outgoingChannel_R r) @ [m]\<rparr>\<rparr>"
  define hdr where "hdr = GetHeader (GetApplicationMessage (Some sm))"
  have hdr: "headerOf m = hdr" by (simp add: hdr_def assms(1))
  note eq = handleSend_R_def [of env m e "(r, io)", unfolded Let_def case_prod_conv assms(1) option.case,
      folded hdr_def, unfolded r_send_ready [OF assms(4), of m, folded r1_def] bind_result.simps]
  have free: "send_free r1" using assms(3) by (simp add: send_free_def r1_def)
  have same: "subscribers_of r1 x = subscribers_of r x" "erHeap r1 = erHeap r" for x
    by (simp_all add: subscribers_of_def r1_def)
  let ?S = "router_receivers r e m"
  note S = router_receivers_def [of r e m, unfolded Let_def hdr]
  consider (rs) "GetRecipients_list (GetRecipients hdr) \<noteq> []"
    | (sub) sub where "GetRecipients_list (GetRecipients hdr) = []" "GetSubject hdr \<noteq> ''''"
        "mget (subscriptions_R r) (GetSubject hdr) = Some sub"
    | (nobody) "GetRecipients_list (GetRecipients hdr) = []"
        "GetSubject hdr = '''' \<or> mget (subscriptions_R r) (GetSubject hdr) = None" by fastforce
  then have "\<exists>as. handleSend_R env m e (r, io) =
      Return (r1\<lparr>erHeap := queue_all m as (erHeap r)\<rparr>, fst (respond env io (goodResponse (Uuid m)))) ()
      \<and> set as = ?S"
  proof cases
    case rs
    from free obtain mu where mu: "RLock (erMu r1) = Some mu" "\<not> writer mu" "RUnlock mu = erMu r1"
      by (simp add: RLock_def RUnlock_def send_free_def)
    have "send_free (r1\<lparr>erMu := mu\<rparr>)" using free mu(2) by (simp add: send_recipients_state)
    from send_recipients_eq [OF assms(2) this, of e "GetRecipients_list (GetRecipients hdr)"] obtain as where
      as: "send_recipients m e (GetRecipients_list (GetRecipients hdr)) (r1\<lparr>erMu := mu\<rparr>)
        = Return (r1\<lparr>erMu := mu, erHeap := queue_all m as (erHeap r1)\<rparr>) True" "set as = ?S"
      using rs same by (auto simp: S subscribers_of_def)
    have "r1\<lparr>erHeap := h, erMu := RUnlock mu\<rparr> = r1\<lparr>erHeap := h\<rparr>" for h by (simp add: mu(3))
    with rs as mu show ?thesis by (intro exI [of _ as]) (simp add: eq same)
  next
    case sub
    have l: "RLock (subMu r1) \<noteq> None" using free by (simp add: RLock_def send_free_def)
    let ?as = "filter (\<lambda>b. Mrn (erHeap r b) \<noteq> Mrn (erHeap r e)) (map snd (Subscribers_R sub))"
    have "set ?as = ?S" using sub by (auto simp: S subscribers_of_def)
    moreover have "mget (subscriptions_R r1) (GetSubject hdr) = Some sub" using sub(3) by (simp add: r1_def)
    ultimately show ?thesis
      using sub l assms(2) by (intro exI [of _ ?as]) (auto simp: eq same send_subscribers_eq)
  next
    case nobody
    have l: "RLock (subMu r1) \<noteq> None" using free by (simp add: RLock_def send_free_def)
    have "?S = {}" using nobody by (auto simp: S subscribers_of_def)
    with nobody l show ?thesis by (intro exI [of _ "[]"]) (auto simp: eq r1_def)
  qed
  then show ?thesis by (auto simp: r1_def)
qed

text \<open>
  C14: a Send with a UUID, from any connected edge router, is forwarded to the router network
  once and stored under its UUID for exactly the other edge routers that subscribe to one of
  its recipients or, without recipients, to its subject; the sender gets nothing back but the
  GOOD answer, and every lock is as it was.
\<close>

theorem router_send_delivers:
  assumes "GetSendMessage (GetProtocolMessage (Some m)) = Some sm" and "Uuid m \<noteq> ''''"
    and "send_free r" and "chan_ready (outgoingChannel_R r)"
  shows "\<exists>h. handleSend_R env m e (r, io) =
       Return (r\<lparr>outgoingChannel_R := (outgoingChannel_R r)\<lparr>cbuf := cbuf (outgoingChannel_R r) @ [m]\<rparr>, erHeap := h\<rparr>,
               fst (respond env io (goodResponse (Uuid m)))) ()
    \<and> stored_at m (router_receivers r e m) (erHeap r) h"
proof -
  from handleSend_R_queues [OF assms, of e env io] obtain as where
    "set as = router_receivers r e m" "handleSend_R env m e (r, io) =
      Return (r\<lparr>outgoingChannel_R := (outgoingChannel_R r)\<lparr>cbuf := cbuf (outgoingChannel_R r) @ [m]\<rparr>,
                erHeap := queue_all m as (erHeap r)\<rparr>,
              fst (respond env io (goodResponse (Uuid m)))) ()" by blast
  with stored_at_queue_all [of m as "erHeap r"] show ?thesis
    by (intro exI [of _ "queue_all m as (erHeap r)"]) simp
qed

theorem router_send_delivers_witness:
  "\<exists>h. handleSend_R (sample_env (\<lambda>_. 10) (\<lambda>_. None)) (sample_msg ''m'' ''s'' 20) 0 (sample_r, sample_io [] (\<lambda>_. False))
       = Return (sample_r\<lparr>outgoingChannel_R := (outgoingChannel_R sample_r)\<lparr>cbuf := [sample_msg ''m'' ''s'' 20]\<rparr>, erHeap := h\<rparr>,
           fst (respond (sample_env (\<lambda>_. 10) (\<lambda>_. None)) (sample_io [] (\<lambda>_. False)) (goodResponse ''m''))) ()
     \<and> mget (Messages (h 1)) ''m'' = Some (sample_msg ''m'' ''s'' 20) \<and> mget (Messages (h 0)) ''m'' = None"
proof -
  let ?m = "sample_msg ''m'' ''s'' 20" and ?env = "sample_env (\<lambda>_. 10) (\<lambda>_. None)" and ?io = "sample_io [] (\<lambda>_. False)"
  obtain sm where send: "GetSendMessage (GetProtocolMessage (Some ?m)) = Some sm" by simp
  have r: "router_receivers sample_r 0 ?m = {1}"
    by (auto simp: router_receivers_def subscribers_of_def Let_def)
  obtain h where run: "handleSend_R ?env ?m 0 (sample_r, ?io) =
      Return (sample_r\<lparr>outgoingChannel_R := (outgoingChannel_R sample_r)\<lparr>cbuf := [?m]\<rparr>, erHeap := h\<rparr>,
           fst (respond ?env ?io (goodResponse ''m''))) ()"
    and h: "stored_at ?m {1} (erHeap sample_r) h"
    using router_send_delivers [OF send, of sample_r ?env 0 ?io] r by auto
  have "mget (Messages (h 1)) ''m'' = Some ?m" "mget (Messages (h 0)) ''m'' = None"
    using h by (simp_all add: stored_at_def)
  with run show ?thesis by (intro exI conjI)
qed

text \<open>
  A Send without a UUID on a subject to which another edge router is subscribed returns
  without an answer and without freeing the lock of the subscriptions; from then on every
  request to subscribe or unsubscribe waits for ever, and the first of them blocks every later
  delivery by subject as well.
\<close>

lemma router_send_without_uuid_blocks:
  assumes "GetSendMessage (GetProtocolMessage (Some m)) = Some sm" and "Uuid m = ''''"
    and "send_free r" and "chan_ready (outgoingChannel_R r)"
    and "GetRecipients_list (GetRecipients (headerOf m)) = []" and "router_receivers r e m \<noteq> {}"
    and "GetSubscribeMessage (GetProtocolMessage (Some q)) = Some sq" and "Subscribe_GetSubject (Some sq) \<noteq> ''''"
  shows "\<exists>r1. handleSend_R env m e (r, io) = Return (r1, io) ()
    \<and> readers (subMu r1) = Suc (readers (subMu r)) \<and> erHeap r1 = erHeap r
    \<and> (\<exists>r2. handleSubscribe_R env p2p q c (r1, io2) = Wait (r2, io2) lock_waits
         \<and> (\<forall>x s. queue_subscription x s r2 = Wait r2 lock_waits))"
proof -
  define r1 where "r1 = r\<lparr>outgoingChannel_R := (outgoingChannel_R r)\<lparr>cbuf := cbuf (outgoingChannel_R r) @ [m]\<rparr>\<rparr>"
  define hdr where "hdr = GetHeader (GetApplicationMessage (Some sm))"
  have hdr: "headerOf m = hdr" by (simp add: hdr_def assms(1))
  note eq = handleSend_R_def [of env m e "(r, io)", unfolded Let_def case_prod_conv assms(1) option.case,
      folded hdr_def, unfolded r_send_ready [OF assms(4), of m, folded r1_def] bind_result.simps]
  let ?mu = "(subMu r)\<lparr>readers := Suc (readers (subMu r))\<rparr>"
  from assms(3) have l: "RLock (subMu r1) = Some ?mu" by (simp add: send_free_def RLock_def r1_def)
  from assms(5,6) obtain sub b where sub: "GetSubject hdr \<noteq> ''''" "mget (subscriptions_R r1) (GetSubject hdr) = Some sub"
    "b \<in> snd ` set (Subscribers_R sub)" "Mrn (erHeap r b) \<noteq> Mrn (erHeap r e)"
    by (auto simp: router_receivers_def subscribers_of_def Let_def hdr r1_def split: option.splits)
  then have no: "\<not> (\<forall>b \<in> snd ` set (Subscribers_R sub). Mrn (erHeap r1 b) = Mrn (erHeap r1 e))"
    by (auto simp: r1_def)
  have q0: "queue_all m as h = h" for as and h :: "nat \<Rightarrow> Consumer"
    using assms(2) by (rule queue_all_no_uuid)
  have "send_subscribers m e (map snd (Subscribers_R sub)) (erHeap r1) = (erHeap r1, False)"
    using no assms(2) by (simp add: send_subscribers_eq q0)
  then have run: "handleSend_R env m e (r, io) = Return (r1\<lparr>subMu := ?mu\<rparr>, io) ()"
    using sub(1,2) assms(5) l by (simp add: eq hdr)
  have sub_waits: "handleSubscribe_R env p2p q c (r1\<lparr>subMu := ?mu\<rparr>, io2)
      = Wait (r1\<lparr>subMu := Lock_waits ?mu\<rparr>, io2) lock_waits"
    using assms(7,8) by (simp add: handleSubscribe_R_def Lock_def Let_def)
  have "queue_subscription x s (r1\<lparr>subMu := Lock_waits ?mu\<rparr>) = Wait (r1\<lparr>subMu := Lock_waits ?mu\<rparr>) lock_waits" for x s
    by (simp add: queue_subscription_def RLock_def Lock_waits_def)
  with run sub_waits show ?thesis
    by (intro exI [of _ "r1\<lparr>subMu := ?mu\<rparr>"]) (auto simp: r1_def)
qed

text \<open>The abstract view of the router's subscriptions.\<close>

definition r_registry :: "MMSRouter \<Rightarrow> string \<Rightarrow> string \<rightharpoonup> nat" where
  "r_registry r = registry (\<lambda>sub. mget (Subscribers_R sub)) (subscriptions_R r)"

lemma registry_topic:
  "registry (\<lambda>sub. mget (Subscribers_R sub)) (mput s (sub\<lparr>Topic := t\<rparr>) R)
     = registry (\<lambda>sub. mget (Subscribers_R sub)) (mput s sub R)"
  by (auto simp: registry_def fun_eq_iff)

text \<open>The topic that stands for a name: its handle, or the one that joining gives.\<close>

definition topic_of :: "MMSRouter \<Rightarrow> string \<Rightarrow> string" where
  "topic_of r s = (case mget (topicHandles r) s of Some t \<Rightarrow> t | None \<Rightarrow> s)"

definition opens :: "P2P \<Rightarrow> MMSRouter \<Rightarrow> string \<Rightarrow> bool" where
  "opens p2p r s \<longleftrightarrow> (mget (topicHandles r) s \<noteq> None \<or> joins p2p s) \<and> subscribes p2p (topic_of r s)"

lemma open_subscription_outcome:
  assumes "mget (subscriptions_R r) s = None"
  shows "\<exists>r' err. open_subscription p2p s c r = (r', if opens p2p r s then None else Some (''Subscription failed'', err))
    \<and> erHeap r' = erHeap r
    \<and> topicHandles r' = (if mget (topicHandles r) s = None \<and> joins p2p s then mput s s (topicHandles r) else topicHandles r)
    \<and> (if opens p2p r s
       then r_registry r' = (r_registry r)(s := (r_registry r s)(Mrn (erHeap r c) \<mapsto> c))
         \<and> running r' = running r @ [topic_of r s]
       else subscriptions_R r' = subscriptions_R r \<and> running r' = running r)"
proof -
  have new: "registry (\<lambda>sub. mget (Subscribers_R sub))
      (mput s ((AddSubscriber_R (erHeap r) c (NewSubscription_R s))\<lparr>Topic := t\<rparr>) (subscriptions_R r))
    = (r_registry r)(s := (r_registry r s)(Mrn (erHeap r c) \<mapsto> c))" for t
    unfolding registry_topic r_registry_def using assms by (rule rs.registry_new)
  obtain r' e where o: "open_subscription p2p s c r = (r', e)" by fastforce
  have "\<exists>err. e = (if opens p2p r s then None else Some (''Subscription failed'', err))"
    using o by (auto simp: open_subscription_def opens_def topic_of_def Let_def split: option.splits if_splits)
  moreover have "erHeap r' = erHeap r \<and>
      topicHandles r' = (if mget (topicHandles r) s = None \<and> joins p2p s then mput s s (topicHandles r) else topicHandles r)"
    using o by (auto simp: open_subscription_def Let_def split: option.splits if_splits)
  moreover have "if opens p2p r s
       then r_registry r' = (r_registry r)(s := (r_registry r s)(Mrn (erHeap r c) \<mapsto> c))
         \<and> running r' = running r @ [topic_of r s]
       else subscriptions_R r' = subscriptions_R r \<and> running r' = running r"
    using o new
    by (auto simp: open_subscription_def opens_def topic_of_def r_registry_def Let_def split: option.splits if_splits)
  ultimately show ?thesis using o by (intro exI [of _ r']) auto
qed

text \<open>
  C25: a Subscribe of an edge router for a subject succeeds exactly if the router has a
  subscription under it already, or its topic is joined or can be joined and can be subscribed to.
  It then adds exactly this edge router to exactly this subject and is answered GOOD, and for a
  subject without a subscription one reader is started, of the topic of this subject. Otherwise no
  subscription, no edge router and no reader changes, and the answer is an error with the text
  Subscription failed. In both cases a topic that was not joined and can be stays joined.
\<close>

theorem router_subscribe_refines_registry:
  assumes "MsgType m = MsgType_PROTOCOL_MESSAGE" and "GetProtocolMessage (Some m) = Some p"
    and "ProtocolMsgType p = ProtocolMessageType_SUBSCRIBE_MESSAGE"
    and "GetSubscribeMessage (Some p) = Some sm" and "Subscribe_GetSubject (Some sm) = s"
    and "s \<noteq> ''''" and "Lock (subMu r) \<noteq> None"
    and "\<forall>sub. mget (subscriptions_R r) s = Some sub \<longrightarrow> Lock (subsMu sub) \<noteq> None"
  shows "\<exists>r' io'. handle_message_R env p2p c m n (r, io) = Return (r', io') True
    \<and> topicHandles r' = (if mget (subscriptions_R r) s = None \<and> mget (topicHandles r) s = None \<and> joins p2p s
        then mput s s (topicHandles r) else topicHandles r)
    \<and> (if mget (subscriptions_R r) s \<noteq> None
          \<or> (mget (topicHandles r) s \<noteq> None \<or> joins p2p s) \<and> subscribes p2p (topic_of r s)
       then r_registry r' = (r_registry r)(s := (r_registry r s)(Mrn (erHeap r c) \<mapsto> c))
         \<and> running r' = running r @ (if mget (subscriptions_R r) s = None then [topic_of r s] else [])
         \<and> Interests (erHeap r' c) = Interests (erHeap r c) @ [s]
         \<and> io' = fst (respond env io (goodResponse (Uuid m)))
       else subscriptions_R r' = subscriptions_R r \<and> erHeap r' = erHeap r \<and> running r' = running r
         \<and> io' = SendErrorMessage env (Uuid m) ''Subscription failed'' io)"
proof -
  obtain io' err where w: "respond env io (goodResponse (Uuid m)) = (io', err)" by fastforce
  have sub: "GetSubscribeMessage (GetProtocolMessage (Some m)) = Some sm" using assms(2,4) by simp
  note eq = handleSubscribe_R_def [of env p2p m c "(r, io)", unfolded Let_def case_prod_conv sub option.case assms(5)]
  note msg = handle_message_R_def [of env p2p c m n "(r, io)", unfolded Let_def case_prod_conv]
  show ?thesis
  proof (cases "mget (subscriptions_R r) s")
    case None
    from open_subscription_outcome [OF None, of p2p c] obtain r2 e2 where
      o: "open_subscription p2p s c r = (r2, if opens p2p r s then None else Some (''Subscription failed'', e2))"
      and r2: "erHeap r2 = erHeap r"
        "topicHandles r2 = (if mget (topicHandles r) s = None \<and> joins p2p s then mput s s (topicHandles r) else topicHandles r)"
        "if opens p2p r s then r_registry r2 = (r_registry r)(s := (r_registry r s)(Mrn (erHeap r c) \<mapsto> c))
           \<and> running r2 = running r @ [topic_of r s]
         else subscriptions_R r2 = subscriptions_R r \<and> running r2 = running r" by blast
    show ?thesis
    proof (cases "opens p2p r s")
      case True
      let ?r = "upd_er c (\<lambda>c. c\<lparr>Interests := Interests c @ [s]\<rparr>) r2"
      have "handle_message_R env p2p c m n (r, io) = Return (?r, io') True"
        using None True o assms w by (auto simp: msg eq)
      then show ?thesis using True None r2 w
        by (intro exI [of _ ?r] exI [of _ io']) (simp add: upd_er_def r_registry_def opens_def)
    next
      case False
      have "handle_message_R env p2p c m n (r, io) = Return (r2, SendErrorMessage env (Uuid m) ''Subscription failed'' io) True"
        using None False o assms by (auto simp: msg eq)
      then show ?thesis using False None r2
        by (intro exI [of _ r2] exI [of _ "SendErrorMessage env (Uuid m) ''Subscription failed'' io"]) (auto simp: opens_def)
    qed
  next
    case (Some sub)
    let ?r = "upd_er c (\<lambda>c. c\<lparr>Interests := Interests c @ [s]\<rparr>)
      (r\<lparr>subscriptions_R := mput s (AddSubscriber_R (erHeap r) c sub) (subscriptions_R r)\<rparr>)"
    have "Lock (subsMu sub) \<noteq> None" using assms(8) Some by blast
    then have "handle_message_R env p2p c m n (r, io) = Return (?r, io') True"
      using Some assms w by (auto simp: msg eq locked_sub_def)
    moreover have "registry (\<lambda>sub. mget (Subscribers_R sub)) (mput s (AddSubscriber_R (erHeap r) c sub) (subscriptions_R r))
      = (r_registry r)(s := (r_registry r s)(Mrn (erHeap r c) \<mapsto> c))"
      unfolding r_registry_def using Some by (rule rs.registry_join)
    ultimately show ?thesis
      using Some w by (intro exI [of _ ?r] exI [of _ io']) (simp add: upd_er_def r_registry_def)
  qed
qed

theorem router_subscribe_refines_registry_witness:
  "let m = sample_subscribe (Subscribe_Subject ''t''); env = sample_env (\<lambda>_. 10) (\<lambda>_. None); io = sample_io [] (\<lambda>_. False)
   in (\<exists>r' io'. handle_message_R env (sample_p2p\<lparr>joins := (\<lambda>t. t \<noteq> ''t'')\<rparr>) 1 m 0 (sample_r, io) = Return (r', io') True
        \<and> subscriptions_R r' = subscriptions_R sample_r
        \<and> io' = SendErrorMessage env (Uuid m) ''Subscription failed'' io)
    \<and> (\<exists>r' io'. handle_message_R env sample_p2p 1 m 0 (sample_r, io) = Return (r', io') True
        \<and> running r' = running sample_r @ [''t''] \<and> r_registry r' ''t'' (Mrn (erHeap sample_r 1)) = Some 1)"
proof -
  let ?m = "sample_subscribe (Subscribe_Subject ''t'')" and ?env = "sample_env (\<lambda>_. 10) (\<lambda>_. None)"
    and ?io = "sample_io [] (\<lambda>_. False)"
  define p where "p = the (GetProtocolMessage (Some ?m))"
  define sq where "sq = the (GetSubscribeMessage (Some p))"
  have m: "MsgType ?m = MsgType_PROTOCOL_MESSAGE" "GetProtocolMessage (Some ?m) = Some p"
    "ProtocolMsgType p = ProtocolMessageType_SUBSCRIBE_MESSAGE" "GetSubscribeMessage (Some p) = Some sq"
    "Subscribe_GetSubject (Some sq) = ''t''"
    by (simp_all add: p_def sq_def sample_subscribe_def)
  have l: "Lock (subMu sample_r) \<noteq> None" by (simp add: Lock_def)
  have r: "mget (subscriptions_R sample_r) ''t'' = None" "mget (topicHandles sample_r) ''t'' = None"
    "topic_of sample_r ''t'' = ''t''" "joins sample_p2p ''t''" "subscribes sample_p2p ''t''"
    by (simp_all add: sample_r_def NewMMSRouter_def sample_p2p_def topic_of_def)
  note run = router_subscribe_refines_registry [OF m _ l, of ?env _ 1 0 ?io]
  have "\<exists>r' io'. handle_message_R ?env (sample_p2p\<lparr>joins := (\<lambda>t. t \<noteq> ''t'')\<rparr>) 1 ?m 0 (sample_r, ?io) = Return (r', io') True
        \<and> subscriptions_R r' = subscriptions_R sample_r \<and> io' = SendErrorMessage ?env (Uuid ?m) ''Subscription failed'' ?io"
    using run [of "sample_p2p\<lparr>joins := (\<lambda>t. t \<noteq> ''t'')\<rparr>"] r by auto
  moreover have "\<exists>r' io'. handle_message_R ?env sample_p2p 1 ?m 0 (sample_r, ?io) = Return (r', io') True
        \<and> running r' = running sample_r @ [''t''] \<and> r_registry r' ''t'' (Mrn (erHeap sample_r 1)) = Some 1"
    using run [of sample_p2p] r by auto
  ultimately show ?thesis by (simp add: Let_def)
qed


text \<open>The handshake, unfolded once for a Connect that is authenticated.\<close>

lemma connect_R_authenticated:
  assumes "ReadMessage env (ws io) = (c, Inr (m, n))" and "MsgType m = MsgType_PROTOCOL_MESSAGE"
    and "GetConnectMessage (GetProtocolMessage (Some m)) = Some con" and "GetOwnMrn (Some con) \<noteq> ''''"
    and "AuthenticateConsumer req (ToLower (GetOwnMrn (Some con))) = (alg, True, None)"
  shows "connect_R env req (r, io) =
    bind_result (find_er env (Uuid m) (ToLower (GetOwnMrn (Some con))) con (r, io\<lparr>ws := c\<rparr>))
      (\<lambda>s x. case x of None \<Rightarrow> Return s None | Some e \<Rightarrow> register_er env (Uuid m) e s) (\<lambda>s. s)"
proof -
  from assms(3) obtain p where "GetProtocolMessage (Some m) = Some p"
    by (cases "GetProtocolMessage (Some m)") auto
  with assms show ?thesis by (simp add: connect_R_def Let_def del: GetOwnMrn.simps)
qed

lemma connect_R_Some:
  assumes "connect_R env req (r, io) = Return (r', io') (Some e)"
  shows "\<exists>c m n con alg. ReadMessage env (ws io) = (c, Inr (m, n)) \<and> MsgType m = MsgType_PROTOCOL_MESSAGE
    \<and> GetConnectMessage (GetProtocolMessage (Some m)) = Some con \<and> GetOwnMrn (Some con) \<noteq> ''''
    \<and> AuthenticateConsumer req (ToLower (GetOwnMrn (Some con))) = (alg, True, None)"
  using assms
  by (auto simp: connect_R_def Let_def simp del: GetOwnMrn.simps
      split: sum.splits option.splits prod.splits if_splits)

lemma find_er_Some:
  assumes "r_ok r" "find_er env uid mrn con (r, io) = Return (r1, io1) (Some e)"
  shows "Mrn (erHeap r1 e) = mrn \<and> edgeRouters r1 = edgeRouters r"
proof -
  have "mget (edgeRouters r) mrn = Some x \<Longrightarrow> Mrn (erHeap r x) = mrn" for x
    using assms(1) by (auto simp: r_ok_def dest: all_entries_get)
  with assms(2) show ?thesis
    by (auto simp: find_er_def reading_def alloc_er_def split: option.splits prod.splits if_splits)
qed

text \<open>
  Every session the router opens belongs to an edge router whose MRN is the lower-cased MRN
  of the Connect message and for which AuthenticateConsumer accepted the certificate of this
  very connection; the session is registered under that MRN, alone, and the GOOD answer carries
  its new reconnect token.
\<close>

lemma router_session_authenticated:
  assumes "r_reach env p2p r" and "connect_R env req (r, io) = Return (r', io') (Some e)"
  shows "\<exists>m con alg token u. GetConnectMessage (GetProtocolMessage (Some m)) = Some con
    \<and> Mrn (erHeap r' e) = ToLower (GetOwnMrn (Some con)) \<and> Mrn (erHeap r' e) \<noteq> ''''
    \<and> AuthenticateConsumer req (Mrn (erHeap r' e)) = (alg, True, None)
    \<and> mget (edgeRouters r') (Mrn (erHeap r' e)) = Some e
    \<and> (\<forall>x. x \<noteq> Mrn (erHeap r' e) \<longrightarrow> mget (edgeRouters r') x = mget (edgeRouters r) x)
    \<and> ReconnectToken (erHeap r' e) = token
    \<and> (\<exists>b fs. marshal env (mkResponse u ((goodResponse (Uuid m))\<lparr>RM_ReconnectToken := Some token\<rparr>)) = Some b
          \<and> framesOf io' = fs @ [b])"
proof -
  note ok = r_reach_ok [OF assms(1)]
  from connect_R_Some [OF assms(2)] obtain c m n con alg where
    h: "ReadMessage env (ws io) = (c, Inr (m, n))" "MsgType m = MsgType_PROTOCOL_MESSAGE"
      "GetConnectMessage (GetProtocolMessage (Some m)) = Some con" "GetOwnMrn (Some con) \<noteq> ''''"
      "AuthenticateConsumer req (ToLower (GetOwnMrn (Some con))) = (alg, True, None)" by blast
  let ?mrn = "ToLower (GetOwnMrn (Some con))" and ?io = "io\<lparr>ws := c\<rparr>"
  note eq = connect_R_authenticated [OF h, of r]
  from assms(2) eq obtain r1 io1 where f: "find_er env (Uuid m) ?mrn con (r, ?io) = Return (r1, io1) (Some e)"
    and reg: "register_er env (Uuid m) e (r1, io1) = Return (r', io') (Some e)"
  proof (cases "find_er env (Uuid m) ?mrn con (r, ?io)")
    case (Return s x)
    obtain r1 io1 where s: "s = (r1, io1)" by (cases s)
    show ?thesis
    proof (cases x)
      case None
      with assms(2) eq Return show ?thesis by simp
    next
      case (Some e1)
      have "e1 < nextEr r1" using find_er_keeps(2) [OF ok _ Return [unfolded s Some]] h(4) by simp
      moreover have "r_ok r1"
        using find_er_keeps(1) [OF ok, of ?mrn env "Uuid m" con ?io] h(4) Return s by (auto dest: keeps_R_ok)
      moreover from assms(2) eq Return s Some have reg: "register_er env (Uuid m) e1 (r1, io1) = Return (r', io') (Some e)"
        by simp
      ultimately have "e = e1" using register_er_keeps(2) [of r1 e1 env "Uuid m" io1 r' io' "Some e"] by auto
      with that Return s Some reg show ?thesis by simp
    qed
  qed simp_all
  note mrn = find_er_Some [OF ok f]
  from h(4) have ne: "?mrn \<noteq> ''''" by simp
  let ?t = "newUuid env (uuidn io1)" and ?io2 = "snd (NewString env io1)"
  from reg mrn have r': "edgeRouters r' = mput ?mrn e (edgeRouters r)" "Mrn (erHeap r' e) = ?mrn"
      "ReconnectToken (erHeap r' e) = ?t"
    and w: "respond env ?io2 ((goodResponse (Uuid m))\<lparr>RM_ReconnectToken := Some ?t\<rparr>) = (io', None)"
    by (auto simp: register_er_def NewString_def upd_er_def Let_def split: option.splits prod.splits)
  from respond_ok [OF w] obtain b where
    "marshal env (mkResponse (newUuid env (uuidn ?io2)) ((goodResponse (Uuid m))\<lparr>RM_ReconnectToken := Some ?t\<rparr>)) = Some b"
    "framesOf io' = framesOf ?io2 @ [b]" by (auto simp: wrote_def)
  with h(3,5) r' ne show ?thesis
    by (intro exI [of _ m] exI [of _ con] exI [of _ alg] exI [of _ ?t] exI [of _ "newUuid env (uuidn ?io2)"]) auto
qed

lemmas connect_R_defs = connect_R_def find_er_def register_er_def alloc_er_def reading_def NewString_def
  ReadMessage_def respond_def write_io_def WriteMessage_def upd_er_def sample_defs

lemma sample_connect_R:
  "\<exists>r' io'. connect_R (con_env (Some ''urn:mrn:c'') None) (sample_request (Some ''urn:mrn:c''))
     (NewMMSRouter, sample_io [''x''] (\<lambda>_. False)) = Return (r', io') (Some 0)"
  by (simp add: connect_R_defs NewMMSRouter_def RLock_def Lock_def Let_def)

text \<open>
  C36: the two checks of a reconnection do not end it. If an authenticated edge router asks to
  be reconnected although the router has no session for its MRN, the error response is followed
  by a nil dereference; if its token is wrong, the error response is followed by the session
  that is stored for the MRN, with its messages, and a new token for it.
\<close>

theorem reconnect_checks_do_not_end:
  assumes "ReadMessage env (ws io) = (c, Inr (m, n))" and "MsgType m = MsgType_PROTOCOL_MESSAGE"
    and "GetConnectMessage (GetProtocolMessage (Some m)) = Some con" and "GetOwnMrn (Some con) \<noteq> ''''"
    and "AuthenticateConsumer req (ToLower (GetOwnMrn (Some con))) = (alg, True, None)"
    and "Connect_ReconnectToken con = Some t" and "\<not> writer (erMu r)" and "readers (erMu r) = 0"
  shows "(mget (edgeRouters r) (ToLower (GetOwnMrn (Some con))) = None
      \<and> respond env (io\<lparr>ws := c\<rparr>) (errorResponse (Uuid m) ''No existing session was found for the given MRN'') = (io2, None)
      \<longrightarrow> connect_R env req (r, io) = Panic (r, io2) nil_deref)
    \<and> (mget (edgeRouters r) (ToLower (GetOwnMrn (Some con))) = Some e \<and> t \<noteq> ReconnectToken (erHeap r e)
      \<and> respond env (io\<lparr>ws := c\<rparr>) (errorResponse (Uuid m) ''The given reconnect token does not match the one that is stored'') = (io3, None)
      \<and> respond env (snd (NewString env io3)) ((goodResponse (Uuid m))\<lparr>RM_ReconnectToken := Some (newUuid env (uuidn io3))\<rparr>) = (io4, None)
      \<longrightarrow> (\<exists>r'. connect_R env req (r, io) = Return (r', io4) (Some e)
            \<and> Messages (erHeap r' e) = Messages (erHeap r e) \<and> ReconnectToken (erHeap r' e) = newUuid env (uuidn io3)))"
  using connect_R_authenticated [OF assms(1-5), of r] assms(6-8)
  by (auto simp: find_er_def reading_def RLock_def Lock_def register_er_def NewString_def upd_er_def Let_def
      simp del: GetOwnMrn.simps)

theorem reconnect_checks_do_not_end_witness:
  "(\<exists>io2. connect_R (con_env (Some ''urn:mrn:c'') (Some ''guess'')) (sample_request (Some ''urn:mrn:c''))
       (sample_r, sample_io [''x''] (\<lambda>_. False)) = Panic (sample_r, io2) nil_deref)
   \<and> (\<exists>r' io4. connect_R (con_env (Some ''urn:mrn:c'') (Some ''guess'')) (sample_request (Some ''urn:mrn:c''))
       (NewMMSRouter\<lparr>erHeap := (\<lambda>_. new_consumer ''urn:mrn:c''), nextEr := 1, edgeRouters := [(''urn:mrn:c'', 0)]\<rparr>,
        sample_io [''x''] (\<lambda>_. False)) = Return (r', io4) (Some 0))"
proof -
  let ?env = "con_env (Some ''urn:mrn:c'') (Some ''guess'')" and ?io = "sample_io [''x''] (\<lambda>_. False)"
    and ?m = "sample_connect (Some ''urn:mrn:c'') (Some ''guess'')" and ?req = "sample_request (Some ''urn:mrn:c'')"
    and ?r = "NewMMSRouter\<lparr>erHeap := (\<lambda>_. new_consumer ''urn:mrn:c''), nextEr := 1, edgeRouters := [(''urn:mrn:c'', 0)]\<rparr>"
  let ?c = "Some ((sample_conn [''x''] (\<lambda>_. False))\<lparr>inbox := []\<rparr>)"
  have rd: "ReadMessage ?env (ws ?io) = (?c, Inr (?m, 1))"
    by (simp add: ReadMessage_def sample_defs)
  have w: "\<exists>io2. respond ?env (?io\<lparr>ws := ?c\<rparr>) x = (io2, None) \<and> (\<exists>y. ws io2 = Some y \<and> writeFails y = (\<lambda>_. False))" for x
    by (simp add: respond_def NewString_def write_io_def WriteMessage_def sample_defs)
  from w [of "errorResponse (Uuid ?m) ''No existing session was found for the given MRN''"] obtain io2 where
    w2: "respond ?env (?io\<lparr>ws := ?c\<rparr>) (errorResponse (Uuid ?m) ''No existing session was found for the given MRN'') = (io2, None)"
    by blast
  from w [of "errorResponse (Uuid ?m) ''The given reconnect token does not match the one that is stored''"] obtain io3 y where
    w3: "respond ?env (?io\<lparr>ws := ?c\<rparr>) (errorResponse (Uuid ?m) ''The given reconnect token does not match the one that is stored'') = (io3, None)"
      "ws io3 = Some y" "writeFails y = (\<lambda>_. False)" by blast
  then obtain io4 where w4: "respond ?env (snd (NewString ?env io3))
      ((goodResponse (Uuid ?m))\<lparr>RM_ReconnectToken := Some (newUuid ?env (uuidn io3))\<rparr>) = (io4, None)"
    by (auto simp: respond_def NewString_def write_io_def WriteMessage_def sample_env_def Let_def)
  obtain con where c: "GetConnectMessage (GetProtocolMessage (Some ?m)) = Some con"
    "GetOwnMrn (Some con) = ''urn:mrn:c''" "Connect_ReconnectToken con = Some ''guess''" by simp
  have a: "AuthenticateConsumer ?req (ToLower (GetOwnMrn (Some con))) = (ECDSAWithSHA256, True, None)"
    by (simp add: c del: GetOwnMrn.simps)
  have ne: "GetOwnMrn (Some con) \<noteq> ''''" by (simp add: c del: GetOwnMrn.simps)
  have l: "\<not> writer (erMu ?r)" "readers (erMu ?r) = 0" "\<not> writer (erMu sample_r)" "readers (erMu sample_r) = 0"
    by (simp_all add: NewMMSRouter_def)
  have e: "mget (edgeRouters ?r) (ToLower (GetOwnMrn (Some con))) = Some 0"
      "mget (edgeRouters sample_r) (ToLower (GetOwnMrn (Some con))) = None" "''guess'' \<noteq> ReconnectToken (erHeap ?r 0)"
    by (simp_all add: c del: GetOwnMrn.simps)
  note P = reconnect_checks_do_not_end [OF rd sample_connect_simps(1) c(1) ne a c(3)]
  from P [OF l(3,4), THEN conjunct1] w2 e(2) have "connect_R ?env ?req (sample_r, ?io) = Panic (sample_r, io2) nil_deref"
    by blast
  moreover from P [OF l(1,2), THEN conjunct2] w3(1) w4 e(1,3) have "\<exists>r'. connect_R ?env ?req (?r, ?io) = Return (r', io4) (Some 0)"
    by blast
  ultimately show ?thesis by blast
qed


lemma queue_recipients_eq:
  "\<not> writer (subMu r) \<Longrightarrow>
   (\<exists>s \<in> set ss. mget (subscriptions_R r) s = None) \<and> (\<exists>r'. queue_recipients m ss r = Panic r' nil_deref)
   \<or> (\<forall>s \<in> set ss. mget (subscriptions_R r) s \<noteq> None) \<and>
     (\<exists>as. queue_recipients m ss r = Return (r\<lparr>erHeap := queue_all m as (erHeap r)\<rparr>) ()
       \<and> set as = (\<Union>s \<in> set ss. subscribers_of r s))"
proof (induction ss arbitrary: r)
  case Nil
  show ?case by (rule disjI2) (auto intro: exI [of _ "[]"])
next
  case (Cons s ss)
  show ?case
  proof (cases "mget (subscriptions_R r) s")
    case None
    with Cons.prems show ?thesis by (simp add: queue_subscription_def RLock_def)
  next
    case (Some sub)
    let ?bs = "map snd (Subscribers_R sub)"
    let ?r = "r\<lparr>erHeap := queue_all m ?bs (erHeap r)\<rparr>"
    have step: "queue_recipients m (s # ss) r = queue_recipients m ss ?r"
      using Cons.prems Some by (simp add: queue_subscription_def RLock_def)
    have same: "subscribers_of ?r x = subscribers_of r x" for x by (simp add: subscribers_of_def)
    have all: "queue_all m as (queue_all m ?bs (erHeap r)) = queue_all m (?bs @ as) (erHeap r)" for as
      by (simp add: queue_all_append)
    have sub_s: "subscribers_of r s = snd ` set (Subscribers_R sub)" by (simp add: subscribers_of_def Some)
    have w: "\<not> writer (subMu ?r)" using Cons.prems by simp
    from Cons.IH [OF w] show ?thesis
    proof (elim disjE conjE exE)
      fix r' assume "\<exists>s \<in> set ss. mget (subscriptions_R ?r) s = None" "queue_recipients m ss ?r = Panic r' nil_deref"
      with step show ?thesis by simp
    next
      fix as assume "\<forall>s \<in> set ss. mget (subscriptions_R ?r) s \<noteq> None"
        "queue_recipients m ss ?r = Return (?r\<lparr>erHeap := queue_all m as (erHeap ?r)\<rparr>) ()"
        "set as = (\<Union>s \<in> set ss. subscribers_of ?r s)"
      with step Some all [of as] sub_s show ?thesis
        by (intro disjI2 conjI exI [of _ "?bs @ as"]) (auto simp: same)
    qed
  qed
qed

text \<open>
  C27: a message of another router is stored for exactly the edge routers subscribed to its
  subject or one of its recipients if it has an application message that has not expired and
  expires within thirty days, and is dropped otherwise; but if the subject or any recipient has
  no subscription at this router, the goroutine dereferences nil, which ends the process.
\<close>

theorem router_incoming:
  assumes "cbuf (incomingChannel r) = m # rest" and "MsgType m = MsgType_PROTOCOL_MESSAGE"
    and "\<not> writer (subMu r)" and "now = clock env (clockn io)"
    and "names = names_of (GetSubjectOrRecipient (headerOf m))"
    and "deliverable \<longleftrightarrow> appMsgOf m \<noteq> None \<and> now \<le> GetExpires (headerOf m) \<and> GetExpires (headerOf m) \<le> now + 2592000"
  shows "if \<not> deliverable then \<exists>io'. handleIncomingMessages_R env (r, io) =
           Return (r\<lparr>incomingChannel := (incomingChannel r)\<lparr>cbuf := rest\<rparr>\<rparr>, io') ()
     else if \<exists>s \<in> set names. mget (subscriptions_R r) s = None
     then \<exists>s. handleIncomingMessages_R env (r, io) = Panic s nil_deref
     else \<exists>h io'. handleIncomingMessages_R env (r, io) =
            Return (r\<lparr>incomingChannel := (incomingChannel r)\<lparr>cbuf := rest\<rparr>, erHeap := h\<rparr>, io') ()
          \<and> stored_at m (\<Union>s \<in> set names. subscribers_of r s) (erHeap r) h"
proof -
  define r1 where "r1 = r\<lparr>incomingChannel := (incomingChannel r)\<lparr>cbuf := rest\<rparr>\<rparr>"
  have same: "subscribers_of r1 s = subscribers_of r s" "subscriptions_R r1 = subscriptions_R r"
    "erHeap r1 = erHeap r" "\<not> writer (subMu r1)" for s
    using assms(3) by (simp_all add: subscribers_of_def r1_def)
  let ?io = "io\<lparr>clockn := Suc (clockn io)\<rparr>"
  let ?run = "\<lambda>x. bind_result x (\<lambda>r. Return (r, ?io)) (\<lambda>r. (r, ?io))"
  have one: "queue_subscription m s r1 = queue_recipients m [s] r1" for s
    by (cases "queue_subscription m s r1") simp_all
  have eq: "handleIncomingMessages_R env (r, io) =
      (if deliverable then ?run (queue_recipients m names r1) else Return (r1, ?io) ())"
    using assms(1,2,4-6) one
    by (auto simp: handleIncomingMessages_R_def r1_def [symmetric] NowUnix_def ExpirationLimit_R_def names_of_def Let_def
        simp del: queue_recipients.simps
        split: option.split ApplicationMessageHeader_SubjectOrRecipient.split) (simp_all add: queue_recipients.simps)
  show ?thesis
  proof (cases deliverable)
    case False
    with eq show ?thesis by (auto simp: r1_def)
  next
    case True
    from queue_recipients_eq [OF same(4), of names m] show ?thesis
    proof (elim disjE conjE exE)
      fix r' assume "\<exists>s \<in> set names. mget (subscriptions_R r1) s = None" "queue_recipients m names r1 = Panic r' nil_deref"
      with True eq show ?thesis by (simp add: same)
    next
      fix as assume none: "\<forall>s \<in> set names. mget (subscriptions_R r1) s \<noteq> None"
        and q: "queue_recipients m names r1 = Return (r1\<lparr>erHeap := queue_all m as (erHeap r1)\<rparr>) ()"
        and as: "set as = (\<Union>s \<in> set names. subscribers_of r1 s)"
      from none have "\<not> (\<exists>s \<in> set names. mget (subscriptions_R r) s = None)" by (simp add: same)
      moreover have "stored_at m (\<Union>s \<in> set names. subscribers_of r s) (erHeap r) (queue_all m as (erHeap r))"
        using stored_at_queue_all [of m as "erHeap r"] as by (simp add: same)
      ultimately show ?thesis
        using True eq q by (auto simp: same r1_def)
    qed
  qed
qed

theorem router_incoming_witness:
  "(\<exists>s. handleIncomingMessages_R (sample_env (\<lambda>_. 10) (\<lambda>_. None))
       (sample_r\<lparr>incomingChannel := (incomingChannel sample_r)\<lparr>cbuf := [sample_recipients ''m'' [''s'', ''x''] 20]\<rparr>\<rparr>,
        sample_io [] (\<lambda>_. False)) = Panic s nil_deref)"
proof -
  let ?m = "sample_recipients ''m'' [''s'', ''x''] 20" and ?io = "sample_io [] (\<lambda>_. False)"
    and ?env = "sample_env (\<lambda>_. 10) (\<lambda>_. None)"
  let ?r = "sample_r\<lparr>incomingChannel := (incomingChannel sample_r)\<lparr>cbuf := [?m]\<rparr>\<rparr>"
  have m: "MsgType ?m = MsgType_PROTOCOL_MESSAGE" "appMsgOf ?m \<noteq> None" "GetExpires (headerOf ?m) = 20"
    "names_of (GetSubjectOrRecipient (headerOf ?m)) = [''s'', ''x'']"
    by (simp_all add: sample_recipients_def names_of_def)
  have now: "10 = clock ?env (clockn ?io)" by (simp add: sample_defs)
  have "\<exists>s. handleIncomingMessages_R ?env (?r, ?io) = Panic s nil_deref"
    using router_incoming [of ?r ?m "[]" 10 ?env ?io "[''s'', ''x'']" True] m now by (simp split: if_splits)
  then show ?thesis .
qed


lemma publish_eq:
  "joins p2p s \<Longrightarrow> publishes p2p (topic_of r s) b \<Longrightarrow>
   \<exists>hs. publish p2p b s r = r\<lparr>topicHandles := hs, published := published r @ [(topic_of r s, b)]\<rparr>
     \<and> (\<forall>x. topic_of (publish p2p b s r) x = topic_of r x)"
  by (cases "mget (topicHandles r) s")
    (auto simp: publish_def topic_of_def
      intro: exI [of _ "topicHandles r"] exI [of _ "mput s s (topicHandles r)"])

text \<open>
  C12: in every reachable state of the router each registered edge router has the MRN it is
  registered under, which is not empty; each subscription is stored under its subject and holds
  each edge router under its MRN; and every stored message is kept under its UUID and has a
  header, so that no Receive or Fetch of an edge router panics.
\<close>

theorem router_invariant:
  assumes "r_reach env p2p r"
  shows "(\<forall>mrn e. mget (edgeRouters r) mrn = Some e \<longrightarrow> mrn \<noteq> '''' \<and> Mrn (erHeap r e) = mrn)
    \<and> (\<forall>s sub. mget (subscriptions_R r) s = Some sub \<longrightarrow> s \<noteq> '''' \<and> Interest_R sub = s
         \<and> (\<forall>mrn e. mget (Subscribers_R sub) mrn = Some e \<longrightarrow> Mrn (erHeap r e) = mrn))
    \<and> (\<forall>e k m. mget (Messages (erHeap r e)) k = Some m \<longrightarrow> Uuid m = k \<and> k \<noteq> '''' \<and> headerOf m \<noteq> None)
    \<and> (\<forall>e env m io. returns (on_er e (HandleReceive env m) (r, io)) \<and> returns (on_er e (HandleFetch env m) (r, io)))"
proof -
  from r_reach_ok [OF assms] have ok: "r_ok r" .
  have "mget (edgeRouters r) mrn = Some e \<Longrightarrow> mrn \<noteq> '''' \<and> Mrn (erHeap r e) = mrn" for mrn e
    using ok by (auto simp: r_ok_def dest: all_entries_get)
  moreover have "mget (subscriptions_R r) s = Some sub \<Longrightarrow> s \<noteq> '''' \<and> Interest_R sub = s
      \<and> (\<forall>mrn e. mget (Subscribers_R sub) mrn = Some e \<longrightarrow> Mrn (erHeap r e) = mrn)" for s sub
    using r_ok_sub_get [OF ok, of s sub] by (auto simp: sub_R_ok_def dest: all_entries_get)
  moreover have "mget (Messages (erHeap r e)) k = Some x \<Longrightarrow> Uuid x = k \<and> k \<noteq> '''' \<and> headerOf x \<noteq> None" for e k x
    using consumer_ok_er [OF ok] by (rule consumer_ok_entry)
  moreover have "returns (on_er e f (r, io))" if "returns (f (erHeap r e, io))" for e io
      and f :: "Consumer \<times> Io \<Rightarrow> (Consumer \<times> Io, error option) result"
    using that by (cases "f (erHeap r e, io)") (auto simp: on_er_def)
  then have "returns (on_er e (HandleReceive env m) (r, io)) \<and> returns (on_er e (HandleFetch env m) (r, io))" for e env m io
    using HandleReceive_returns HandleFetch_returns consumer_ok_er [OF ok] by blast
  ultimately show ?thesis by blast
qed

theorem router_invariant_witness:
  "\<exists>r' io'. connect_R (con_env (Some ''urn:mrn:c'') None) (sample_request (Some ''urn:mrn:c''))
     (NewMMSRouter, sample_io [''x''] (\<lambda>_. False)) = Return (r', io') (Some 0)
     \<and> returns (on_er 0 (HandleFetch (con_env (Some ''urn:mrn:c'') None) sample_fetch) (r', io'))"
proof -
  let ?env = "con_env (Some ''urn:mrn:c'') None"
  from sample_connect_R obtain r' io' where
    run: "connect_R ?env (sample_request (Some ''urn:mrn:c'')) (NewMMSRouter, sample_io [''x''] (\<lambda>_. False)) = Return (r', io') (Some 0)"
    by blast
  then have "state_of (connect_R ?env (sample_request (Some ''urn:mrn:c'')) (NewMMSRouter, sample_io [''x''] (\<lambda>_. False))) = (r', io')"
    by simp
  then have "r_step ?env sample_p2p NewMMSRouter r'" by (rule r_step.connect)
  then have "r_reach ?env sample_p2p r'" by (rule r_reach.step [OF r_reach.init])
  from router_invariant [OF this] run show ?thesis by blast
qed

end
