(* ===== verification/RouterStart.thy ===== *)
theory RouterStart
  imports MmsRouter
begin

text \<open>
  How the router starts and stops: the rest of router/router.go (setupLibP2P, NewMMSRouter with
  its error, StartRouter, main) and the loops around the rounds of handleOutgoingMessages. What
  libp2p, files and signals do is a parameter.
\<close>

section \<open>setupLibP2P\<close>

definition listen_addresses :: "int \<Rightarrow> int \<Rightarrow> string list" where
  "listen_addresses libp2pPort libp2pTcpPort =
     (let udpPort = libp2pPort;
          tcpPort = (if libp2pTcpPort = 0 then udpPort else libp2pTcpPort)
      in if udpPort \<noteq> 0
         then [''/ip4/0.0.0.0/udp/'' @ FormatInt udpPort @ ''/quic-v1'', ''/ip4/0.0.0.0/tcp/'' @ FormatInt tcpPort,
               ''/ip6/::/udp/'' @ FormatInt udpPort @ ''/quic-v1'', ''/ip6/::/tcp/'' @ FormatInt tcpPort]
         else [''/ip4/0.0.0.0/udp/0/quic-v1'', ''/ip4/0.0.0.0/tcp/0'', ''/ip6/::/udp/0/quic-v1'', ''/ip6/::/tcp/0''])"

text \<open>
  The libp2p calls of the set-up: the lines of a file, the parser of a beacon, the constructor of
  a node with addresses, key and relays, the DHT and its bootstrap.
\<close>

record ('addr, 'node) SetupEnv =
  readLines :: "string \<Rightarrow> string list option"
  addrInfoFromString :: "string \<Rightarrow> 'addr option"
  newNode :: "string list \<Rightarrow> bytes option \<Rightarrow> 'addr list \<Rightarrow> 'node option"
  newDht :: "'node \<Rightarrow> 'addr list \<Rightarrow> bool"
  bootstrap :: "'node \<Rightarrow> bool"

fun scan_beacons :: "(string \<Rightarrow> 'addr option) \<Rightarrow> string list \<Rightarrow> 'addr list \<Rightarrow> 'addr list" where
  "scan_beacons parse [] beacons = beacons"
| "scan_beacons parse (line # ls) beacons =
     (case parse line of
        None \<Rightarrow> scan_beacons parse ls beacons
      | Some addrInfo \<Rightarrow> scan_beacons parse ls (beacons @ [addrInfo]))"

definition setupLibP2P ::
    "'pool KeyEnv \<Rightarrow> ('addr, 'node) SetupEnv \<Rightarrow> int \<Rightarrow> int \<Rightarrow> string \<Rightarrow> string \<Rightarrow> (unit, error + 'node) result" where
  "setupLibP2P ke se libp2pPort libp2pTcpPort privKeyFilePath beaconsFilePath =
     (let addrStrings = listen_addresses libp2pPort libp2pTcpPort;
          beacons = (case readLines se beaconsFilePath of
                       None \<Rightarrow> [] | Some ls \<Rightarrow> scan_beacons (addrInfoFromString se) ls []);
          start = (\<lambda>key. case newNode se addrStrings key beacons of
                     None \<Rightarrow> Return () (Inl (Wrapf ''could not create a libp2p node'' (Extern ''libp2p'')))
                   | Some node \<Rightarrow>
                       if \<not> newDht se node beacons then Panic () ''dht''
                       else if \<not> bootstrap se node then Panic () ''bootstrap''
                       else Return () (Inr node))
      in if privKeyFilePath \<noteq> ''''
         then bind_result (loadLibp2pKey ke privKeyFilePath)
                (\<lambda>_ key. case key of Inl err \<Rightarrow> Return () (Inl err) | Inr privEc \<Rightarrow> start (Some privEc)) (\<lambda>_. ())
         else start None)"

section \<open>Looking for peers\<close>

text \<open>
  The network as main sees it in the n-th attempt: the peers of the channel FindPeers returns, up to
  the point where libp2p closes it, and which of them accept a connection. The value of a round is the peers connected to.
\<close>

record Peers =
  FindPeers :: "nat \<Rightarrow> string list option"
  connects :: "nat \<Rightarrow> string \<Rightarrow> bool"

definition connect_peers :: "Peers \<Rightarrow> string \<Rightarrow> nat \<Rightarrow> string list \<Rightarrow> string list" where
  "connect_peers ps self n peerChan = filter (\<lambda>p. p \<noteq> self \<and> connects ps n p) peerChan"

text \<open>The loop, with the connected peers so far and the number of attempts as its state.\<close>

function search_peers :: "Peers \<Rightarrow> string \<Rightarrow> string list \<Rightarrow> nat \<Rightarrow> (string list \<times> nat, unit) result" where
  "search_peers ps self connected attempts =
     (if connected = [] \<and> attempts < 10
      then (case FindPeers ps attempts of
              None \<Rightarrow> Panic (connected, attempts) ''FindPeers''
            | Some peerChan \<Rightarrow>
                search_peers ps self (connected @ connect_peers ps self attempts peerChan) (Suc attempts))
      else Return (connected, attempts) ())"
  by pat_completeness auto

termination
  by (relation "measure (\<lambda>(_, _, _, attempts). 10 - attempts)") auto

declare search_peers.simps [simp del]

section \<open>Starting and stopping\<close>

definition createMMSRouter :: "'pool KeyEnv \<Rightarrow> string \<Rightarrow> error + MMSRouter" where
  "createMMSRouter ke clientCAs =
     (case LoadCertPool ke clientCAs of Inl err \<Rightarrow> Inl err | Inr _ \<Rightarrow> Inr NewMMSRouter)"




text \<open>
  The loop of handleOutgoingMessages over the channel; every round takes a message. Whether joining
  and publishing succeed may change from round to round: it depends on the network and, for
  publishing, on the context of the program.
\<close>

lemma publish_channels: "outgoingChannel_R (publish p2p b s r) = outgoingChannel_R r"
  by (auto simp: publish_def split: option.split)

lemma publish_all_channels: "outgoingChannel_R (fold (publish p2p b) ss r) = outgoingChannel_R r"
  by (induction ss arbitrary: r) (simp_all add: publish_channels)

lemma outgoing_R_takes:
  "cbuf (outgoingChannel_R r) = m # rest \<Longrightarrow>
   \<exists>r'. handleOutgoingMessages_R env p2p r = Return r' ()
     \<and> outgoingChannel_R r' = (outgoingChannel_R r)\<lparr>cbuf := rest\<rparr>"
  by (auto simp: handleOutgoingMessages_R_def Let_def publish_channels publish_all_channels
      split: option.split ApplicationMessageHeader_SubjectOrRecipient.split)

function outgoing_loop_R :: "Env \<Rightarrow> (nat \<Rightarrow> P2P) \<Rightarrow> MMSRouter \<Rightarrow> (MMSRouter, unit) result" where
  "outgoing_loop_R env p2p r =
     (if cbuf (outgoingChannel_R r) = [] then handleOutgoingMessages_R env (p2p 0) r
      else (case handleOutgoingMessages_R env (p2p 0) r of
              Return r _ \<Rightarrow> outgoing_loop_R env (\<lambda>n. p2p (Suc n)) r
            | Panic r w \<Rightarrow> Panic r w
            | Wait r w \<Rightarrow> Wait r w))"
  by pat_completeness auto

termination
proof (relation "measure (\<lambda>(_, _, r). length (cbuf (outgoingChannel_R r)))")
  fix env and p2p :: "nat \<Rightarrow> P2P" and r r1 u
  assume q: "cbuf (outgoingChannel_R r) \<noteq> []" and h: "handleOutgoingMessages_R env (p2p 0) r = Return r1 u"
  from q obtain m rest where "cbuf (outgoingChannel_R r) = m # rest" by (cases "cbuf (outgoingChannel_R r)") auto
  from outgoing_R_takes [OF this, of env "p2p 0"] h this
  show "((env, \<lambda>n. p2p (Suc n), r1), env, p2p, r) \<in> measure (\<lambda>(_, _, r). length (cbuf (outgoingChannel_R r)))" by auto
qed simp

declare outgoing_loop_R.simps [simp del]

section \<open>main\<close>

record RouterFlags =
  r_libp2pPort :: int
  r_libp2pTcpPort :: int
  r_privKeyFilePath :: string
  r_clientCAs :: string
  r_beacons :: string

record 'node RouterMainEnv =
  fileExists :: "string \<Rightarrow> bool"
  gossipSub :: "'node \<Rightarrow> bool"
  nodeID :: "'node \<Rightarrow> string"

text \<open>
  What the run of main comes to: the exit code (2 for a panic), whether setupLibP2P gave it a
  node, whether the deferred function closed that node, and the router it served with.
\<close>

record Outcome =
  exitCode :: nat
  nodeMade :: bool
  nodeClosed :: bool
  served :: "MMSRouter option"

text \<open>
  \<open>log.Fatal\<close> ends the process without running deferred functions; a plain return gives the exit
  code 0.
\<close>

definition router_setup ::
    "'pool KeyEnv \<Rightarrow> ('addr, 'node) SetupEnv \<Rightarrow> RouterFlags \<Rightarrow> (unit, error + 'node) result" where
  "router_setup ke se fl =
     setupLibP2P ke se (r_libp2pPort fl) (r_libp2pTcpPort fl) (r_privKeyFilePath fl) (r_beacons fl)"

definition router_main ::
    "'pool KeyEnv \<Rightarrow> ('addr, 'node) SetupEnv \<Rightarrow> 'node RouterMainEnv \<Rightarrow> Peers \<Rightarrow> RouterFlags \<Rightarrow> Outcome" where
  "router_main ke se me ps fl =
     (if \<not> fileExists me (r_beacons fl)
      then \<lparr>exitCode = 1, nodeMade = False, nodeClosed = False, served = None\<rparr>
      else (case router_setup ke se fl of
              Panic _ w \<Rightarrow> \<lparr>exitCode = 2, nodeMade = False, nodeClosed = False, served = None\<rparr>
            | Wait _ w \<Rightarrow> \<lparr>exitCode = 2, nodeMade = False, nodeClosed = False, served = None\<rparr>
            | Return _ (Inl err) \<Rightarrow> \<lparr>exitCode = 0, nodeMade = False, nodeClosed = False, served = None\<rparr>
            | Return _ (Inr node) \<Rightarrow>
                if \<not> gossipSub me node
                then \<lparr>exitCode = 2, nodeMade = True, nodeClosed = True, served = None\<rparr>
                else (case search_peers ps (nodeID me node) [] 0 of
                        Return _ _ \<Rightarrow>
                          (case createMMSRouter ke (r_clientCAs fl) of
                             Inl err \<Rightarrow> \<lparr>exitCode = 1, nodeMade = True, nodeClosed = False, served = None\<rparr>
                           | Inr router \<Rightarrow> \<lparr>exitCode = 0, nodeMade = True, nodeClosed = True, served = Some router\<rparr>)
                      | _ \<Rightarrow> \<lparr>exitCode = 2, nodeMade = True, nodeClosed = True, served = None\<rparr>)))"


section \<open>Properties\<close>

text \<open>The names a message is to be published under, and what one round publishes for them.\<close>

definition names_out :: "Env \<Rightarrow> MmtpMessage \<Rightarrow> string list" where
  "names_out env m =
     (if MsgType m = MsgType_PROTOCOL_MESSAGE \<and> appMsgOf m \<noteq> None \<and> marshal env m \<noteq> None
      then names_of (GetSubjectOrRecipient (headerOf m)) else [])"

definition published_for :: "P2P \<Rightarrow> MMSRouter \<Rightarrow> (string \<Rightarrow> bool) \<Rightarrow> bytes \<Rightarrow> string list \<Rightarrow> (string \<times> bytes) list" where
  "published_for p r joined b names =
     map (\<lambda>s. (topic_of r s, b)) (filter (\<lambda>s. joined s \<and> publishes p (topic_of r s) b) names)"

definition has_handle :: "MMSRouter \<Rightarrow> string \<Rightarrow> bool" where
  "has_handle r s \<longleftrightarrow> mget (topicHandles r) s \<noteq> None"

lemma publish_once:
  "\<exists>hs. publish p b s r = r\<lparr>topicHandles := hs,
      published := published r @ published_for p r (\<lambda>s. has_handle r s \<or> joins p s) b [s]\<rparr>
    \<and> (\<forall>x. has_handle (publish p b s r) x \<longleftrightarrow> has_handle r x \<or> x = s \<and> joins p s)
    \<and> (\<forall>x. topic_of (publish p b s r) x = topic_of r x)"
proof (cases "mget (topicHandles r) s")
  case None
  show ?thesis
  proof (cases "joins p s")
    case True
    with None show ?thesis
      by (intro exI [of _ "mput s s (topicHandles r)"])
        (auto simp: publish_def published_for_def has_handle_def topic_of_def)
  next
    case False
    with None show ?thesis
      by (intro exI [of _ "topicHandles r"]) (auto simp: publish_def published_for_def has_handle_def)
  qed
next
  case (Some t)
  then show ?thesis
    by (intro exI [of _ "topicHandles r"]) (auto simp: publish_def published_for_def has_handle_def topic_of_def)
qed

lemma publish_all:
  "\<exists>hs. fold (publish p b) ss r = r\<lparr>topicHandles := hs,
      published := published r @ published_for p r (\<lambda>s. has_handle r s \<or> joins p s) b ss\<rparr>
    \<and> (\<forall>x. has_handle (fold (publish p b) ss r) x \<longleftrightarrow> has_handle r x \<or> x \<in> set ss \<and> joins p x)
    \<and> (\<forall>x. topic_of (fold (publish p b) ss r) x = topic_of r x)"
proof (induction ss arbitrary: r)
  case Nil
  show ?case by (intro exI [of _ "topicHandles r"]) (simp add: published_for_def)
next
  case (Cons s ss)
  define r1 where "r1 = publish p b s r"
  from publish_once [of p b s r] obtain hs1 where
    r1: "r1 = r\<lparr>topicHandles := hs1, published := published r @ published_for p r (\<lambda>s. has_handle r s \<or> joins p s) b [s]\<rparr>"
    and h1: "has_handle r1 x \<longleftrightarrow> has_handle r x \<or> x = s \<and> joins p s" and t1: "topic_of r1 x = topic_of r x" for x
    unfolding r1_def by blast
  from Cons.IH [of r1] obtain hs where
    ih: "fold (publish p b) ss r1 = r1\<lparr>topicHandles := hs,
      published := published r1 @ published_for p r1 (\<lambda>s. has_handle r1 s \<or> joins p s) b ss\<rparr>"
    "has_handle (fold (publish p b) ss r1) x \<longleftrightarrow> has_handle r1 x \<or> x \<in> set ss \<and> joins p x"
    "topic_of (fold (publish p b) ss r1) x = topic_of r1 x" for x by blast
  have "(\<lambda>s. has_handle r1 s \<or> joins p s) = (\<lambda>s. has_handle r s \<or> joins p s)" by (auto simp: h1)
  then have "published_for p r1 (\<lambda>s. has_handle r1 s \<or> joins p s) b ss
      = published_for p r (\<lambda>s. has_handle r s \<or> joins p s) b ss" by (simp add: published_for_def t1)
  then have "fold (publish p b) (s # ss) r = r\<lparr>topicHandles := hs,
      published := published r @ published_for p r (\<lambda>s. has_handle r s \<or> joins p s) b (s # ss)\<rparr>"
    using ih(1) by (simp add: r1_def [symmetric]) (simp add: r1 published_for_def)
  with ih(2,3) h1 t1 show ?case by (intro exI [of _ hs]) (auto simp: r1_def [symmetric])
qed

lemma outgoing_round_R:
  assumes "cbuf (outgoingChannel_R r) = m # rest"
  shows "\<exists>r1 hs. handleOutgoingMessages_R env p r = Return r1 ()
    \<and> r1 = r\<lparr>outgoingChannel_R := (outgoingChannel_R r)\<lparr>cbuf := rest\<rparr>, topicHandles := hs,
        published := published r @ published_for p r (\<lambda>s. has_handle r s \<or> joins p s) (the (marshal env m)) (names_out env m)\<rparr>
    \<and> (\<forall>x. has_handle r1 x \<longleftrightarrow> has_handle r x \<or> x \<in> set (names_out env m) \<and> joins p x)
    \<and> (\<forall>x. topic_of r1 x = topic_of r x)"
proof -
  let ?r0 = "r\<lparr>outgoingChannel_R := (outgoingChannel_R r)\<lparr>cbuf := rest\<rparr>\<rparr>" and ?b = "the (marshal env m)"
  have round: "handleOutgoingMessages_R env p r = Return (fold (publish p ?b) (names_out env m) ?r0) ()"
    using assms by (auto simp: handleOutgoingMessages_R_def names_out_def names_of_def Let_def
        split: option.split ApplicationMessageHeader_SubjectOrRecipient.split)
  have h0: "has_handle ?r0 x = has_handle r x" "topic_of ?r0 x = topic_of r x" for x
    by (simp_all add: has_handle_def topic_of_def)
  have "published_for p ?r0 = published_for p r" by (simp add: published_for_def h0(2) fun_eq_iff)
  with publish_all [of p ?b "names_out env m" ?r0] round h0 show ?thesis by auto
qed

text \<open>
  What the loop publishes for the k-th message of its queue: for every name of the message whose
  topic had a handle, or was joined in this round or an earlier one that needed it, if it can be
  published on this topic in this round.
\<close>

definition joined_by :: "Env \<Rightarrow> (nat \<Rightarrow> P2P) \<Rightarrow> MMSRouter \<Rightarrow> MmtpMessage list \<Rightarrow> nat \<Rightarrow> string \<Rightarrow> bool" where
  "joined_by env p2p r ms k s \<longleftrightarrow>
     has_handle r s \<or> (\<exists>j \<le> k. s \<in> set (names_out env (ms ! j)) \<and> joins (p2p j) s)"

definition publications :: "Env \<Rightarrow> (nat \<Rightarrow> P2P) \<Rightarrow> MMSRouter \<Rightarrow> MmtpMessage list \<Rightarrow> nat \<Rightarrow> (string \<times> bytes) list" where
  "publications env p2p r ms k =
     map (\<lambda>s. (topic_of r s, the (marshal env (ms ! k))))
       (filter (\<lambda>s. joined_by env p2p r ms k s \<and> publishes (p2p k) (topic_of r s) (the (marshal env (ms ! k))))
          (names_out env (ms ! k)))"

lemma publications_0:
  "publications env p2p r (m # ms) 0 =
     published_for (p2p 0) r (\<lambda>s. has_handle r s \<or> joins (p2p 0) s) (the (marshal env m)) (names_out env m)"
  by (simp add: publications_def published_for_def joined_by_def cong: filter_cong)

lemma joined_by_Suc:
  assumes "\<forall>x. has_handle r1 x \<longleftrightarrow> has_handle r x \<or> x \<in> set (names_out env m) \<and> joins (p2p 0) x"
  shows "joined_by env p2p r (m # ms) (Suc k) s \<longleftrightarrow> joined_by env (\<lambda>n. p2p (Suc n)) r1 ms k s"
proof -
  have "(\<exists>j \<le> Suc k. P j) \<longleftrightarrow> P 0 \<or> (\<exists>j \<le> k. P (Suc j))" for P
    by (metis Suc_le_mono not0_implies_Suc zero_le)
  from this [of "\<lambda>j. s \<in> set (names_out env ((m # ms) ! j)) \<and> joins (p2p j) s"] assms show ?thesis
    by (auto simp: joined_by_def)
qed

lemma publications_Suc:
  assumes "\<forall>x. has_handle r1 x \<longleftrightarrow> has_handle r x \<or> x \<in> set (names_out env m) \<and> joins (p2p 0) x"
    and "\<forall>x. topic_of r1 x = topic_of r x"
  shows "publications env p2p r (m # ms) (Suc k) = publications env (\<lambda>n. p2p (Suc n)) r1 ms k"
  using joined_by_Suc [where p2p = p2p and ms = ms and k = k, OF assms(1)] assms(2) by (simp add: publications_def)

lemma outgoing_loop_R_drains:
  "\<exists>hs. outgoing_loop_R env p2p r =
     (let ms = cbuf (outgoingChannel_R r);
          r' = r\<lparr>outgoingChannel_R := (outgoingChannel_R r)\<lparr>cbuf := []\<rparr>, topicHandles := hs,
                 published := published r @ concat (map (publications env p2p r ms) [0..<length ms])\<rparr>
      in if cclosed (outgoingChannel_R r) then Return r' () else Wait r' ''channel is empty'')"
proof (induction "cbuf (outgoingChannel_R r)" arbitrary: r p2p)
  case Nil
  then have e: "(outgoingChannel_R r)\<lparr>cbuf := []\<rparr> = outgoingChannel_R r" by (cases "outgoingChannel_R r") simp
  have "r\<lparr>outgoingChannel_R := (outgoingChannel_R r)\<lparr>cbuf := []\<rparr>, topicHandles := topicHandles r, published := published r @ []\<rparr> = r"
    unfolding e by simp
  with Nil show ?case
    by (intro exI [of _ "topicHandles r"]) (simp add: outgoing_loop_R.simps [of env p2p r] handleOutgoingMessages_R_def Let_def)
next
  case (Cons m ms)
  have q: "cbuf (outgoingChannel_R r) = m # ms" using Cons.hyps(2) by simp
  from outgoing_round_R [OF q, of env "p2p 0"] obtain r1 hs where
    round: "handleOutgoingMessages_R env (p2p 0) r = Return r1 ()"
    and r1: "r1 = r\<lparr>outgoingChannel_R := (outgoingChannel_R r)\<lparr>cbuf := ms\<rparr>, topicHandles := hs,
        published := published r @ published_for (p2p 0) r (\<lambda>s. has_handle r s \<or> joins (p2p 0) s) (the (marshal env m)) (names_out env m)\<rparr>"
    and h1: "has_handle r1 x \<longleftrightarrow> has_handle r x \<or> x \<in> set (names_out env m) \<and> joins (p2p 0) x"
    and t1: "topic_of r1 x = topic_of r x" for x by blast
  have q1: "ms = cbuf (outgoingChannel_R r1)" by (simp add: r1)
  from Cons.hyps(1) [OF q1, of "\<lambda>n. p2p (Suc n)"] obtain hs2 where
    loop: "outgoing_loop_R env (\<lambda>n. p2p (Suc n)) r1 =
      (let r' = r1\<lparr>outgoingChannel_R := (outgoingChannel_R r1)\<lparr>cbuf := []\<rparr>, topicHandles := hs2,
             published := published r1 @ concat (map (publications env (\<lambda>n. p2p (Suc n)) r1 ms) [0..<length ms])\<rparr>
       in if cclosed (outgoingChannel_R r1) then Return r' () else Wait r' ''channel is empty'')"
    using q1 [symmetric] by auto
  have "publications env p2p r (m # ms) (Suc k) = publications env (\<lambda>n. p2p (Suc n)) r1 ms k" for k
    using publications_Suc h1 t1 by blast
  then have all: "concat (map (publications env p2p r (m # ms)) [0..<length (m # ms)])
      = published_for (p2p 0) r (\<lambda>s. has_handle r s \<or> joins (p2p 0) s) (the (marshal env m)) (names_out env m)
        @ concat (map (publications env (\<lambda>n. p2p (Suc n)) r1 ms) [0..<length ms])"
    by (simp only: length_Cons map_upt_Suc list.map concat.simps publications_0 o_def)
  have "outgoing_loop_R env p2p r = outgoing_loop_R env (\<lambda>n. p2p (Suc n)) r1"
    using round q by (simp add: outgoing_loop_R.simps [of env p2p r])
  with loop q all show ?case
    by (intro exI [of _ hs2]) (simp add: r1 Let_def)
qed

text \<open>
  C28: the sending loop of the router always empties its queue, and then waits for more or, on a
  closed channel, ends. A queued message that is no protocol message, has no application message
  or cannot be encoded is passed over. Every other one is published unchanged, in one encoding, on
  the topic of its subject or, in the order of the recipients, once per recipient, message after
  message in the order of the queue; left out are exactly the names whose topic has no handle and
  could not be joined up to then, and those on whose topic publishing fails in that round, as it
  does once the context has ended.
\<close>

theorem router_outgoing_drains:
  "\<exists>hs r'. outgoing_loop_R env p2p r =
      (if cclosed (outgoingChannel_R r) then Return r' () else Wait r' ''channel is empty'')
    \<and> r' = r\<lparr>outgoingChannel_R := (outgoingChannel_R r)\<lparr>cbuf := []\<rparr>, topicHandles := hs,
        published := published r
          @ concat (map (publications env p2p r (cbuf (outgoingChannel_R r))) [0..<length (cbuf (outgoingChannel_R r))])\<rparr>"
  using outgoing_loop_R_drains [of env p2p r] by (auto simp: Let_def)

theorem router_outgoing_drains_witness:
  "\<exists>r'. outgoing_loop_R (sample_env (\<lambda>_. 10) (\<lambda>_. None))
       (\<lambda>n. sample_p2p\<lparr>joins := (\<lambda>s. s \<noteq> ''y''), publishes := (\<lambda>_ _. n < 2)\<rparr>)
       (sample_r\<lparr>outgoingChannel_R := \<lparr>cbuf = [sample_subscribe (Subscribe_Subject ''t''),
          sample_recipients ''m'' [''x'', ''y''] 20, sample_msg ''n'' ''s'' 20], ccap = 3, cclosed = True\<rparr>\<rparr>) = Return r' ()
     \<and> published r' = [(''x'', ''m'')]"
proof -
  let ?env = "sample_env (\<lambda>_. 10) (\<lambda>_. None)"
    and ?p2p = "\<lambda>n::nat. sample_p2p\<lparr>joins := (\<lambda>s. s \<noteq> ''y''), publishes := (\<lambda>_ _. n < 2)\<rparr>"
    and ?ms = "[sample_subscribe (Subscribe_Subject ''t''), sample_recipients ''m'' [''x'', ''y''] 20, sample_msg ''n'' ''s'' 20]"
  let ?r = "sample_r\<lparr>outgoingChannel_R := \<lparr>cbuf = ?ms, ccap = 3, cclosed = True\<rparr>\<rparr>"
  have n: "names_out ?env (sample_subscribe (Subscribe_Subject ''t'')) = []"
    "names_out ?env (sample_recipients ''m'' [''x'', ''y''] 20) = [''x'', ''y'']"
    "names_out ?env (sample_msg ''n'' ''s'' 20) = [''s'']"
    by (simp_all add: names_out_def sample_subscribe_def sample_recipients_def names_of_def sample_env_def)
  have h: "has_handle ?r s \<longleftrightarrow> s = ''s''" "topic_of ?r s = s" for s
    by (auto simp: has_handle_def topic_of_def sample_r_def NewMMSRouter_def)
  have b: "marshal ?env (sample_recipients ''m'' [''x'', ''y''] 20) = Some ''m''"
    by (simp add: sample_recipients_def sample_env_def)
  have e: "(\<exists>j \<le> Suc 0. P j) \<longleftrightarrow> P 0 \<or> P (Suc 0)" for P by (metis le_Suc_eq le_zero_eq)
  have "publications ?env ?p2p ?r ?ms 0 = []" by (simp add: publications_def n)
  moreover have "publications ?env ?p2p ?r ?ms (Suc 0) = [(''x'', ''m'')]"
    by (simp add: publications_def n h b joined_by_def e)
  moreover have "publications ?env ?p2p ?r ?ms (Suc (Suc 0)) = []" by (simp add: publications_def n)
  ultimately have all: "concat (map (publications ?env ?p2p ?r ?ms) [0..<length ?ms]) = [(''x'', ''m'')]"
    by (simp add: upt_rec)
  have "published ?r = []" by (simp add: sample_r_def NewMMSRouter_def)
  with router_outgoing_drains [of ?env ?p2p ?r] all show ?thesis by auto
qed




definition accepting :: "Peers \<Rightarrow> string \<Rightarrow> nat \<Rightarrow> string set" where
  "accepting ps self n = {p. p \<noteq> self \<and> connects ps n p \<and> (\<exists>l. FindPeers ps n = Some l \<and> p \<in> set l)}"

lemma search_peers_done [simp]: "c \<noteq> [] \<or> 10 \<le> k \<Longrightarrow> search_peers ps self c k = Return (c, k) ()"
  by (subst search_peers.simps) auto

text \<open>An attempt ends the search if the peers cannot be asked for, or one of them accepts.\<close>

definition ends_search :: "Peers \<Rightarrow> string \<Rightarrow> nat \<Rightarrow> bool" where
  "ends_search ps self n \<longleftrightarrow> FindPeers ps n = None \<or> accepting ps self n \<noteq> {}"

lemma search_peers_from:
  assumes "k \<le> 10"
  shows "\<exists>j. k \<le> j \<and> j \<le> 10 \<and> (\<forall>n. k \<le> n \<and> n < j \<longrightarrow> \<not> ends_search ps self n) \<and> (j < 10 \<longrightarrow> ends_search ps self j)
    \<and> search_peers ps self [] k =
        (if j = 10 then Return ([], 10) ()
         else case FindPeers ps j of
                None \<Rightarrow> Panic ([], j) ''FindPeers''
              | Some peerChan \<Rightarrow> Return (connect_peers ps self j peerChan, Suc j) ())"
  using assms
proof (induction "10 - k" arbitrary: k)
  case 0
  then have "k = 10" by simp
  then show ?case by (intro exI [of _ 10]) auto
next
  case (Suc d)
  then have k: "k < 10" "d = 10 - Suc k" "Suc k \<le> 10" by auto
  show ?case
  proof (cases "ends_search ps self k")
    case True
    have "search_peers ps self [] k = (case FindPeers ps k of
                None \<Rightarrow> Panic ([], k) ''FindPeers''
              | Some peerChan \<Rightarrow> Return (connect_peers ps self k peerChan, Suc k) ())"
    proof (cases "FindPeers ps k")
      case (Some l)
      with True have "connect_peers ps self k l \<noteq> []"
        by (auto simp: ends_search_def accepting_def connect_peers_def filter_empty_conv)
      then show ?thesis using k(1) Some by (subst search_peers.simps) simp
    qed (use k(1) in \<open>subst search_peers.simps, simp\<close>)
    with True k(1) show ?thesis by (intro exI [of _ k]) auto
  next
    case False
    then obtain l where l: "FindPeers ps k = Some l" "connect_peers ps self k l = []"
      by (auto simp: ends_search_def accepting_def connect_peers_def filter_empty_conv)
    then have step: "search_peers ps self [] k = search_peers ps self [] (Suc k)"
      using k(1) by (subst search_peers.simps) simp
    from Suc.hyps(1) [OF k(2,3)] obtain j where "Suc k \<le> j \<and> j \<le> 10
      \<and> (\<forall>n. Suc k \<le> n \<and> n < j \<longrightarrow> \<not> ends_search ps self n) \<and> (j < 10 \<longrightarrow> ends_search ps self j)
      \<and> search_peers ps self [] (Suc k) =
          (if j = 10 then Return ([], 10) ()
           else case FindPeers ps j of
                  None \<Rightarrow> Panic ([], j) ''FindPeers''
                | Some peerChan \<Rightarrow> Return (connect_peers ps self j peerChan, Suc j) ())" ..
    with step False show ?thesis by (intro exI [of _ j]) (metis Suc_leD Suc_leI le_neq_implies_less)
  qed
qed

lemma connect_peers_accepting:
  "FindPeers ps j = Some peerChan \<Longrightarrow> set (connect_peers ps self j peerChan) = accepting ps self j"
  by (auto simp: connect_peers_def accepting_def)

text \<open>
  C40: looking for peers ends after at most ten attempts, given that libp2p closes the peer channel
  of each. It stops at the first attempt in which FindPeers fails or a peer other than the router
  itself accepts a connection: main then panics in the first case and goes on in the second,
  connected to exactly the accepting peers of that attempt. If there is no such attempt among the
  first ten it goes on without any peer.
\<close>

theorem peer_search_bounded:
  "\<exists>j \<le> 10. (\<forall>n < j. FindPeers ps n \<noteq> None \<and> accepting ps self n = {})
    \<and> (if j = 10 then search_peers ps self [] 0 = Return ([], 10) ()
       else if FindPeers ps j = None then search_peers ps self [] 0 = Panic ([], j) ''FindPeers''
       else \<exists>connected. search_peers ps self [] 0 = Return (connected, Suc j) () \<and> connected \<noteq> []
              \<and> set connected = accepting ps self j)"
proof -
  obtain j where j: "j \<le> 10" "\<forall>n < j. \<not> ends_search ps self n" "j < 10 \<longrightarrow> ends_search ps self j"
    and run: "search_peers ps self [] 0 =
        (if j = 10 then Return ([], 10) ()
         else case FindPeers ps j of
                None \<Rightarrow> Panic ([], j) ''FindPeers''
              | Some peerChan \<Rightarrow> Return (connect_peers ps self j peerChan, Suc j) ())"
    using search_peers_from [of 0 ps self] by auto
  have some: "\<exists>connected. search_peers ps self [] 0 = Return (connected, Suc j) () \<and> connected \<noteq> []
      \<and> set connected = accepting ps self j" if "j \<noteq> 10" "FindPeers ps j \<noteq> None"
  proof -
    from that(2) obtain l where l: "FindPeers ps j = Some l" by auto
    note c = connect_peers_accepting [OF l, of self]
    from j(1,3) that have "accepting ps self j \<noteq> {}" by (auto simp: ends_search_def)
    with c have "connect_peers ps self j l \<noteq> []" by auto
    with run that(1) l c show ?thesis by auto
  qed
  show ?thesis
    using j(1,2) run some by (intro exI [of _ j]) (simp add: ends_search_def)
qed

theorem peer_search_bounded_witness:
  "\<exists>connected. search_peers \<lparr>FindPeers = (\<lambda>n. Some (if n < 2 then [''me''] else [''me'', ''a'', ''b''])),
       connects = (\<lambda>n p. p \<noteq> ''b'')\<rparr> ''me'' [] 0 = Return (connected, 3) () \<and> set connected = {''a''}"
proof -
  let ?ps = "\<lparr>FindPeers = (\<lambda>n. Some (if n < 2 then [''me''] else [''me'', ''a'', ''b''])), connects = (\<lambda>n p. p \<noteq> ''b'')\<rparr>"
  have acc: "accepting ?ps ''me'' n = (if n < 2 then {} else {''a''})" for n
    by (auto simp: accepting_def)
  obtain j where j: "j \<le> 10" "\<forall>n < j. accepting ?ps ''me'' n = {}"
    "if j = 10 then search_peers ?ps ''me'' [] 0 = Return ([], 10) ()
     else \<exists>c. search_peers ?ps ''me'' [] 0 = Return (c, Suc j) () \<and> c \<noteq> [] \<and> set c = accepting ?ps ''me'' j"
    using peer_search_bounded [of ?ps "''me''"] by auto
  from j(2) have "\<not> 2 < j" by (auto simp: acc)
  moreover have "\<not> j < 2"
  proof
    assume "j < 2"
    with j(3) obtain c where "c \<noteq> []" "set c = accepting ?ps ''me'' j" by (auto split: if_splits)
    with \<open>j < 2\<close> show False by (simp add: acc)
  qed
  ultimately have "j = 2" by simp
  with j(3) obtain c where "search_peers ?ps ''me'' [] 0 = Return (c, Suc 2) ()" "set c = accepting ?ps ''me'' 2" by auto
  then show ?thesis by (intro exI [of _ c]) (simp add: acc)
qed

text \<open>
  Three things can be read off the way main ends. It serves only with a fresh router, then
  ends with the exit code 0 and closes its node. It also ends with the exit code 0, without
  having served, exactly when setupLibP2P reports an error. And a node that was made is left
  unclosed exactly when everything up to the peer search went well and the file of client CAs
  cannot be loaded.
\<close>

lemma router_main_outcome:
  "(served (router_main ke se me ps fl) \<noteq> None \<longleftrightarrow> router_main ke se me ps fl =
            \<lparr>exitCode = 0, nodeMade = True, nodeClosed = True, served = Some NewMMSRouter\<rparr>)
    \<and> (served (router_main ke se me ps fl) = None \<and> exitCode (router_main ke se me ps fl) = 0 \<longleftrightarrow>
         fileExists me (r_beacons fl) \<and> (\<exists>err. router_setup ke se fl = Return () (Inl err)))
    \<and> (nodeMade (router_main ke se me ps fl) \<and> \<not> nodeClosed (router_main ke se me ps fl) \<longleftrightarrow>
         fileExists me (r_beacons fl) \<and> (\<exists>node. router_setup ke se fl = Return () (Inr node) \<and> gossipSub me node
           \<and> returns (search_peers ps (nodeID me node) [] 0)) \<and> (\<exists>err. LoadCertPool ke (r_clientCAs fl) = Inl err))"
proof (cases "fileExists me (r_beacons fl)")
  case False
  then show ?thesis by (simp add: router_main_def)
next
  case True
  note main = router_main_def [of ke se me ps fl]
  show ?thesis
  proof (cases "router_setup ke se fl")
    case (Return u x)
    show ?thesis
    proof (cases x)
      case (Inl err)
      with True Return show ?thesis by (simp add: main)
    next
      case (Inr node)
      then show ?thesis
        using True Return
        by (cases "search_peers ps (nodeID me node) [] 0"; cases "LoadCertPool ke (r_clientCAs fl)")
          (simp_all add: main createMMSRouter_def)
    qed
  qed (use True in \<open>simp_all add: main\<close>)
qed

end
