(* ===== verification/Relay.thy ===== *)
theory Relay
  imports EdgeStart RouterStart "HOL-Library.Monad_Syntax"
begin

text \<open>
  Both programs together: the way of a Send from an agent of one edge router to the agents of
  another one at the same router, as the composition of the handlers it passes. A frame that one
  side writes on a connection is what the other side reads from it next.
\<close>

section \<open>The relay\<close>

text \<open>The last frame of one end of a connection arrives at the other end.\<close>

definition passed :: "Io \<Rightarrow> Io \<Rightarrow> Io" where
  "passed from to = to\<lparr>ws := map_option (\<lambda>w. w\<lparr>inbox := [last (framesOf from)]\<rparr>) (ws to)\<rparr>"

definition returned :: "('s, 'a) result \<Rightarrow> 's option" where
  "returned r = (case r of Return s _ \<Rightarrow> Some s | Panic s w \<Rightarrow> None | Wait s w \<Rightarrow> None)"

lemma returned_simps [simp]:
  "returned (Return s a) = Some s" "returned (Panic s w) = None" "returned (Wait s w) = None"
  by (simp_all add: returned_def)

text \<open>One round of the loop of a session at the router: read a message and handle it.\<close>

definition router_round :: "Env \<Rightarrow> P2P \<Rightarrow> nat \<Rightarrow> r_state \<Rightarrow> (r_state, bool) result" where
  "router_round env p2p e s =
     (let (r, io) = s
      in case ReadMessage env (ws io) of
           (c, Inl err) \<Rightarrow> Return (r, read_failed env (io\<lparr>ws := c\<rparr>)) False
         | (c, Inr (m, n)) \<Rightarrow> handle_message_R env p2p e m n (r, io\<lparr>ws := c\<rparr>))"

lemma er_loop_rounds:
  "er_loop env p2p e s =
     (case router_round env p2p e s of
        Return s goes_on \<Rightarrow> if goes_on then er_loop env p2p e s else Return s ()
      | Panic s w \<Rightarrow> Panic s w
      | Wait s w \<Rightarrow> Wait s w)"
proof (cases s)
  case (Pair r io)
  show ?thesis
    unfolding Pair er_loop.simps [of env p2p e r io] router_round_def
    by (auto split: prod.split sum.split)
qed

text \<open>
  An edge router \<open>B\<close> and its session \<open>eb\<close> at the router, once a Notify is under way from the router's
  end \<open>sb\<close> of their connection to the other end \<open>lb\<close>: B queues a Receive, sends it, the router
  answers, and B reads the answer.
\<close>

definition collect ::
    "Env \<Rightarrow> Env \<Rightarrow> P2P \<Rightarrow> nat \<Rightarrow> MMSRouter \<times> Io \<Rightarrow> EdgeRouter \<times> Io \<Rightarrow> (MMSRouter \<times> EdgeRouter) option" where
  "collect env envB p2p eb sR sB =
     (let (r, sb) = sR; (B, lb) = sB
      in do {
        (B, lb) \<leftarrow> returned (handleIncomingMessages envB False False [] (B, passed sb lb));
        (B, lb) \<leftarrow> returned (handleOutgoingMessages envB False [] (B, lb));
        (r, sb) \<leftarrow> returned (router_round env p2p eb (r, passed lb sb));
        (B, lb) \<leftarrow> returned (handleIncomingMessages envB False False [] (B, passed sb lb));
        Some (r, B)
      })"

text \<open>
  The relay of a Send of the agent \<open>a\<close> of the edge router \<open>A\<close>, whose session at the router is \<open>ea\<close>,
  to the edge router \<open>B\<close>. The connections are: \<open>ioa\<close> the agent's, \<open>la\<close> and \<open>lb\<close> the edge routers' ends
  and \<open>sa\<close> and \<open>sb\<close> the router's ends of their connections.
\<close>

definition relay ::
    "Env \<Rightarrow> Env \<Rightarrow> Env \<Rightarrow> P2P \<Rightarrow> SigChecker \<Rightarrow> Request \<Rightarrow> SignatureAlgorithm \<Rightarrow> MmtpMessage \<Rightarrow> nat \<Rightarrow> nat \<Rightarrow> nat \<Rightarrow>
     EdgeRouter \<times> Io \<times> Io \<Rightarrow> MMSRouter \<times> Io \<times> Io \<Rightarrow> EdgeRouter \<times> Io \<Rightarrow> (EdgeRouter \<times> MMSRouter \<times> EdgeRouter) option" where
  "relay envA env envB p2p chk req alg m a ea eb sA sR sB =
     (let (A, ioa, la) = sA; (r, sa, sb) = sR
      in do {
        (A, ioa) \<leftarrow> returned (handleSend envA chk req alg m a (A, ioa));
        (A, la) \<leftarrow> returned (handleOutgoingMessages envA False [] (A, la));
        (r, sa) \<leftarrow> returned (router_round env p2p ea (r, passed la sa));
        let (c, sb) = CheckNewMessages env [After5s] (erHeap r eb, sb);
        (r, B) \<leftarrow> collect env envB p2p eb (upd_er eb (\<lambda>_. c) r, sb) sB;
        Some (A, r, B)
      })"

section \<open>One leg after the other\<close>

text \<open>A message that is written decodes to the same message at the other end.\<close>

definition carries :: "Env \<Rightarrow> Env \<Rightarrow> MmtpMessage \<Rightarrow> bool" where
  "carries env env' m \<longleftrightarrow> (\<exists>b. marshal env m = Some b \<and> unmarshal env' b = Some m)"

lemma read_passed:
  assumes "link_up to" and "framesOf from = fs @ [b]" and "unmarshal env b = Some m"
  shows "\<exists>c. ReadMessage env (ws (passed from to)) = (c, Inr (m, length b))
    \<and> link_up ((passed from to)\<lparr>ws := c\<rparr>) \<and> uuidn (passed from to) = uuidn to \<and> clockn (passed from to) = clockn to"
  using assms by (auto simp: link_up_def passed_def ReadMessage_def)

lemma queue_all_once:
  "Uuid m \<noteq> '''' \<Longrightarrow> Notifications (h b) = N \<Longrightarrow> N \<in> {[], [(Uuid m, m)]} \<Longrightarrow>
   Notifications (queue_all m as h b) = (if b \<in> set as then [(Uuid m, m)] else N)"
proof (induction as arbitrary: h N)
  case (Cons x xs)
  then show ?case
    by (cases "x = b") (auto simp: queue_all_def QueueMessage_def mput_def Let_def)
qed (simp add: queue_all_def)

text \<open>The router stores the message for the session and announces it.\<close>

lemma announce:
  assumes "link_up io" and "Notifications c = [(Uuid m, m)]"
    and "marshal env (mkProtocol (newUuid env (uuidn io)) ProtocolMessageType_NOTIFY_MESSAGE
           (ProtocolMessage_NotifyMessage (Some \<lparr>Notify_MessageMetadata = [metadataOf m]\<rparr>))) = Some b"
  shows "\<exists>io'. CheckNewMessages env [After5s] (c, io) = (c\<lparr>Notifications := []\<rparr>, io')
    \<and> link_up io' \<and> framesOf io' = framesOf io @ [b] \<and> uuidn io' = Suc (uuidn io)"
proof -
  have "link_up (io\<lparr>uuidn := Suc (uuidn io)\<rparr>)" using assms(1) by (simp add: link_up_def)
  from link_up_write [OF this assms(3)] obtain io' where
    "write_io env (io\<lparr>uuidn := Suc (uuidn io)\<rparr>) (mkProtocol (newUuid env (uuidn io)) ProtocolMessageType_NOTIFY_MESSAGE
           (ProtocolMessage_NotifyMessage (Some \<lparr>Notify_MessageMetadata = [metadataOf m]\<rparr>))) = (io', None)"
    "link_up io'" "framesOf io' = framesOf io @ [b]" "uuidn io' = Suc (uuidn io)"
    by (auto simp: framesOf_def)
  then show ?thesis
    by (intro exI [of _ io']) (simp add: notify_def NewString_def assms(2) mdel_all_def mdel_def Let_def)
qed

lemma HandleReceive_single:
  assumes "mget (Messages c) u = Some m" and "link_up io"
    and "marshal env (mkResponse (newUuid env (uuidn io))
           ((goodResponse q)\<lparr>RM_MessageContent := [\<lparr>MC_Uuid = u, MC_Msg = appMsgOf m\<rparr>]\<rparr>)) = Some b"
  shows "\<exists>io'. HandleReceive env (receiveRequest q [u]) (c, io) =
      Return (c\<lparr>Messages := mdel u (Messages c), Notifications := mdel u (Notifications c)\<rparr>, io') None
    \<and> framesOf io' = framesOf io @ [b]"
proof -
  let ?r = "(goodResponse q)\<lparr>RM_MessageContent := [\<lparr>MC_Uuid = u, MC_Msg = appMsgOf m\<rparr>]\<rparr>"
  have "link_up (io\<lparr>uuidn := Suc (uuidn io)\<rparr>)" using assms(2) by (simp add: link_up_def)
  from link_up_write [OF this assms(3)] obtain io' where
    "respond env io ?r = (io', None)" "framesOf io' = framesOf io @ [b]"
    by (auto simp: respond_def NewString_def framesOf_def)
  with assms(1) show ?thesis
    by (intro exI [of _ io']) (simp add: HandleReceive_def receiveRequest_def Let_def)
qed

section \<open>The whole way\<close>

lemma send_and_forward:
  assumes "AuthenticateConsumer req mrn = (alg, au, err)" and "GetSendMessage (GetProtocolMessage (Some m)) = Some sm"
    and "MsgType m = MsgType_PROTOCOL_MESSAGE" and "send_accepted chk req alg m (agentHeap A a)"
    and "chan_ready (outgoingChannel A)" and "cbuf (outgoingChannel A) = []"
    and "link_up la" and "marshal env m = Some b"
  shows "\<exists>A1 ioa' A2 la'. handleSend env chk req alg m a (A, ioa) = Return (A1, ioa') ()
    \<and> handleOutgoingMessages env False [] (A1, la) = Return (A2, la') ()
    \<and> delivered m (local_receivers A a m) (agentHeap A) (agentHeap A2) \<and> framesOf la' = framesOf la @ [b]"
proof -
  let ?A = "A\<lparr>outgoingChannel := (outgoingChannel A)\<lparr>cbuf := [m]\<rparr>\<rparr>"
  obtain h where h: "deliver_local m (headerOf m) a ?A = ?A\<lparr>agentHeap := h\<rparr>"
    "delivered m (local_receivers ?A a m) (agentHeap ?A) h"
    using deliver_local_delivered [of m a ?A] by blast
  have l: "local_receivers ?A a m = local_receivers A a m" by (simp add: local_receivers_def Let_def)
  have s: "handleSend env chk req alg m a (A, ioa) = Return (?A\<lparr>agentHeap := h\<rparr>, fst (respond env ioa (goodResponse (Uuid m)))) ()"
    using handleSend_cases [OF assms(1,2), of chk A a env ioa] assms(4,6) chan_send_state [OF assms(5)] h(1) by simp
  have "cbuf (outgoingChannel (?A\<lparr>agentHeap := h\<rparr>)) = [m]" by simp
  from outgoing_round [OF this assms(3,7,8), of False "[]"] s h(2) l show ?thesis by auto
qed

lemma router_round_send:
  assumes "ReadMessage env (ws io) = (c, Inr (m, n))" and "n \<le> MessageSizeLimit_R"
    and "MsgType m = MsgType_PROTOCOL_MESSAGE" and "GetProtocolMessage (Some m) = Some p"
    and "ProtocolMsgType p = ProtocolMessageType_SEND_MESSAGE" and "GetSendMessage (Some p) = Some sm"
    and "Uuid m \<noteq> ''''" and "send_free r" and "chan_ready (outgoingChannel_R r)"
    and "eb \<in> router_receivers r e m" and "Notifications (erHeap r eb) = []"
  shows "\<exists>r' io'. router_round env p2p e (r, io) = Return (r', io') True
    \<and> mget (Messages (erHeap r' eb)) (Uuid m) = Some m \<and> Notifications (erHeap r' eb) = [(Uuid m, m)]"
proof -
  have "GetSendMessage (GetProtocolMessage (Some m)) = Some sm" using assms(4,6) by simp
  from handleSend_R_queues [OF this assms(7-9), of e env "io\<lparr>ws := c\<rparr>"] obtain as where as: "eb \<in> set as"
    and run: "handleSend_R env m e (r, io\<lparr>ws := c\<rparr>) =
      Return (r\<lparr>outgoingChannel_R := (outgoingChannel_R r)\<lparr>cbuf := cbuf (outgoingChannel_R r) @ [m]\<rparr>,
                erHeap := queue_all m as (erHeap r)\<rparr>,
              fst (respond env (io\<lparr>ws := c\<rparr>) (goodResponse (Uuid m)))) ()" using assms(10) by blast
  have "Notifications (queue_all m as (erHeap r) eb) = [(Uuid m, m)]"
    using queue_all_once [of m "erHeap r" eb "[]" as] assms(7,11) as by simp
  with as run assms(1-5,7) show ?thesis
    by (simp add: router_round_def handle_message_R_def queue_all_Messages Let_def)
qed

lemma router_round_receive:
  assumes "ReadMessage env (ws io) = (c, Inr (receiveRequest q [u], n))" and "link_up (io\<lparr>ws := c\<rparr>)"
    and "mget (Messages (erHeap r e)) u = Some m"
    and "marshal env (mkResponse (newUuid env (uuidn io))
           ((goodResponse q)\<lparr>RM_MessageContent := [\<lparr>MC_Uuid = u, MC_Msg = appMsgOf m\<rparr>]\<rparr>)) = Some b"
  shows "\<exists>r' io'. router_round env p2p e (r, io) = Return (r', io') True
    \<and> mget (Messages (erHeap r' e)) u = None \<and> framesOf io' = framesOf (io\<lparr>ws := c\<rparr>) @ [b]"
proof -
  from HandleReceive_single [OF assms(3,2), of env q b] assms(4) obtain io' where
    "HandleReceive env (receiveRequest q [u]) (erHeap r e, io\<lparr>ws := c\<rparr>) =
      Return ((erHeap r e)\<lparr>Messages := mdel u (Messages (erHeap r e)), Notifications := mdel u (Notifications (erHeap r e))\<rparr>, io') None"
    "framesOf io' = framesOf (io\<lparr>ws := c\<rparr>) @ [b]" by auto
  with assms(1) show ?thesis
    by (simp add: router_round_def handle_message_R_def receiveRequest_def on_er_def upd_er_def Let_def)
qed

lemma read_notify:
  assumes "ReadMessage env (ws io) = (c, Inr (mkProtocol v ProtocolMessageType_NOTIFY_MESSAGE
       (ProtocolMessage_NotifyMessage (Some \<lparr>Notify_MessageMetadata = [metadataOf m]\<rparr>)), n))"
    and "uuidValid env v" and "chan_ready (outgoingChannel er)" and "cbuf (outgoingChannel er) = []"
  shows "handleIncomingMessages env canceled ping dials (er, io) =
    Return (er\<lparr>outgoingChannel := (outgoingChannel er)\<lparr>cbuf := [receiveRequest (newUuid env (uuidn io)) [Uuid m]]\<rparr>\<rparr>,
            io\<lparr>ws := c, uuidn := Suc (uuidn io)\<rparr>) ()"
  using assms
  by (simp add: handleIncomingMessages_def handleNotify_def NewString_def metadataOf_def mkProtocol_def
      er_send_def chan_send_def chan_ready_def Let_def)

text \<open>What comes of a content at an edge router: nothing if it is discarded, else it is delivered under the next UUID.\<close>

definition taken_in :: "Env \<Rightarrow> int \<Rightarrow> string \<Rightarrow> ApplicationMessage option \<Rightarrow> EdgeRouter \<Rightarrow> EdgeRouter \<Rightarrow> bool" where
  "taken_in env now k x er er' \<longleftrightarrow>
     (if now \<le> GetExpires (GetHeader x) \<and> GetExpires (GetHeader x) \<le> now + 2592000
      then delivered (sendRequest k x) (incoming_receivers er x) (agentHeap er) (agentHeap er')
      else agentHeap er' = agentHeap er)"

lemma read_content:
  assumes "ReadMessage env (ws io) = (c, Inr (mkResponse v ((goodResponse q)\<lparr>RM_MessageContent := [\<lparr>MC_Uuid = u, MC_Msg = x\<rparr>]\<rparr>), n))"
    and "uuidValid env v" and "x \<noteq> None"
  shows "\<exists>er' io'. handleIncomingMessages env canceled ping dials (er, io) = Return (er', io') ()
    \<and> taken_in env (clock env (clockn io)) (newUuid env (uuidn io)) x er er'"
proof -
  let ?rm = "(goodResponse q)\<lparr>RM_MessageContent := [\<lparr>MC_Uuid = u, MC_Msg = x\<rparr>]\<rparr>"
  let ?e = "er\<lparr>awaitResponse := mdel q (awaitResponse er)\<rparr>" and ?io = "io\<lparr>ws := c, clockn := Suc (clockn io)\<rparr>"
  have run: "handleIncomingMessages env canceled ping dials (er, io) =
      Return (deliver_contents env (clock env (clockn io)) [\<lparr>MC_Uuid = u, MC_Msg = x\<rparr>] (?e, ?io)) ()"
    using assms(1,2) by (simp add: handleIncomingMessages_def handle_response_def NowUnix_def Let_def split: option.split)
  have recv: "incoming_receivers ?e x = incoming_receivers er x"
    by (simp add: incoming_receivers_def split: option.split ApplicationMessageHeader_SubjectOrRecipient.split)
  from deliver_content_spec [of env x ?e ?io] obtain h where
    "deliver_content env x (?e, ?io) = (?e\<lparr>agentHeap := h\<rparr>, ?io\<lparr>uuidn := Suc (uuidn io)\<rparr>)"
    "delivered (sendRequest (newUuid env (uuidn io)) x) (incoming_receivers er x) (agentHeap er) h"
    by (auto simp: recv)
  with assms(3) run not_discarded_iff [of "clock env (clockn io)" x] show ?thesis
    by (cases "discarded (clock env (clockn io)) x") (auto simp: taken_in_def)
qed

lemma incoming_receivers_frame:
  "incoming_receivers (er\<lparr>outgoingChannel := ch, awaitResponse := w\<rparr>) x = incoming_receivers er x"
  by (simp add: incoming_receivers_def split: option.split ApplicationMessageHeader_SubjectOrRecipient.split)

lemma collect_delivers:
  assumes "mget (Messages (erHeap r eb)) (Uuid m) = Some m" and "appMsgOf m \<noteq> None"
    and "chan_ready (outgoingChannel B)" and "cbuf (outgoingChannel B) = []"
    and "link_up lb" and "link_up sb" and "framesOf sb = fs @ [bn]"
    and "unmarshal envB bn = Some (mkProtocol v ProtocolMessageType_NOTIFY_MESSAGE
           (ProtocolMessage_NotifyMessage (Some \<lparr>Notify_MessageMetadata = [metadataOf m]\<rparr>)))"
    and "uuidValid envB v" and "uuidValid envB (newUuid env (uuidn sb))"
    and "rq = receiveRequest (newUuid envB (uuidn lb)) [Uuid m]" and "carries envB env rq"
    and "answer = mkResponse (newUuid env (uuidn sb))
           ((goodResponse (newUuid envB (uuidn lb)))\<lparr>RM_MessageContent := [\<lparr>MC_Uuid = Uuid m, MC_Msg = appMsgOf m\<rparr>]\<rparr>)"
    and "carries env envB answer"
  shows "\<exists>r' B'. collect env envB p2p eb (r, sb) (B, lb) = Some (r', B')
    \<and> mget (Messages (erHeap r' eb)) (Uuid m) = None
    \<and> taken_in envB (clock envB (clockn lb)) (newUuid envB (Suc (uuidn lb))) (appMsgOf m) B B'"
proof -
  from assms(12,14) obtain bq br where bq: "marshal envB rq = Some bq" "unmarshal env bq = Some rq"
    and br: "marshal env answer = Some br" "unmarshal envB br = Some answer" unfolding carries_def by blast
  from read_passed [OF assms(5,7,8)] obtain c2 n where
    c2: "ReadMessage envB (ws (passed sb lb)) = (c2, Inr (mkProtocol v ProtocolMessageType_NOTIFY_MESSAGE
           (ProtocolMessage_NotifyMessage (Some \<lparr>Notify_MessageMetadata = [metadataOf m]\<rparr>)), n))"
      "link_up ((passed sb lb)\<lparr>ws := c2\<rparr>)" "uuidn (passed sb lb) = uuidn lb" "clockn (passed sb lb) = clockn lb" by blast
  define lb1 where "lb1 = (passed sb lb)\<lparr>ws := c2, uuidn := Suc (uuidn lb)\<rparr>"
  define B1 where "B1 = B\<lparr>outgoingChannel := (outgoingChannel B)\<lparr>cbuf := [rq]\<rparr>\<rparr>"
  have asked: "handleIncomingMessages envB False False [] (B, passed sb lb) = Return (B1, lb1) ()"
    using read_notify [OF c2(1) assms(9,3,4)] c2(3) by (simp add: B1_def lb1_def assms(11))
  have lb1: "link_up lb1" using c2(2) by (simp add: lb1_def link_up_def)
  have q: "cbuf (outgoingChannel B1) = [rq]" "MsgType rq = MsgType_PROTOCOL_MESSAGE"
    by (simp_all add: B1_def assms(11) receiveRequest_def)
  from outgoing_round [OF q lb1 bq(1), of False "[]"] obtain w lb2 where
    requested: "handleOutgoingMessages envB False [] (B1, lb1) =
      Return (B1\<lparr>outgoingChannel := (outgoingChannel B1)\<lparr>cbuf := []\<rparr>, awaitResponse := w\<rparr>, lb2) ()"
    and lb2: "link_up lb2" "framesOf lb2 = framesOf lb1 @ [bq]" "clockn lb2 = clockn lb1" "uuidn lb2 = uuidn lb1" by blast
  let ?B2 = "B1\<lparr>outgoingChannel := (outgoingChannel B1)\<lparr>cbuf := []\<rparr>, awaitResponse := w\<rparr>"
  from read_passed [OF assms(6) lb2(2) bq(2)] obtain c3 where
    c3: "ReadMessage env (ws (passed lb2 sb)) = (c3, Inr (rq, length bq))" "link_up ((passed lb2 sb)\<lparr>ws := c3\<rparr>)"
      "uuidn (passed lb2 sb) = uuidn sb" by blast
  from router_round_receive [OF c3(1) [unfolded assms(11)] c3(2) assms(1), of br p2p] br(1) c3(3) assms(13) obtain r3 sb2 where
    handed: "router_round env p2p eb (r, passed lb2 sb) = Return (r3, sb2) True" "mget (Messages (erHeap r3 eb)) (Uuid m) = None"
    and sb2: "framesOf sb2 = framesOf ((passed lb2 sb)\<lparr>ws := c3\<rparr>) @ [br]" by auto
  from read_passed [OF lb2(1) sb2 br(2)] obtain c4 where
    c4: "ReadMessage envB (ws (passed sb2 lb2)) = (c4, Inr (answer, length br))"
      "clockn (passed sb2 lb2) = clockn lb" "uuidn (passed sb2 lb2) = Suc (uuidn lb)"
    using lb2(3,4) c2(4) by (auto simp: lb1_def)
  from read_content [OF c4(1) [unfolded assms(13)] assms(10,2), of False False "[]" ?B2, unfolded c4(2,3)] obtain B3 lb3 where
    read: "handleIncomingMessages envB False False [] (?B2, passed sb2 lb2) = Return (B3, lb3) ()"
    and got: "taken_in envB (clock envB (clockn lb)) (newUuid envB (Suc (uuidn lb))) (appMsgOf m) ?B2 B3" by auto
  have "incoming_receivers ?B2 x = incoming_receivers B x" for x
    using incoming_receivers_frame [where er = B] by (simp add: B1_def)
  then have "taken_in envB (clock envB (clockn lb)) (newUuid envB (Suc (uuidn lb))) (appMsgOf m) B B3"
    using got by (auto simp: taken_in_def B1_def split: if_splits)
  then show ?thesis by (simp add: collect_def asked requested handed read)
qed

section \<open>Properties\<close>

text \<open>
  C4: the way of an accepted Send, once through, from an agent of one edge router to the agents of
  another one at the same router, when nothing else is under way: the outgoing queues of both edge
  routers are empty, the receiving session has no other notification pending, no lock is held and no
  channel full, both connections are up and what one side encodes the other side decodes. At the
  sender's edge router the local receivers have the Send stored at once; the edge router forwards it,
  the router stores it for the session of the other edge router, which is among its receivers,
  announces it there, and hands it out for the Receive that follows. In the end it has left the
  router's store of that session. If by the clock of the receiving edge router the message has not
  expired and expires within thirty days, its application message is then stored there, under the
  next UUID drawn, which is new, for exactly the local subscribers of its subject or the named agents that take
  direct messages, and nothing else in a store changes; otherwise it is dropped there, although the
  sender was answered GOOD.
\<close>

theorem send_reaches_other_agents:
  assumes "AuthenticateConsumer req mrn = (alg, au, err)" and "send_accepted chk req alg m (agentHeap A a)"
    and "MsgType m = MsgType_PROTOCOL_MESSAGE" and "GetProtocolMessage (Some m) = Some p"
    and "ProtocolMsgType p = ProtocolMessageType_SEND_MESSAGE" and "GetSendMessage (Some p) = Some sm" and "Uuid m \<noteq> ''''"
    and "chan_ready (outgoingChannel A)" and "cbuf (outgoingChannel A) = []"
    and "chan_ready (outgoingChannel B)" and "cbuf (outgoingChannel B) = []"
    and "send_free r" and "chan_ready (outgoingChannel_R r)"
    and "eb \<in> router_receivers r ea m" and "Notifications (erHeap r eb) = []"
    and "link_up la" and "link_up sa" and "link_up lb" and "link_up sb"
    and "\<forall>b. marshal envA m = Some b \<longrightarrow> length b \<le> MessageSizeLimit_R"
    and "notice = mkProtocol (newUuid env (uuidn sb)) ProtocolMessageType_NOTIFY_MESSAGE
           (ProtocolMessage_NotifyMessage (Some \<lparr>Notify_MessageMetadata = [metadataOf m]\<rparr>))"
    and "rq = receiveRequest (newUuid envB (uuidn lb)) [Uuid m]"
    and "answer = mkResponse (newUuid env (Suc (uuidn sb)))
           ((goodResponse (newUuid envB (uuidn lb)))\<lparr>RM_MessageContent := [\<lparr>MC_Uuid = Uuid m, MC_Msg = appMsgOf m\<rparr>]\<rparr>)"
    and "carries envA env m" and "carries env envB notice" and "carries envB env rq" and "carries env envB answer"
    and "\<forall>n. uuidValid envB (newUuid env n)" and "uuids_ok envB"
    and "now = clock envB (clockn lb)" and "k = newUuid envB (Suc (uuidn lb))"
  shows "\<exists>A' r' B'. relay envA env envB p2p chk req alg m a ea eb (A, ioa, la) (r, sa, sb) (B, lb) = Some (A', r', B')
    \<and> delivered m (local_receivers A a m) (agentHeap A) (agentHeap A')
    \<and> mget (Messages (erHeap r' eb)) (Uuid m) = None
    \<and> k \<noteq> '''' \<and> k \<notin> newUuid envB ` {..uuidn lb}
    \<and> (if now \<le> GetExpires (headerOf m) \<and> GetExpires (headerOf m) \<le> now + 2592000
       then delivered (sendRequest k (appMsgOf m)) (incoming_receivers B (appMsgOf m)) (agentHeap B) (agentHeap B')
       else agentHeap B' = agentHeap B)"
proof -
  from assms(24,25) obtain bm bn where
    bm: "marshal envA m = Some bm" "unmarshal env bm = Some m"
    and bn: "marshal env notice = Some bn" "unmarshal envB bn = Some notice"
    unfolding carries_def by blast
  have sm: "GetSendMessage (GetProtocolMessage (Some m)) = Some sm" using assms(4,6) by simp
  from send_and_forward [OF assms(1) sm assms(3,2,8,9,16) bm(1), of ioa] obtain A1 ioa1 A2 la1 where
    sent: "handleSend envA chk req alg m a (A, ioa) = Return (A1, ioa1) ()"
      "handleOutgoingMessages envA False [] (A1, la) = Return (A2, la1) ()"
    and local: "delivered m (local_receivers A a m) (agentHeap A) (agentHeap A2)"
    and la1: "framesOf la1 = framesOf la @ [bm]" by blast
  from read_passed [OF assms(17) la1 bm(2)] obtain c1 where
    "ReadMessage env (ws (passed la1 sa)) = (c1, Inr (m, length bm))" by blast
  from router_round_send [OF this _ assms(3-7,12-15), of p2p] assms(20) bm(1) obtain r1 sa1 where
    stored: "router_round env p2p ea (r, passed la1 sa) = Return (r1, sa1) True"
      "mget (Messages (erHeap r1 eb)) (Uuid m) = Some m" "Notifications (erHeap r1 eb) = [(Uuid m, m)]" by auto
  from announce [OF assms(19) stored(3) bn(1) [unfolded assms(21)]] obtain sb1 where
    told: "CheckNewMessages env [After5s] (erHeap r1 eb, sb) = ((erHeap r1 eb)\<lparr>Notifications := []\<rparr>, sb1)"
    and sb1: "link_up sb1" "framesOf sb1 = framesOf sb @ [bn]" "uuidn sb1 = Suc (uuidn sb)" by blast
  define r2 where "r2 = upd_er eb (\<lambda>_. (erHeap r1 eb)\<lparr>Notifications := []\<rparr>) r1"
  have kept: "mget (Messages (erHeap r2 eb)) (Uuid m) = Some m" using stored(2) by (simp add: r2_def upd_er_def)
  have app: "appMsgOf m \<noteq> None"
    using assms(14) by (cases "appMsgOf m") (auto simp: router_receivers_def Let_def)
  from collect_delivers [OF kept app assms(10,11,18) sb1(1,2) bn(2) [unfolded assms(21)] _ _ assms(22,26),
      unfolded sb1(3), OF _ _ assms(23,27), of p2p] assms(28) obtain r3 B3 where
    got: "collect env envB p2p eb (r2, sb1) (B, lb) = Some (r3, B3)" "mget (Messages (erHeap r3 eb)) (Uuid m) = None"
      "taken_in envB now k (appMsgOf m) B B3"
    unfolding assms(30,31) by blast
  have "relay envA env envB p2p chk req alg m a ea eb (A, ioa, la) (r, sa, sb) (B, lb) = Some (A2, r3, B3)"
    by (simp add: relay_def sent stored(1) told got(1) r2_def [symmetric] del: CheckNewMessages.simps)
  moreover have "k \<noteq> ''''" "k \<notin> newUuid envB ` {..uuidn lb}"
    using assms(29) by (auto simp: assms(31) uuids_ok_def inj_eq)
  ultimately show ?thesis using local got(2,3) [unfolded taken_in_def] by blast
qed


definition sample_notice :: MmtpMessage where
  "sample_notice = mkProtocol ''u0'' ProtocolMessageType_NOTIFY_MESSAGE
     (ProtocolMessage_NotifyMessage (Some \<lparr>Notify_MessageMetadata = [metadataOf (sample_msg ''m'' ''s'' 20)]\<rparr>))"

definition sample_answer :: MmtpMessage where
  "sample_answer = mkResponse ''u1'' ((goodResponse ''u0'')
     \<lparr>RM_MessageContent := [\<lparr>MC_Uuid = ''m'', MC_Msg = Some (sample_app ''s'' 20)\<rparr>]\<rparr>)"

theorem send_reaches_other_agents_witness:
  "\<exists>A' r' B'. relay (sample_env (\<lambda>_. 10) (\<lambda>_. None))
       (sample_env (\<lambda>_. 10) (\<lambda>b. Some (if b = ''m'' then sample_msg ''m'' ''s'' 20 else receiveRequest ''u0'' [''m''])))
       (sample_env (\<lambda>_. 10) (\<lambda>b. Some (if b = ''u0'' then sample_notice else sample_answer)))
       sample_p2p (\<lambda>_ _ _ sig. sig = ''sig'') (sample_request (Some ''urn:mrn:a'')) ECDSAWithSHA256
       (sample_msg ''m'' ''s'' 20) 0 0 1
       (sample_er, sample_io [] (\<lambda>_. False), sample_io [] (\<lambda>_. False))
       (sample_r, sample_io [] (\<lambda>_. False), sample_io [] (\<lambda>_. False))
       (sample_er, sample_io [] (\<lambda>_. False)) = Some (A', r', B')
   \<and> mget (Messages (agentHeap A' 1)) ''m'' = Some (sample_msg ''m'' ''s'' 20)
   \<and> mget (Messages (agentHeap B' 1)) ''u1'' = Some (sendRequest ''u1'' (Some (sample_app ''s'' 20)))"
proof -
  let ?m = "sample_msg ''m'' ''s'' 20" and ?io = "sample_io [] (\<lambda>_. False)" and ?req = "sample_request (Some ''urn:mrn:a'')"
  let ?envA = "sample_env (\<lambda>_. 10) (\<lambda>_. None)"
    and ?env = "sample_env (\<lambda>_. 10) (\<lambda>b. Some (if b = ''m'' then ?m else receiveRequest ''u0'' [''m'']))"
    and ?envB = "sample_env (\<lambda>_. 10) (\<lambda>b. Some (if b = ''u0'' then sample_notice else sample_answer))"
  have auth: "AuthenticateConsumer ?req ''urn:mrn:a'' = (ECDSAWithSHA256, True, None)"
    by (rule sample_request_auth) simp_all
  have acc: "send_accepted (\<lambda>_ _ _ sig. sig = ''sig'') ?req ECDSAWithSHA256 ?m (agentHeap sample_er 0)"
    by (simp add: send_accepted_def sample_request_def sample_app_def)
  obtain p sm where p: "GetProtocolMessage (Some ?m) = Some p" "ProtocolMsgType p = ProtocolMessageType_SEND_MESSAGE"
    "GetSendMessage (Some p) = Some sm" by simp
  have m: "MsgType ?m = MsgType_PROTOCOL_MESSAGE" "Uuid ?m \<noteq> ''''" "Uuid ?m = ''m''" "appMsgOf ?m = Some (sample_app ''s'' 20)"
    by (simp_all add: sample_msg_def)
  have q: "chan_ready (outgoingChannel sample_er)" "cbuf (outgoingChannel sample_er) = []"
    by (simp_all add: sample_er_def NewEdgeRouter_def chan_ready_def ChannelBufSize_def)
  have r: "1 \<in> router_receivers sample_r 0 ?m" "Notifications (erHeap sample_r 1) = []"
    by (simp_all add: router_receivers_def subscribers_of_def Let_def sample_r_def new_consumer_def)
  have l: "link_up ?io" "\<forall>b. marshal ?envA ?m = Some b \<longrightarrow> length b \<le> MessageSizeLimit_R"
    by (simp_all add: link_up_def sample_defs MessageSizeLimit_R_def)
  have u: "newUuid ?env (uuidn ?io) = ''u0''" "newUuid ?envB (uuidn ?io) = ''u0''" "newUuid ?env (Suc (uuidn ?io)) = ''u1''"
    by (simp_all add: sample_defs, code_simp+)
  have eqs: "sample_notice = mkProtocol (newUuid ?env (uuidn ?io)) ProtocolMessageType_NOTIFY_MESSAGE
      (ProtocolMessage_NotifyMessage (Some \<lparr>Notify_MessageMetadata = [metadataOf ?m]\<rparr>))"
    "receiveRequest ''u0'' [''m''] = receiveRequest (newUuid ?envB (uuidn ?io)) [Uuid ?m]"
    "sample_answer = mkResponse (newUuid ?env (Suc (uuidn ?io)))
       ((goodResponse (newUuid ?envB (uuidn ?io)))\<lparr>RM_MessageContent := [\<lparr>MC_Uuid = Uuid ?m, MC_Msg = appMsgOf ?m\<rparr>]\<rparr>)"
    unfolding u m(3,4) by (simp_all add: sample_notice_def sample_answer_def)
  have c: "carries ?envA ?env ?m" "carries ?env ?envB sample_notice" "carries ?envB ?env (receiveRequest ''u0'' [''m''])"
    "carries ?env ?envB sample_answer" "\<forall>n. uuidValid ?envB (newUuid ?env n)"
    by (simp_all add: carries_def sample_defs receiveRequest_def sample_notice_def sample_answer_def)
  have t: "10 = clock ?envB (clockn ?io)" "''u1'' = newUuid ?envB (Suc (uuidn ?io))"
    by (simp add: sample_defs) (simp add: sample_defs, code_simp)
  have b: "1 \<in> local_receivers sample_er 0 ?m" "1 \<in> incoming_receivers sample_er (appMsgOf ?m)"
    by (simp_all add: local_receivers_def incoming_receivers_def Let_def)
  from send_reaches_other_agents [OF auth acc m(1) p m(2) q q sample_send_free sample_r_simps(11) r l(1,1,1,1,2) eqs c
      sample_uuids_ok t, of sample_p2p ?io] obtain A' r' B' where
    run: "relay ?envA ?env ?envB sample_p2p (\<lambda>_ _ _ sig. sig = ''sig'') ?req ECDSAWithSHA256 ?m 0 0 1
        (sample_er, ?io, ?io) (sample_r, ?io, ?io) (sample_er, ?io) = Some (A', r', B')"
    and d: "delivered ?m (local_receivers sample_er 0 ?m) (agentHeap sample_er) (agentHeap A')"
    and k: "if 10 \<le> GetExpires (headerOf ?m) \<and> GetExpires (headerOf ?m) \<le> 10 + 2592000
         then delivered (sendRequest ''u1'' (appMsgOf ?m)) (incoming_receivers sample_er (appMsgOf ?m)) (agentHeap sample_er) (agentHeap B')
         else agentHeap B' = agentHeap sample_er" by blast
  have "mget (Messages (agentHeap A' 1)) ''m'' = Some ?m"
    using d b(1) m(2,3) by (auto simp: delivered_def)
  moreover have "mget (Messages (agentHeap B' 1)) ''u1'' = Some (sendRequest ''u1'' (Some (sample_app ''s'' 20)))"
    using k b(2) m(4) by (auto simp: delivered_def)
  ultimately show ?thesis using run by blast
qed

end
