(* ===== verification/Network.thy ===== *)
theory Network
  imports Relay
begin

text \<open>
  The whole network: the way of a Send on a subject from an agent of one edge router to the agents
  of an edge router at another router, as the composition of every handler of the five programs
  on its way.
\<close>

section \<open>From agent to agent\<close>

text \<open>
  The agent \<open>a\<close> of the edge router \<open>A\<close> sends; \<open>A\<close> forwards to the router \<open>r1\<close>, where its session is
  \<open>ea\<close>; this publishes, and \<open>p2\<close> hands the bytes to the reader of the topic at the router \<open>r2\<close>, which
  stores for its session \<open>eb\<close> of the edge router \<open>B\<close>, announces, and gives the message to \<open>B\<close>. The
  connections are as in \<open>relay\<close>; \<open>io2\<close> is the clock of the goroutine at \<open>r2\<close>.
\<close>

definition crossing ::
    "Env \<Rightarrow> Env \<Rightarrow> Env \<Rightarrow> Env \<Rightarrow> P2P \<Rightarrow> P2P \<Rightarrow> SigChecker \<Rightarrow> Request \<Rightarrow> SignatureAlgorithm \<Rightarrow> MmtpMessage \<Rightarrow> nat \<Rightarrow> nat \<Rightarrow> nat \<Rightarrow>
     EdgeRouter \<times> Io \<times> Io \<Rightarrow> MMSRouter \<times> Io \<Rightarrow> MMSRouter \<times> Io \<times> Io \<Rightarrow> EdgeRouter \<times> Io \<Rightarrow>
     (EdgeRouter \<times> MMSRouter \<times> MMSRouter \<times> EdgeRouter) option" where
  "crossing envA env1 env2 envB p1 p2 chk req alg m a ea eb sA s1 s2 sB =
     (let (A, ioa, la) = sA; (r1, sa) = s1; (r2, io2, sb) = s2
      in do {
        (A, ioa) \<leftarrow> returned (handleSend envA chk req alg m a (A, ioa));
        (A, la) \<leftarrow> returned (handleOutgoingMessages envA False [] (A, la));
        (r1, sa) \<leftarrow> returned (router_round env1 p1 ea (r1, passed la sa));
        r1 \<leftarrow> returned (handleOutgoingMessages_R env1 p1 r1);
        r2 \<leftarrow> returned (handleSubscription env2 p2 (hostID p1) (snd (last (published r1))) r2);
        (r2, io2) \<leftarrow> returned (handleIncomingMessages_R env2 (r2, io2));
        let (c, sb) = CheckNewMessages env2 [After5s] (erHeap r2 eb, sb);
        (r2, B) \<leftarrow> collect env2 envB p2 eb (upd_er eb (\<lambda>_. c) r2, sb) sB;
        Some (A, r1, r2, B)
      })"

section \<open>The legs between the routers\<close>

lemma headerOf_Some_appMsg: "GetSubjectOrRecipient (headerOf m) = Some x \<Longrightarrow> appMsgOf m \<noteq> None"
  by (cases "appMsgOf m") auto

lemma router_round_queues:
  assumes "ReadMessage env (ws io) = (c, Inr (m, n))" and "n \<le> MessageSizeLimit_R"
    and "MsgType m = MsgType_PROTOCOL_MESSAGE" and "GetProtocolMessage (Some m) = Some p"
    and "ProtocolMsgType p = ProtocolMessageType_SEND_MESSAGE" and "GetSendMessage (Some p) = Some sm"
    and "Uuid m \<noteq> ''''" and "send_free r" and "chan_ready (outgoingChannel_R r)" and "cbuf (outgoingChannel_R r) = []"
  shows "\<exists>r' io'. router_round env p2p e (r, io) = Return (r', io') True
    \<and> cbuf (outgoingChannel_R r') = [m] \<and> topicHandles r' = topicHandles r \<and> published r' = published r"
proof -
  have "GetSendMessage (GetProtocolMessage (Some m)) = Some sm" using assms(4,6) by simp
  from handleSend_R_queues [OF this assms(7-9), of e env "io\<lparr>ws := c\<rparr>"] obtain as where
    "handleSend_R env m e (r, io\<lparr>ws := c\<rparr>) =
      Return (r\<lparr>outgoingChannel_R := (outgoingChannel_R r)\<lparr>cbuf := cbuf (outgoingChannel_R r) @ [m]\<rparr>,
                erHeap := queue_all m as (erHeap r)\<rparr>,
              fst (respond env (io\<lparr>ws := c\<rparr>) (goodResponse (Uuid m)))) ()" by blast
  with assms(1-5,10) show ?thesis by (simp add: router_round_def handle_message_R_def Let_def)
qed

lemma publishes_subject:
  assumes "GetSubjectOrRecipient (headerOf m) = Some (ApplicationMessageHeader_Subject s)"
    and "MsgType m = MsgType_PROTOCOL_MESSAGE" and "marshal env m = Some b"
    and "cbuf (outgoingChannel_R r) = [m]" and "joins p2p s" and "publishes p2p (topic_of r s) b"
  shows "\<exists>r'. handleOutgoingMessages_R env p2p r = Return r' () \<and> published r' = published r @ [(topic_of r s, b)]"
proof -
  let ?r = "r\<lparr>outgoingChannel_R := (outgoingChannel_R r)\<lparr>cbuf := []\<rparr>\<rparr>"
  have "topic_of ?r s = topic_of r s" by (simp add: topic_of_def)
  with publish_eq [of p2p s ?r b] assms(5,6) have "published (publish p2p b s ?r) = published r @ [(topic_of r s, b)]" by auto
  moreover have "handleOutgoingMessages_R env p2p r = Return (publish p2p b s ?r) ()"
    using assms(1-4) headerOf_Some_appMsg [OF assms(1)]
    by (cases "appMsgOf m") (simp_all add: handleOutgoingMessages_R_def Let_def)
  ultimately show ?thesis by blast
qed

lemma arrives:
  assumes "GetSubjectOrRecipient (headerOf m) = Some (ApplicationMessageHeader_Subject s)"
    and "MsgType m = MsgType_PROTOCOL_MESSAGE" and "GetSendMessage (GetProtocolMessage (Some m)) = Some sm"
    and "Uuid m \<noteq> ''''" and "unmarshal env b = Some m" and "uuidValid env (Uuid m)" and "uuidVersion4 p2p (Uuid m)"
    and "from \<noteq> hostID p2p" and "\<not> writer (subMu r)" and "chan_ready (incomingChannel r)" and "cbuf (incomingChannel r) = []"
    and "eb \<in> subscribers_of r s" and "Notifications (erHeap r eb) = []"
    and "clock env (clockn io) \<le> GetExpires (headerOf m)" and "GetExpires (headerOf m) \<le> clock env (clockn io) + 2592000"
  shows "\<exists>r1 r2 io2. handleSubscription env p2p from b r = Return r1 ()
    \<and> handleIncomingMessages_R env (r1, io) = Return (r2, io2) ()
    \<and> mget (Messages (erHeap r2 eb)) (Uuid m) = Some m \<and> Notifications (erHeap r2 eb) = [(Uuid m, m)]"
proof -
  define r1 where "r1 = r\<lparr>incomingChannel := (incomingChannel r)\<lparr>cbuf := [m]\<rparr>\<rparr>"
  have r1: "handleSubscription env p2p from b r = Return r1 ()"
    using assms(2,3,5-8,10,11) by (simp add: handleSubscription_def r1_def)
  from assms(12) obtain sub where sub: "mget (subscriptions_R r) s = Some sub" "eb \<in> set (map snd (Subscribers_R sub))"
    by (auto simp: subscribers_of_def split: option.splits)
  let ?h = "queue_all m (map snd (Subscribers_R sub)) (erHeap r)"
  let ?r2 = "r1\<lparr>incomingChannel := (incomingChannel r1)\<lparr>cbuf := []\<rparr>, erHeap := ?h\<rparr>"
  have "handleIncomingMessages_R env (r1, io) = Return (?r2, io\<lparr>clockn := Suc (clockn io)\<rparr>) ()"
    using assms(1,2,9,14,15) headerOf_Some_appMsg [OF assms(1)] sub(1)
    by (cases "appMsgOf m")
      (simp_all add: handleIncomingMessages_R_def r1_def NowUnix_def ExpirationLimit_R_def queue_subscription_def RLock_def Let_def)
  moreover have "Notifications (?h eb) = [(Uuid m, m)]"
    using queue_all_once [of m "erHeap r" eb "[]"] assms(4,13) sub(2) by simp
  moreover have "mget (Messages (?h eb)) (Uuid m) = Some m"
    using assms(4) sub(2) by (simp add: queue_all_Messages)
  ultimately show ?thesis using r1 by (intro exI [of _ r1] exI [of _ ?r2]) simp
qed

section \<open>Properties\<close>

text \<open>
  C5: the way of an accepted Send on a subject through the router network, once through, when nothing
  else is under way: the queues of both edge routers and of both routers are empty, the receiving
  session has no other notification pending, no lock is held and no channel full, the connections
  are up, what one side encodes the other decodes, the topic can be joined and published on, the
  UUID is a version 4 UUID, and by the clock of the far router the message has not expired and
  expires within thirty days. The sender's edge router stores it for its own receivers and forwards
  it; its router publishes its encoding on the topic of the subject; the other router, given these
  bytes from a foreign peer, stores and announces it for the session of a subscribed edge router and
  hands it out for the Receive that follows. In the end it has left the store of that session. If
  it is within the same limits by the clock of the far edge router, its application message is then
  stored there, under the next UUID drawn, which is new, for exactly the subscribers of the subject,
  and nothing else in a store changes; otherwise it is dropped there, although the sender was
  answered GOOD.
\<close>

theorem send_crosses_network:
  assumes "AuthenticateConsumer req mrn = (alg, au, err)" and "send_accepted chk req alg m (agentHeap A a)"
    and "GetSubjectOrRecipient (headerOf m) = Some (ApplicationMessageHeader_Subject s)"
    and "MsgType m = MsgType_PROTOCOL_MESSAGE" and "GetProtocolMessage (Some m) = Some p"
    and "ProtocolMsgType p = ProtocolMessageType_SEND_MESSAGE" and "GetSendMessage (Some p) = Some sm" and "Uuid m \<noteq> ''''"
    and "chan_ready (outgoingChannel A)" and "cbuf (outgoingChannel A) = []"
    and "chan_ready (outgoingChannel B)" and "cbuf (outgoingChannel B) = []"
    and "send_free r1" and "chan_ready (outgoingChannel_R r1)" and "cbuf (outgoingChannel_R r1) = []"
    and "\<not> writer (subMu r2)" and "chan_ready (incomingChannel r2)" and "cbuf (incomingChannel r2) = []"
    and "eb \<in> subscribers_of r2 s" and "Notifications (erHeap r2 eb) = []"
    and "link_up la" and "link_up sa" and "link_up lb" and "link_up sb"
    and "marshal envA m = Some b" and "unmarshal env1 b = Some m" and "length b \<le> MessageSizeLimit_R"
    and "marshal env1 m = Some b1" and "unmarshal env2 b1 = Some m"
    and "joins p1 s" and "publishes p1 (topic_of r1 s) b1" and "hostID p1 \<noteq> hostID p2"
    and "uuidValid env2 (Uuid m)" and "uuidVersion4 p2 (Uuid m)"
    and "clock env2 (clockn io2) \<le> GetExpires (headerOf m)" and "GetExpires (headerOf m) \<le> clock env2 (clockn io2) + 2592000"
    and "notice = mkProtocol (newUuid env2 (uuidn sb)) ProtocolMessageType_NOTIFY_MESSAGE
           (ProtocolMessage_NotifyMessage (Some \<lparr>Notify_MessageMetadata = [metadataOf m]\<rparr>))"
    and "rq = receiveRequest (newUuid envB (uuidn lb)) [Uuid m]"
    and "answer = mkResponse (newUuid env2 (Suc (uuidn sb)))
           ((goodResponse (newUuid envB (uuidn lb)))\<lparr>RM_MessageContent := [\<lparr>MC_Uuid = Uuid m, MC_Msg = appMsgOf m\<rparr>]\<rparr>)"
    and "carries env2 envB notice" and "carries envB env2 rq" and "carries env2 envB answer"
    and "\<forall>n. uuidValid envB (newUuid env2 n)" and "uuids_ok envB"
    and "now = clock envB (clockn lb)" and "k = newUuid envB (Suc (uuidn lb))"
  shows "\<exists>A' r1' r2' B'. crossing envA env1 env2 envB p1 p2 chk req alg m a ea eb (A, ioa, la) (r1, sa) (r2, io2, sb) (B, lb)
        = Some (A', r1', r2', B')
    \<and> delivered m (local_receivers A a m) (agentHeap A) (agentHeap A')
    \<and> published r1' = published r1 @ [(topic_of r1 s, b1)]
    \<and> mget (Messages (erHeap r2' eb)) (Uuid m) = None
    \<and> k \<noteq> '''' \<and> k \<notin> newUuid envB ` {..uuidn lb}
    \<and> (if now \<le> GetExpires (headerOf m) \<and> GetExpires (headerOf m) \<le> now + 2592000
       then delivered (sendRequest k (appMsgOf m)) (incoming_receivers B (appMsgOf m)) (agentHeap B) (agentHeap B')
       else agentHeap B' = agentHeap B)"
proof -
  have sm: "GetSendMessage (GetProtocolMessage (Some m)) = Some sm" using assms(5,7) by simp
  from send_and_forward [OF assms(1) sm assms(4,2,9,10,21,25), of ioa] obtain A1 ioa1 A2 la1 where
    sent: "handleSend envA chk req alg m a (A, ioa) = Return (A1, ioa1) ()"
      "handleOutgoingMessages envA False [] (A1, la) = Return (A2, la1) ()"
    and local: "delivered m (local_receivers A a m) (agentHeap A) (agentHeap A2)"
    and la1: "framesOf la1 = framesOf la @ [b]" by blast
  from read_passed [OF assms(22) la1 assms(26)] obtain c1 where
    "ReadMessage env1 (ws (passed la1 sa)) = (c1, Inr (m, length b))" by blast
  from router_round_queues [OF this assms(27,4-8,13-15), of p1 ea] obtain q1 sa1 where
    q1: "router_round env1 p1 ea (r1, passed la1 sa) = Return (q1, sa1) True" "cbuf (outgoingChannel_R q1) = [m]"
      "topic_of q1 s = topic_of r1 s" "published q1 = published r1" by (auto simp: topic_of_def)
  from publishes_subject [OF assms(3,4,28) q1(2) assms(30), unfolded q1(3), OF assms(31)] obtain q2 where
    q2: "handleOutgoingMessages_R env1 p1 q1 = Return q2 ()" "published q2 = published r1 @ [(topic_of r1 s, b1)]"
    using q1(4) by auto
  from arrives [OF assms(3,4) sm assms(8,29,33,34,32,16-20,35,36)] obtain t1 t2 io3 where
    t: "handleSubscription env2 p2 (hostID p1) b1 r2 = Return t1 ()"
      "handleIncomingMessages_R env2 (t1, io2) = Return (t2, io3) ()"
      "mget (Messages (erHeap t2 eb)) (Uuid m) = Some m" "Notifications (erHeap t2 eb) = [(Uuid m, m)]" by blast
  from assms(40) obtain bn where bn: "marshal env2 notice = Some bn" "unmarshal envB bn = Some notice"
    unfolding carries_def by blast
  from announce [OF assms(24) t(4) bn(1) [unfolded assms(37)]] obtain sb1 where
    told: "CheckNewMessages env2 [After5s] (erHeap t2 eb, sb) = ((erHeap t2 eb)\<lparr>Notifications := []\<rparr>, sb1)"
    and sb1: "link_up sb1" "framesOf sb1 = framesOf sb @ [bn]" "uuidn sb1 = Suc (uuidn sb)" by blast
  define t3 where "t3 = upd_er eb (\<lambda>_. (erHeap t2 eb)\<lparr>Notifications := []\<rparr>) t2"
  have kept: "mget (Messages (erHeap t3 eb)) (Uuid m) = Some m" using t(3) by (simp add: t3_def upd_er_def)
  from collect_delivers [OF kept headerOf_Some_appMsg [OF assms(3)] assms(11,12,23) sb1(1,2) bn(2) [unfolded assms(37)] _ _
      assms(38,41), unfolded sb1(3), OF _ _ assms(39,42), of p2] assms(43) obtain t4 B3 where
    got: "collect env2 envB p2 eb (t3, sb1) (B, lb) = Some (t4, B3)" "mget (Messages (erHeap t4 eb)) (Uuid m) = None"
      "taken_in envB now k (appMsgOf m) B B3"
    unfolding assms(45,46) by blast
  have "crossing envA env1 env2 envB p1 p2 chk req alg m a ea eb (A, ioa, la) (r1, sa) (r2, io2, sb) (B, lb) = Some (A2, q2, t4, B3)"
    by (simp add: crossing_def sent q1(1) q2 t(1,2) told got(1) t3_def [symmetric] del: CheckNewMessages.simps)
  moreover have "k \<noteq> ''''" "k \<notin> newUuid envB ` {..uuidn lb}"
    using assms(44) by (auto simp: assms(46) uuids_ok_def inj_eq)
  ultimately show ?thesis using local q2(2) got(2,3) [unfolded taken_in_def] by blast
qed


theorem send_crosses_network_witness:
  "\<exists>A' r1' r2' B'. crossing (sample_env (\<lambda>_. 10) (\<lambda>_. None))
       (sample_env (\<lambda>_. 10) (\<lambda>_. Some (sample_msg ''m'' ''s'' 20)))
       (sample_env (\<lambda>_. 10) (\<lambda>b. Some (if b = ''m'' then sample_msg ''m'' ''s'' 20 else receiveRequest ''u0'' [''m''])))
       (sample_env (\<lambda>_. 10) (\<lambda>b. Some (if b = ''u0'' then sample_notice else sample_answer)))
       sample_p2p (sample_p2p\<lparr>hostID := ''other''\<rparr>)
       (\<lambda>_ _ _ sig. sig = ''sig'') (sample_request (Some ''urn:mrn:a'')) ECDSAWithSHA256 (sample_msg ''m'' ''s'' 20) 0 0 1
       (sample_er, sample_io [] (\<lambda>_. False), sample_io [] (\<lambda>_. False)) (sample_r, sample_io [] (\<lambda>_. False))
       (sample_r, sample_io [] (\<lambda>_. False), sample_io [] (\<lambda>_. False)) (sample_er, sample_io [] (\<lambda>_. False)) = Some (A', r1', r2', B')
   \<and> mget (Messages (agentHeap B' 1)) ''u1'' = Some (sendRequest ''u1'' (Some (sample_app ''s'' 20)))"
proof -
  let ?m = "sample_msg ''m'' ''s'' 20" and ?io = "sample_io [] (\<lambda>_. False)" and ?req = "sample_request (Some ''urn:mrn:a'')"
  let ?p2 = "sample_p2p\<lparr>hostID := ''other''\<rparr>"
  let ?envA = "sample_env (\<lambda>_. 10) (\<lambda>_. None)" and ?env1 = "sample_env (\<lambda>_. 10) (\<lambda>_. Some ?m)"
    and ?env2 = "sample_env (\<lambda>_. 10) (\<lambda>b. Some (if b = ''m'' then ?m else receiveRequest ''u0'' [''m'']))"
    and ?envB = "sample_env (\<lambda>_. 10) (\<lambda>b. Some (if b = ''u0'' then sample_notice else sample_answer))"
  have auth: "AuthenticateConsumer ?req ''urn:mrn:a'' = (ECDSAWithSHA256, True, None)"
    by (rule sample_request_auth) simp_all
  have acc: "send_accepted (\<lambda>_ _ _ sig. sig = ''sig'') ?req ECDSAWithSHA256 ?m (agentHeap sample_er 0)"
    by (simp add: send_accepted_def sample_request_def sample_app_def)
  obtain p sm where p: "GetProtocolMessage (Some ?m) = Some p" "ProtocolMsgType p = ProtocolMessageType_SEND_MESSAGE"
    "GetSendMessage (Some p) = Some sm" by simp
  have m: "GetSubjectOrRecipient (headerOf ?m) = Some (ApplicationMessageHeader_Subject ''s'')"
    "MsgType ?m = MsgType_PROTOCOL_MESSAGE" "Uuid ?m \<noteq> ''''" "Uuid ?m = ''m''" "appMsgOf ?m = Some (sample_app ''s'' 20)"
    by (simp_all add: sample_msg_def)
  have q: "chan_ready (outgoingChannel sample_er)" "cbuf (outgoingChannel sample_er) = []"
    by (simp_all add: sample_er_def NewEdgeRouter_def chan_ready_def ChannelBufSize_def)
  have r: "\<not> writer (subMu sample_r)" "1 \<in> subscribers_of sample_r ''s''" "Notifications (erHeap sample_r 1) = []"
    by (simp_all add: subscribers_of_def sample_r_def new_consumer_def NewMMSRouter_def)
  have l: "link_up ?io" by (simp add: link_up_def sample_defs)
  have b: "marshal ?envA ?m = Some ''m''" "unmarshal ?env1 ''m'' = Some ?m" "length ''m'' \<le> MessageSizeLimit_R"
    "marshal ?env1 ?m = Some ''m''" "unmarshal ?env2 ''m'' = Some ?m"
    by (simp_all add: sample_defs MessageSizeLimit_R_def)
  have net: "joins sample_p2p ''s''" "publishes sample_p2p (topic_of sample_r ''s'') ''m''" "hostID sample_p2p \<noteq> hostID ?p2"
    "uuidValid ?env2 (Uuid ?m)" "uuidVersion4 ?p2 (Uuid ?m)"
    by (simp_all add: sample_defs sample_p2p_def)
  have t2: "clock ?env2 (clockn ?io) \<le> GetExpires (headerOf ?m)" "GetExpires (headerOf ?m) \<le> clock ?env2 (clockn ?io) + 2592000"
    by (simp_all add: sample_defs)
  have tB: "10 = clock ?envB (clockn ?io)" "''u1'' = newUuid ?envB (Suc (uuidn ?io))"
    by (simp add: sample_defs) (simp add: sample_defs, code_simp)
  have u: "newUuid ?env2 (uuidn ?io) = ''u0''" "newUuid ?envB (uuidn ?io) = ''u0''" "newUuid ?env2 (Suc (uuidn ?io)) = ''u1''"
    by (simp_all add: sample_defs, code_simp+)
  have eqs: "sample_notice = mkProtocol (newUuid ?env2 (uuidn ?io)) ProtocolMessageType_NOTIFY_MESSAGE
      (ProtocolMessage_NotifyMessage (Some \<lparr>Notify_MessageMetadata = [metadataOf ?m]\<rparr>))"
    "receiveRequest ''u0'' [''m''] = receiveRequest (newUuid ?envB (uuidn ?io)) [Uuid ?m]"
    "sample_answer = mkResponse (newUuid ?env2 (Suc (uuidn ?io)))
       ((goodResponse (newUuid ?envB (uuidn ?io)))\<lparr>RM_MessageContent := [\<lparr>MC_Uuid = Uuid ?m, MC_Msg = appMsgOf ?m\<rparr>]\<rparr>)"
    unfolding u m(4,5) by (simp_all add: sample_notice_def sample_answer_def)
  have c: "carries ?env2 ?envB sample_notice" "carries ?envB ?env2 (receiveRequest ''u0'' [''m''])"
    "carries ?env2 ?envB sample_answer" "\<forall>n. uuidValid ?envB (newUuid ?env2 n)"
    by (simp_all add: carries_def sample_defs receiveRequest_def sample_notice_def sample_answer_def)
  have "1 \<in> incoming_receivers sample_er (appMsgOf ?m)" by (simp add: incoming_receivers_def Let_def)
  with send_crosses_network [OF auth acc m(1,2) p m(3) q q sample_send_free sample_r_simps(11,13) r(1) sample_r_simps(12,14) r(2,3)
      l l l l b net t2 eqs c sample_uuids_ok tB, of 0 ?io] m(5)
  obtain A' r1' r2' B' where
    run: "crossing ?envA ?env1 ?env2 ?envB sample_p2p ?p2 (\<lambda>_ _ _ sig. sig = ''sig'') ?req ECDSAWithSHA256 ?m 0 0 1
        (sample_er, ?io, ?io) (sample_r, ?io) (sample_r, ?io, ?io) (sample_er, ?io) = Some (A', r1', r2', B')"
    and d: "delivered (sendRequest ''u1'' (appMsgOf ?m)) (incoming_receivers sample_er (appMsgOf ?m)) (agentHeap sample_er) (agentHeap B')"
    and b: "1 \<in> incoming_receivers sample_er (appMsgOf ?m)"
    by auto
  have "mget (Messages (agentHeap B' 1)) ''u1'' = Some (sendRequest ''u1'' (Some (sample_app ''s'' 20)))"
    using d b m(5) by (auto simp: delivered_def)
  with run show ?thesis by blast
qed


end
