(* ===== verification/Metrics.thy ===== *)
theory Metrics
  imports EdgeRouter
begin

text \<open>
  What recordMetrics of edgerouter/edgerouter.go and router/router.go measures: the gauges that
  are registered and the values a round of the loop gives them. The Prometheus registry and the
  heap statistics are parameters; the gauges by location exist only if a location is set.
\<close>

definition registered_gauges :: "string \<Rightarrow> string list" where
  "registered_gauges geoLocation =
     [''edgerouter_num_connected_agents'', ''edgerouter_num_agent_stored_reconnectTokens'', ''edgerouter_heap_mem_alloc''] @
     (if geoLocation \<noteq> '''' then [''loc_export'', ''loc_export2'', ''loc_export3''] else [])"

record Gauges =
  rcTokens :: nat
  memAlloc :: "64 word"
  geoDataFlow :: "64 word"
  connAgents :: nat
  numConnClientsFlow :: nat

definition record_round :: "64 word \<Rightarrow> EdgeRouter \<Rightarrow> Gauges" where
  "record_round alloc er =
     \<lparr>rcTokens = length (agents er), memAlloc = alloc div 1024, geoDataFlow = alloc div 1024,
      connAgents = length (mrnToAgent er), numConnClientsFlow = length (mrnToAgent er)\<rparr>"

text \<open>The gauge of the location, set once at the start: its label, the location, the value.\<close>

definition geo_gauge :: "string \<Rightarrow> string \<times> string \<times> nat" where
  "geo_gauge geoLocation = (''lookup'', geoLocation, 1)"

definition geo_gauge_R :: "string \<Rightarrow> string \<times> string \<times> nat" where
  "geo_gauge_R geoLocation = (''lookup'', geoLocation, 1)"

definition registered_gauges_R :: "string \<Rightarrow> string list" where
  "registered_gauges_R geoLocation =
     [''router_heap_mem_alloc''] @ (if geoLocation \<noteq> '''' then [''loc_export_router'', ''loc_export2_router''] else [])"

definition record_round_R :: "64 word \<Rightarrow> 64 word \<times> 64 word" where
  "record_round_R alloc = (alloc div 1024, alloc div 1024)"

text \<open>
  An agent whose connection breaks without a Disconnect stays in both maps, so that the gauge of
  the connected agents goes on counting it.
\<close>

lemma dropped_agent_counted:
  assumes "ReadMessage env (ws io) = (c, Inl e)"
  shows "\<exists>io'. agent_loop env chk req alg a (er, io) = Return (er, io') ()
    \<and> record_round alloc (fst (deferred_close (er, io'))) = record_round alloc er"
  using assms by (simp add: agent_loop.simps deferred_close_def)

lemma messageGC_gauges: "record_round alloc (fst (messageGC env (er, io))) = record_round alloc er"
  by (simp add: record_round_def messageGC_def NowUnix_def Let_def)

end
