(* ===== verification/Packet.thy ===== *)
theory Packet
  imports Session
begin

text \<open>
  The debugging aid of utils/packet/packet.go. What it prints is the list of its lines.
\<close>

definition Inspect :: "MmtpMessage option \<Rightarrow> string list" where
  "Inspect packet =
     (case GetMsgType packet of
        MsgType_PROTOCOL_MESSAGE \<Rightarrow>
          if ProtocolMessageType_Number (GetProtocolMsgType (GetProtocolMessage packet)) = 3
          then (let appMsg = GetApplicationMessage (GetSendMessage (GetProtocolMessage packet));
                    header = GetHeader appMsg;
                    body = AM_GetBody appMsg
                in [''-----PROTOCOL MSG-----''] @
                   (if length (GetSubject header) > 0
                    then [''Sender: '' @ GetSender header @ '', Subject: '' @ GetSubject header]
                    else (''Sender: '' @ GetSender header @ '' Recipients:'') # GetRecipients_list (GetRecipients header)) @
                   [''---MSG PAYLOAD---'', body])
          else []
      | MsgType_RESPONSE_MESSAGE \<Rightarrow> [''Response MSG'']
      | _ \<Rightarrow> []) @ [''-----------------------'']"

text \<open>
  The payload is shown of every Send, whoever it is for, and no other message shows a body.
\<close>

lemma Inspect_send:
  assumes "MsgType m = MsgType_PROTOCOL_MESSAGE" and "GetProtocolMessage (Some m) = Some p"
    and "ProtocolMsgType p = ProtocolMessageType_SEND_MESSAGE"
  shows "last (butlast (Inspect (Some m))) = AM_GetBody (GetApplicationMessage (GetSendMessage (Some p)))"
  using assms by (simp add: Inspect_def Let_def butlast_append)

lemma Inspect_recipients:
  assumes "MsgType m = MsgType_PROTOCOL_MESSAGE" and "GetProtocolMessage (Some m) = Some p"
    and "ProtocolMsgType p = ProtocolMessageType_SEND_MESSAGE"
    and "GetHeader (GetApplicationMessage (GetSendMessage (Some p))) = Some h"
    and "SubjectOrRecipient h = Some (ApplicationMessageHeader_Recipients (Some rs))"
  shows "set (Recipients_Recipients rs) \<subseteq> set (Inspect (Some m))"
  using assms by (auto simp: Inspect_def Let_def)

end
