(* ===== verification/Locks.thy ===== *)
theory Locks
  imports MmsPrelude
begin

text \<open>
  Goroutines and their locks. A goroutine is the locks it holds and the operations it still has
  to do; a system is a list of goroutines, and one of them moves at a time. The locks are
  \<open>sync.RWMutex\<close>: a writer excludes everybody, and a writer that waits keeps new readers out, also
  when readers hold the lock. Locale \<open>lock_discipline\<close> states what a set of programs has to obey, and
  proves from it that the goroutines never block each other for ever and never race.
\<close>

section \<open>Goroutines\<close>

text \<open>
  \<open>Acq\<close> and \<open>Rel\<close> are Lock and Unlock, \<open>AcqR\<close> and \<open>RelR\<close> are RLock and RUnlock, \<open>Rd\<close> and \<open>Wr\<close> access a
  shared variable. \<open>Io\<close> is a call that ends by itself: a read or write on a connection, or a send
  on a channel with room.
\<close>

datatype ('l, 'v) lock_op = Acq 'l | Rel 'l | AcqR 'l | RelR 'l | Rd 'v | Wr 'v | Io

text \<open>The locks held, each with the mode (\<open>True\<close>: for writing), and the rest of the program.\<close>

type_synonym ('l, 'v) goroutine = "('l \<times> bool) list \<times> ('l, 'v) lock_op list"

definition free :: "('l, 'v) goroutine list \<Rightarrow> 'l \<Rightarrow> bool" where
  "free ts l \<longleftrightarrow> (\<forall>t \<in> set ts. (l, True) \<notin> set (fst t) \<and> (l, False) \<notin> set (fst t))"

definition next_op :: "('l, 'v) goroutine \<Rightarrow> ('l, 'v) lock_op option" where
  "next_op t = (case snd t of [] \<Rightarrow> None | x # _ \<Rightarrow> Some x)"

text \<open>
  What a goroutine may do next, and when it surely can: a reader may get the lock while a writer is
  about to ask for it, but once the writer waits the reader has to wait for it.
\<close>

definition may :: "('l, 'v) goroutine list \<Rightarrow> nat \<Rightarrow> bool" where
  "may ts i \<longleftrightarrow> i < length ts \<and>
     (case next_op (ts ! i) of
        None \<Rightarrow> False
      | Some (Acq l) \<Rightarrow> free ts l
      | Some (AcqR l) \<Rightarrow> (\<forall>t \<in> set ts. (l, True) \<notin> set (fst t))
      | Some (Rel l) \<Rightarrow> (l, True) \<in> set (fst (ts ! i))
      | Some (RelR l) \<Rightarrow> (l, False) \<in> set (fst (ts ! i))
      | Some (Rd v) \<Rightarrow> True
      | Some (Wr v) \<Rightarrow> True
      | Some Io \<Rightarrow> True)"

definition can :: "('l, 'v) goroutine list \<Rightarrow> nat \<Rightarrow> bool" where
  "can ts i \<longleftrightarrow> may ts i \<and>
     (case next_op (ts ! i) of
        Some (AcqR l) \<Rightarrow> (\<forall>t \<in> set ts. next_op t \<noteq> Some (Acq l))
      | _ \<Rightarrow> True)"

fun advance :: "('l, 'v) goroutine \<Rightarrow> ('l, 'v) goroutine" where
  "advance (H, []) = (H, [])"
| "advance (H, Acq l # p) = ((l, True) # H, p)"
| "advance (H, AcqR l # p) = ((l, False) # H, p)"
| "advance (H, Rel l # p) = (remove1 (l, True) H, p)"
| "advance (H, RelR l # p) = (remove1 (l, False) H, p)"
| "advance (H, Rd v # p) = (H, p)"
| "advance (H, Wr v # p) = (H, p)"
| "advance (H, Io # p) = (H, p)"

inductive lock_run :: "('l, 'v) goroutine list \<Rightarrow> ('l, 'v) goroutine list \<Rightarrow> bool" for ts where
  refl: "lock_run ts ts"
| step: "lock_run ts us \<Longrightarrow> may us i \<Longrightarrow> lock_run ts (us[i := advance (us ! i)])"

text \<open>Goroutines at their start; all of them at their end; two that access one variable, one of them to write.\<close>

definition launch :: "('l, 'v) lock_op list list \<Rightarrow> ('l, 'v) goroutine list" where
  "launch ps = map (Pair []) ps"

definition finished :: "('l, 'v) goroutine list \<Rightarrow> bool" where
  "finished ts \<longleftrightarrow> (\<forall>t \<in> set ts. snd t = [])"

definition race :: "('l, 'v) goroutine list \<Rightarrow> 'v \<Rightarrow> bool" where
  "race ts v \<longleftrightarrow> (\<exists>i < length ts. \<exists>j < length ts. i \<noteq> j \<and> next_op (ts ! i) = Some (Wr v)
     \<and> next_op (ts ! j) \<in> {Some (Wr v), Some (Rd v)})"

text \<open>How much is left to do: each step does one operation, so that no run goes on for ever.\<close>

definition work :: "('l, 'v) goroutine list \<Rightarrow> nat" where
  "work ts = (\<Sum>t\<leftarrow>ts. length (snd t))"

lemma advance_length: "snd t \<noteq> [] \<Longrightarrow> length (snd (advance t)) < length (snd t)"
  by (cases t; cases "snd t"; cases "hd (snd t)") auto

lemma may_todo: "may ts i \<Longrightarrow> i < length ts \<and> snd (ts ! i) \<noteq> []"
  by (auto simp: may_def next_op_def split: list.splits option.splits)

lemma work_decreases: "may ts i \<Longrightarrow> work (ts[i := advance (ts ! i)]) < work ts"
proof -
  assume "may ts i"
  then have i: "i < length ts" "snd (ts ! i) \<noteq> []" using may_todo by blast+
  then have "work ts = work (take i ts) + length (snd (ts ! i)) + work (drop (Suc i) ts)"
    by (simp add: work_def id_take_nth_drop [OF i(1), symmetric] flip: sum_list_append map_append)
      (subst id_take_nth_drop [OF i(1)], simp)
  moreover have "work (ts[i := advance (ts ! i)]) = work (take i ts) + length (snd (advance (ts ! i))) + work (drop (Suc i) ts)"
    using i(1) by (simp add: work_def upd_conv_take_nth_drop)
  ultimately show ?thesis using advance_length [OF i(2)] by simp
qed

lemma lock_run_trans: "lock_run us vs \<Longrightarrow> lock_run ts us \<Longrightarrow> lock_run ts vs"
  by (induction rule: lock_run.induct) (auto intro: lock_run.step)

text \<open>A run given by who moves, to be computed.\<close>

fun schedule :: "('l, 'v) goroutine list \<Rightarrow> nat list \<Rightarrow> ('l, 'v) goroutine list option" where
  "schedule ts [] = Some ts"
| "schedule ts (i # js) = (if may ts i then schedule (ts[i := advance (ts ! i)]) js else None)"

lemma schedule_run: "schedule ts js = Some us \<Longrightarrow> lock_run ts us"
  by (induction ts js rule: schedule.induct)
    (auto intro: lock_run.refl lock_run_trans [OF _ lock_run.step [OF lock_run.refl]] split: if_splits)

lemma stuck_stays: "lock_run ts us \<Longrightarrow> \<forall>i. \<not> may ts i \<Longrightarrow> us = ts"
  by (induction rule: lock_run.induct) auto

lemma scheduled_race:
  assumes "schedule (launch ps) js = Some us" and "length us = 2"
    and "next_op (us ! 0) = Some (Wr v)" and "next_op (us ! 1) \<in> {Some (Wr v), Some (Rd v)}"
  shows "\<exists>ts. lock_run (launch ps) ts \<and> race ts v"
proof -
  have "race us v" unfolding race_def using assms(2-4) by (intro exI [of _ 0] exI [of _ 1] conjI) auto
  with schedule_run [OF assms(1)] show ?thesis by blast
qed

section \<open>The discipline\<close>

text \<open>
  Locks are taken in the order of their ranks and given back; a variable is read under one of its
  guards and written under all of them. A variable without guards may be accessed at any time.
\<close>

fun orderly :: "('l \<Rightarrow> nat) \<Rightarrow> ('v \<Rightarrow> 'l list) \<Rightarrow> ('l \<times> bool) list \<Rightarrow> ('l, 'v) lock_op list \<Rightarrow> bool" where
  "orderly rank guards H [] \<longleftrightarrow> H = []"
| "orderly rank guards H (Acq l # p) \<longleftrightarrow> (\<forall>k \<in> set H. rank (fst k) < rank l) \<and> orderly rank guards ((l, True) # H) p"
| "orderly rank guards H (AcqR l # p) \<longleftrightarrow> (\<forall>k \<in> set H. rank (fst k) < rank l) \<and> orderly rank guards ((l, False) # H) p"
| "orderly rank guards H (Rel l # p) \<longleftrightarrow> (l, True) \<in> set H \<and> orderly rank guards (remove1 (l, True) H) p"
| "orderly rank guards H (RelR l # p) \<longleftrightarrow> (l, False) \<in> set H \<and> orderly rank guards (remove1 (l, False) H) p"
| "orderly rank guards H (Rd v # p) \<longleftrightarrow>
     (guards v = [] \<or> (\<exists>l \<in> set (guards v). (l, True) \<in> set H \<or> (l, False) \<in> set H)) \<and> orderly rank guards H p"
| "orderly rank guards H (Wr v # p) \<longleftrightarrow> (\<forall>l \<in> set (guards v). (l, True) \<in> set H) \<and> orderly rank guards H p"
| "orderly rank guards H (Io # p) \<longleftrightarrow> orderly rank guards H p"

lemma orderly_Cons_cases:
  "orderly rank guards H p \<Longrightarrow> H \<noteq> [] \<Longrightarrow> p \<noteq> []"
  by (cases p) auto

lemma orderly_append:
  "orderly rank guards H p \<Longrightarrow> orderly rank guards [] q \<Longrightarrow> orderly rank guards H (p @ q)"
  by (induction rank guards H p rule: orderly.induct) auto

lemma orderly_concat:
  "\<forall>p \<in> set ps. orderly rank guards [] p \<Longrightarrow> orderly rank guards [] (concat ps)"
  by (induction ps) (auto intro: orderly_append)

text \<open>A block of operations that gives back what it takes does not disturb what follows it.\<close>

definition block :: "('l \<Rightarrow> nat) \<Rightarrow> ('v \<Rightarrow> 'l list) \<Rightarrow> ('l \<times> bool) list \<Rightarrow> ('l, 'v) lock_op list \<Rightarrow> bool" where
  "block rank guards H p \<longleftrightarrow> (\<forall>q. orderly rank guards H q \<longrightarrow> orderly rank guards H (p @ q))"

lemma blockD: "block rank guards H p \<Longrightarrow> orderly rank guards H q \<Longrightarrow> orderly rank guards H (p @ q)"
  by (simp add: block_def)

lemma block_Nil [simp]: "block rank guards H []"
  by (simp add: block_def)

lemma block_concat: "\<forall>p \<in> set ps. block rank guards H p \<Longrightarrow> block rank guards H (concat ps)"
  by (induction ps) (auto simp: block_def)

lemma block_if: "(c \<Longrightarrow> block rank guards H p) \<Longrightarrow> (\<not> c \<Longrightarrow> block rank guards H q) \<Longrightarrow>
  block rank guards H (if c then p else q)"
  by simp

locale lock_discipline =
  fixes rank :: "'l \<Rightarrow> nat"
    and guards :: "'v \<Rightarrow> 'l list"
    and programs :: "('l, 'v) lock_op list set"
  assumes orderly_program: "p \<in> programs \<Longrightarrow> orderly rank guards [] p"
begin

definition safe :: "('l, 'v) goroutine list \<Rightarrow> bool" where
  "safe ts \<longleftrightarrow> (\<forall>t \<in> set ts. orderly rank guards (fst t) (snd t))
     \<and> (\<forall>i < length ts. \<forall>j < length ts. i \<noteq> j \<longrightarrow>
          (\<forall>l. (l, True) \<in> set (fst (ts ! i)) \<longrightarrow> (l, True) \<notin> set (fst (ts ! j)) \<and> (l, False) \<notin> set (fst (ts ! j))))"

lemma safe_launch: "set ps \<subseteq> programs \<Longrightarrow> safe (launch ps)"
  by (auto simp: safe_def launch_def intro: orderly_program)

lemma safe_orderly: "safe ts \<Longrightarrow> i < length ts \<Longrightarrow> orderly rank guards (fst (ts ! i)) (snd (ts ! i))"
  by (auto simp: safe_def)

lemma safe_exclusive:
  "safe ts \<Longrightarrow> i < length ts \<Longrightarrow> j < length ts \<Longrightarrow> i \<noteq> j \<Longrightarrow> (l, True) \<in> set (fst (ts ! i)) \<Longrightarrow> (l, w) \<notin> set (fst (ts ! j))"
  by (cases w) (auto simp: safe_def)

lemma advance_orderly: "orderly rank guards H p \<Longrightarrow> orderly rank guards (fst (advance (H, p))) (snd (advance (H, p)))"
  by (cases p rule: list.exhaust; cases "hd p") auto

lemma advance_new:
  assumes "may ts i" and "(l, w) \<in> set (fst (advance (ts ! i)))"
  shows "(l, w) \<in> set (fst (ts ! i)) \<or> w \<and> free ts l \<or> \<not> w \<and> (\<forall>t \<in> set ts. (l, True) \<notin> set (fst t))"
proof (cases "ts ! i")
  case (Pair H p)
  with assms show ?thesis
    by (cases p; cases "hd p") (auto simp: may_def next_op_def dest: notin_set_remove1)
qed

lemma safe_step:
  assumes "safe ts" and "may ts i"
  shows "safe (ts[i := advance (ts ! i)])"
proof -
  from assms(2) have i: "i < length ts" by (simp add: may_def)
  have "orderly rank guards (fst (advance (ts ! i))) (snd (advance (ts ! i)))"
    using advance_orderly [OF safe_orderly [OF assms(1) i]] by simp
  then have "\<forall>t \<in> insert (advance (ts ! i)) (set ts). orderly rank guards (fst t) (snd t)"
    using assms(1) by (simp add: safe_def)
  then have "\<forall>t \<in> set (ts[i := advance (ts ! i)]). orderly rank guards (fst t) (snd t)"
    using set_update_subset_insert [of ts i "advance (ts ! i)"] by (meson subsetD)
  then have progs: "\<forall>t \<in> set (ts[i := advance (ts ! i)]). orderly rank guards (fst t) (snd t)" .
  have mine: "(l, True) \<notin> set (fst (advance (ts ! i))) \<or> (l, w) \<notin> set (fst (ts ! j))"
    and theirs: "(l, True) \<notin> set (fst (ts ! j)) \<or> (l, w) \<notin> set (fst (advance (ts ! i)))"
    if "j < length ts" "j \<noteq> i" for j l w
  proof -
    have m: "ts ! j \<in> set ts" using that(1) by simp
    show "(l, True) \<notin> set (fst (advance (ts ! i))) \<or> (l, w) \<notin> set (fst (ts ! j))"
      using advance_new [OF assms(2), of l True] safe_exclusive [OF assms(1) i that(1), of l w] that(2) m
      by (cases w) (auto simp: free_def)
    show "(l, True) \<notin> set (fst (ts ! j)) \<or> (l, w) \<notin> set (fst (advance (ts ! i)))"
      using advance_new [OF assms(2), of l w] safe_exclusive [OF assms(1) that(1) i that(2), of l w] m
      by (auto simp: free_def)
  qed
  have "(l, w) \<notin> set (fst (ts[i := advance (ts ! i)] ! n))"
    if "m < length ts" "n < length ts" "m \<noteq> n" "(l, True) \<in> set (fst (ts[i := advance (ts ! i)] ! m))" for m n l w
  proof (cases "m = i")
    case True
    with that i mine [of n l w] show ?thesis by auto
  next
    case False
    with that i theirs [of m l w] safe_exclusive [OF assms(1) that(1-3), of l w] show ?thesis
      by (cases "n = i") auto
  qed
  with progs show ?thesis unfolding safe_def by simp
qed

lemma safe_run: "lock_run ts us \<Longrightarrow> safe ts \<Longrightarrow> safe us"
  by (induction rule: lock_run.induct) (auto intro: safe_step)

text \<open>A free lock can be taken, by a reader unless a writer waits, which then can take it.\<close>

lemma free_lock_taken:
  assumes "free ts l" and "i < length ts" and "next_op (ts ! i) \<in> {Some (Acq l), Some (AcqR l)}"
  shows "\<exists>j. can ts j"
proof (cases "\<exists>j < length ts. next_op (ts ! j) = Some (Acq l)")
  case True
  with assms(1) show ?thesis by (auto simp: can_def may_def)
next
  case False
  then have "\<forall>t \<in> set ts. next_op t \<noteq> Some (Acq l)" by (metis in_set_conv_nth)
  with assms have "can ts i" by (auto simp: can_def may_def free_def)
  then show ?thesis by blast
qed

lemma some_can_move:
  assumes "safe ts" and "\<not> finished ts"
  shows "\<exists>i. can ts i"
proof -
  let ?held = "(\<Union>t \<in> set ts. fst ` set (fst t))"
  have move: "\<exists>j. can ts j" if i: "i < length ts" and p: "snd (ts ! i) = x # q"
    and top: "\<forall>k \<in> ?held. \<not> (\<forall>h \<in> set (fst (ts ! i)). rank (fst h) < rank k)" for i x q
  proof -
    have o: "orderly rank guards (fst (ts ! i)) (x # q)" using safe_orderly [OF assms(1) i] p by simp
    have n: "next_op (ts ! i) = Some x" using p by (simp add: next_op_def)
    have "free ts l" if "\<forall>h \<in> set (fst (ts ! i)). rank (fst h) < rank l" for l
      using top that by (force simp: free_def)
    then have "x \<in> {Acq l, AcqR l} \<Longrightarrow> \<exists>j. can ts j" for l
      using o n free_lock_taken [OF _ i, of l] by auto
    moreover have "(\<nexists>l. x \<in> {Acq l, AcqR l}) \<Longrightarrow> can ts i"
      using o n i by (cases x) (auto simp: can_def may_def)
    ultimately show ?thesis by blast
  qed
  show ?thesis
  proof (cases "?held = {}")
    case True
    from assms(2) obtain t where "t \<in> set ts" "snd t \<noteq> []" by (auto simp: finished_def)
    then obtain i x q where i: "i < length ts" "snd (ts ! i) = x # q" by (metis in_set_conv_nth neq_Nil_conv)
    from True show ?thesis by (intro move [OF i]) blast
  next
    case False
    then have "Max (rank ` ?held) \<in> rank ` ?held" by (intro Max_in) auto
    then obtain l where l: "Max (rank ` ?held) = rank l" "l \<in> ?held" by (rule imageE)
    have top: "rank k \<le> rank l" if "k \<in> ?held" for k
      unfolding l(1) [symmetric] by (rule Max_ge) (use that in auto)
    from l(2) obtain t h where t: "t \<in> set ts" "h \<in> set (fst t)" "fst h = l" by auto
    from t(1) obtain i where "i < length ts" "ts ! i = t" by (metis in_set_conv_nth)
    with t have i: "i < length ts" "h \<in> set (fst (ts ! i))" "fst h = l" by simp_all
    then have "fst (ts ! i) \<noteq> []" by auto
    then have "snd (ts ! i) \<noteq> []" by (rule orderly_Cons_cases [OF safe_orderly [OF assms(1) i(1)]])
    moreover have "\<forall>k \<in> ?held. \<not> (\<forall>h \<in> set (fst (ts ! i)). rank (fst h) < rank k)"
      using i(2,3) top by (meson leD)
    ultimately show ?thesis using move [OF i(1)] by (metis neq_Nil_conv)
  qed
qed

lemma no_deadlock:
  "set ps \<subseteq> programs \<Longrightarrow> lock_run (launch ps) ts \<Longrightarrow> finished ts \<or> (\<exists>i. can ts i)"
  using some_can_move safe_run safe_launch by blast

lemma completes:
  assumes "set ps \<subseteq> programs" and "lock_run (launch ps) ts"
  shows "\<exists>us. lock_run ts us \<and> finished us"
proof -
  have "safe ts" using assms safe_run safe_launch by blast
  then show ?thesis
  proof (induction "work ts" arbitrary: ts rule: less_induct)
    case less
    show ?case
    proof (cases "finished ts")
      case True
      then show ?thesis using lock_run.refl by blast
    next
      case False
      with less.prems obtain i where i: "may ts i" using some_can_move by (auto simp: can_def)
      let ?us = "ts[i := advance (ts ! i)]"
      from less.hyps [OF work_decreases [OF i] safe_step [OF less.prems i]]
      obtain us where "lock_run ?us us" "finished us" by blast
      moreover have "lock_run ts ?us" using lock_run.step [OF lock_run.refl i] .
      ultimately show ?thesis using lock_run_trans by blast
    qed
  qed
qed

lemma no_race:
  assumes "set ps \<subseteq> programs" and "lock_run (launch ps) ts" and "guards v \<noteq> []"
  shows "\<not> race ts v"
proof
  assume "race ts v"
  then obtain i j where ij: "i < length ts" "j < length ts" "i \<noteq> j" "next_op (ts ! i) = Some (Wr v)"
    "next_op (ts ! j) = Some (Wr v) \<or> next_op (ts ! j) = Some (Rd v)" by (auto simp: race_def)
  have s: "safe ts" using assms(1,2) safe_run safe_launch by blast
  have w: "\<forall>l \<in> set (guards v). (l, True) \<in> set (fst (ts ! i))"
    using safe_orderly [OF s ij(1)] ij(4) by (cases "snd (ts ! i)") (auto simp: next_op_def)
  have "\<exists>l \<in> set (guards v). \<exists>w. (l, w) \<in> set (fst (ts ! j))"
    using safe_orderly [OF s ij(2)] ij(5) assms(3)
    by (cases "snd (ts ! j)"; cases "guards v") (auto simp: next_op_def)
  with w safe_exclusive [OF s ij(1-3)] show False by blast
qed

end

end
