(* ===== verification/LockUse.thy ===== *)
theory LockUse
  imports Locks
begin

text \<open>
  The locks of the two programs: for each function of the Go code that takes a lock or touches a
  shared variable, the operations it does, in the order it does them. What the function sees on its
  way (which entries a map has, whether a write succeeds) is an argument. A send on a channel is an
  \<open>Io\<close>, which ends by itself: what is shown of the mutexes is under the assumption that the channels
  have room; what a full channel does is the subject of \<open>Backlog\<close>. Both programs obey the
  discipline of \<open>Locks\<close>, with the exceptions the theorems name.
\<close>

section \<open>Mutexes and shared variables\<close>

text \<open>
  A subscription is named by its subject, which has at most one in the map. Agents and edge routers
  are named by numbers: two sessions that share a consumer have the same number. A variable is a Go
  variable that several goroutines reach and one of them changes.
\<close>

datatype mutex = AgentsMu | MrnToAgentMu | ErMu | SubMu | SubsMu string | MsgMu nat | NotifyMu nat
  | ResponseMu | WsMu

datatype shared_var = Agents_var | MrnToAgent_var | EdgeRouters_var | Subscriptions_var
  | Subscribers_var string | Messages_var nat | Notifications_var nat | AwaitResponse_var
  | RouterWs_var | TopicHandles_var | DirectMessages_var nat | Interests_var nat | ReconnectToken_var nat

type_synonym lock_trace = "(mutex, shared_var) lock_op list"

fun lock_rank :: "mutex \<Rightarrow> nat" where
  "lock_rank AgentsMu = 0"
| "lock_rank ErMu = 0"
| "lock_rank MrnToAgentMu = 1"
| "lock_rank SubMu = 2"
| "lock_rank (SubsMu s) = 3"
| "lock_rank (MsgMu c) = 4"
| "lock_rank (NotifyMu c) = 5"
| "lock_rank ResponseMu = 6"
| "lock_rank WsMu = 7"

text \<open>
  The locks that protect a variable. The router changes the subscribers of a subject under both
  locks and reads them under either; the edge router uses the lock of the subscription alone. A
  variable that a program does not have is given a lock as well.
\<close>

fun edge_guards :: "shared_var \<Rightarrow> mutex list" where
  "edge_guards Agents_var = [AgentsMu]"
| "edge_guards MrnToAgent_var = [MrnToAgentMu]"
| "edge_guards EdgeRouters_var = [ErMu]"
| "edge_guards Subscriptions_var = [SubMu]"
| "edge_guards (Subscribers_var s) = [SubsMu s]"
| "edge_guards (Messages_var c) = [MsgMu c]"
| "edge_guards (Notifications_var c) = [NotifyMu c]"
| "edge_guards AwaitResponse_var = [ResponseMu]"
| "edge_guards RouterWs_var = []"
| "edge_guards TopicHandles_var = [SubMu]"
| "edge_guards (DirectMessages_var c) = []"
| "edge_guards (Interests_var c) = []"
| "edge_guards (ReconnectToken_var c) = []"

fun router_guards :: "shared_var \<Rightarrow> mutex list" where
  "router_guards (Subscribers_var s) = [SubMu, SubsMu s]"
| "router_guards TopicHandles_var = []"
| "router_guards RouterWs_var = [WsMu]"
| "router_guards (DirectMessages_var c) = [MsgMu c]"
| "router_guards v = edge_guards v"

section \<open>Consumers\<close>

definition QueueMessage_locks :: "bool \<Rightarrow> nat \<Rightarrow> lock_trace" where
  "QueueMessage_locks has_uuid c =
     (if has_uuid
      then [Acq (MsgMu c), Wr (Messages_var c), Rel (MsgMu c),
            Acq (NotifyMu c), Wr (Notifications_var c), Rel (NotifyMu c)]
      else [])"

definition BulkQueueMessages_locks :: "nat \<Rightarrow> nat \<Rightarrow> lock_trace" where
  "BulkQueueMessages_locks c n = Acq (MsgMu c) # replicate n (Wr (Messages_var c)) @ [Rel (MsgMu c)]"

definition notify_locks :: "nat \<Rightarrow> nat \<Rightarrow> bool \<Rightarrow> lock_trace" where
  "notify_locks c n written =
     replicate n (Rd (Notifications_var c)) @ Io # (if written then replicate n (Wr (Notifications_var c)) else [])"

text \<open>One tick, with \<open>n\<close> pending notifications.\<close>

definition CheckNewMessages_locks :: "nat \<Rightarrow> nat \<Rightarrow> bool \<Rightarrow> lock_trace" where
  "CheckNewMessages_locks c n written =
     [Acq (NotifyMu c), Rd (Notifications_var c)]
     @ (if n > 0 then notify_locks c n written else [])
     @ [Rel (NotifyMu c)]"

text \<open>With a filter, for each requested UUID whether it is stored; without, for each stored message whether it has expired.\<close>

definition HandleReceive_filter_locks :: "nat \<Rightarrow> bool list \<Rightarrow> bool \<Rightarrow> lock_trace" where
  "HandleReceive_filter_locks c stored written =
     [Acq (MsgMu c), Acq (NotifyMu c)]
     @ concat (map (\<lambda>s. Rd (Messages_var c) # (if s then [Wr (Messages_var c), Wr (Notifications_var c)] else [])) stored)
     @ [Rel (NotifyMu c), Io, Rel (MsgMu c)]
     @ (if written then [] else BulkQueueMessages_locks c (length (filter id stored)))"

definition HandleReceive_all_locks :: "nat \<Rightarrow> bool list \<Rightarrow> bool \<Rightarrow> lock_trace" where
  "HandleReceive_all_locks c expired written =
     [Acq (MsgMu c), Rd (Messages_var c), Acq (NotifyMu c)]
     @ concat (map (\<lambda>e. Rd (Messages_var c) # (if e then [] else [Wr (Notifications_var c)])) expired)
     @ [Rel (NotifyMu c), Io]
     @ (if written then [Wr (Messages_var c)] else [])
     @ [Rel (MsgMu c)]"

definition HandleFetch_locks :: "nat \<Rightarrow> bool list \<Rightarrow> lock_trace" where
  "HandleFetch_locks c expired =
     [Acq (MsgMu c), Rd (Messages_var c)]
     @ concat (map (\<lambda>e. Rd (Messages_var c) # (if e then [Wr (Messages_var c)] else [])) expired)
     @ [Io, Rel (MsgMu c)]"

text \<open>The part of the garbage collection that both programs have, for one consumer.\<close>

definition gc_locks :: "nat \<Rightarrow> bool list \<Rightarrow> lock_trace" where
  "gc_locks c expired =
     Acq (MsgMu c)
     # concat (map (\<lambda>e. Rd (Messages_var c) # (if e then [Wr (Messages_var c)] else [])) expired)
     @ [Rel (MsgMu c)]"

section \<open>Subscriptions\<close>

definition AddSubscriber_locks :: "string \<Rightarrow> lock_trace" where
  "AddSubscriber_locks s = [Acq (SubsMu s), Wr (Subscribers_var s), Rel (SubsMu s)]"

definition DeleteSubscriber_locks :: "string \<Rightarrow> lock_trace" where
  "DeleteSubscriber_locks s = [Acq (SubsMu s), Wr (Subscribers_var s), Rel (SubsMu s)]"

definition SnapshotSubscribers_locks :: "string \<Rightarrow> lock_trace" where
  "SnapshotSubscribers_locks s = [AcqR (SubsMu s), Rd (Subscribers_var s), RelR (SubsMu s)]"

section \<open>The edge router\<close>

definition connectMMTPToRouter_locks :: lock_trace where
  "connectMMTPToRouter_locks = [Rd RouterWs_var, Io, Rd RouterWs_var, Io]"

text \<open>Whether there is a connection, whether it still answers, how many dials fail and whether one succeeds.\<close>

definition TryConnectRouter_locks :: "bool \<Rightarrow> bool \<Rightarrow> nat \<Rightarrow> bool \<Rightarrow> lock_trace" where
  "TryConnectRouter_locks conn alive failed dialled =
     Rd RouterWs_var # (if conn then [Rd RouterWs_var, Io] else [])
     @ (if conn \<and> alive then []
        else Rd RouterWs_var # (if conn then [Rd RouterWs_var, Io] else [])
             @ replicate failed Io
             @ (if dialled then [Io, Wr RouterWs_var, Rd RouterWs_var] @ connectMMTPToRouter_locks else []))"

definition messageGC_locks :: "(nat \<times> bool list) list \<Rightarrow> lock_trace" where
  "messageGC_locks agents =
     [AcqR AgentsMu, Rd Agents_var] @ concat (map (\<lambda>(c, expired). gc_locks c expired) agents) @ [RelR AgentsMu]"

text \<open>The handshake: whether a saved agent is found under the token, whether the agent has an MRN.\<close>

definition connect_agent_locks :: "nat \<Rightarrow> bool \<Rightarrow> bool \<Rightarrow> lock_trace" where
  "connect_agent_locks c saved mrn =
     [AcqR AgentsMu, Rd Agents_var, RelR AgentsMu]
     @ (if \<not> saved \<and> mrn then [Acq MrnToAgentMu, Wr MrnToAgent_var, Rel MrnToAgentMu] else [])
     @ [Wr (ReconnectToken_var c), Acq AgentsMu, Rd (ReconnectToken_var c), Wr Agents_var, Rel AgentsMu,
        Rd (ReconnectToken_var c), Io]"

definition disconnect_agent_locks :: "nat \<Rightarrow> bool \<Rightarrow> bool \<Rightarrow> lock_trace" where
  "disconnect_agent_locks c written closed =
     Io # (if written then [Io] else [])
     @ (if written \<and> closed
        then [Acq MrnToAgentMu, Wr MrnToAgent_var, Rel MrnToAgentMu,
              Acq AgentsMu, Rd (ReconnectToken_var c), Wr Agents_var, Rel AgentsMu]
        else [])"

text \<open>The \<open>Io\<close> under the lock of the subscriptions is the send on the outgoing channel.\<close>

definition handleSubscribeSubject_locks :: "nat \<Rightarrow> string \<Rightarrow> bool \<Rightarrow> lock_trace" where
  "handleSubscribeSubject_locks c s subscribed =
     [Acq SubMu, Rd Subscriptions_var]
     @ (if subscribed then AddSubscriber_locks s
        else AddSubscriber_locks s @ [Wr Subscriptions_var, Io])
     @ [Rel SubMu, Rd (Interests_var c), Wr (Interests_var c), Io]"

definition handleSubscribeDirect_locks :: "nat \<Rightarrow> bool \<Rightarrow> lock_trace" where
  "handleSubscribeDirect_locks c accepted = (if accepted then [Io, Wr (DirectMessages_var c), Io] else [Io])"

definition handleUnsubscribeSubject_locks :: "nat \<Rightarrow> string \<Rightarrow> bool \<Rightarrow> bool \<Rightarrow> lock_trace" where
  "handleUnsubscribeSubject_locks c s subscribed interested =
     [Acq SubMu, Rd Subscriptions_var]
     @ (if subscribed then DeleteSubscriber_locks s else [])
     @ [Rel SubMu, Rd (Interests_var c)]
     @ (if interested then [Wr (Interests_var c)] else [])
     @ [Io]"

definition handleUnsubscribeDirect_locks :: "nat \<Rightarrow> bool \<Rightarrow> lock_trace" where
  "handleUnsubscribeDirect_locks c mrn = (if mrn then [Io, Wr (DirectMessages_var c), Io] else [])"

text \<open>
  The recipients of a message: for each the agent routed under the MRN, if any, and whether it takes
  direct messages. A subject: its subscription, if any, and whom the message is stored for.
\<close>

definition queue_direct_locks :: "bool \<Rightarrow> (nat \<times> bool) option list \<Rightarrow> lock_trace" where
  "queue_direct_locks has_uuid rs =
     concat (map (\<lambda>r. Rd MrnToAgent_var
       # (case r of
            None \<Rightarrow> []
          | Some (c, direct) \<Rightarrow> Rd (DirectMessages_var c) # (if direct then QueueMessage_locks has_uuid c else []))) rs)"

datatype receivers = To_recipients "(nat \<times> bool) option list" | To_subject string "nat list option" | To_nobody

fun handleSend_locks :: "bool \<Rightarrow> receivers \<Rightarrow> lock_trace" where
  "handleSend_locks has_uuid (To_recipients rs) =
     [Io, AcqR MrnToAgentMu] @ queue_direct_locks has_uuid rs @ [RelR MrnToAgentMu, Io]"
| "handleSend_locks has_uuid (To_subject s sub) =
     [Io, AcqR SubMu, Rd Subscriptions_var]
     @ (case sub of
          None \<Rightarrow> []
        | Some cs \<Rightarrow> SnapshotSubscribers_locks s @ concat (map (QueueMessage_locks has_uuid) cs))
     @ [RelR SubMu, Io]"
| "handleSend_locks has_uuid To_nobody = [Io, Io]"

text \<open>A response from the router: its contents that are not discarded, after the answered request is looked up.\<close>

fun deliver_content_locks :: "receivers \<Rightarrow> lock_trace" where
  "deliver_content_locks (To_subject s sub) =
     [AcqR SubMu, Rd Subscriptions_var]
     @ (case sub of None \<Rightarrow> [] | Some cs \<Rightarrow> SnapshotSubscribers_locks s)
     @ [RelR SubMu]
     @ (case sub of None \<Rightarrow> [] | Some cs \<Rightarrow> concat (map (QueueMessage_locks True) cs))"
| "deliver_content_locks (To_recipients rs) =
     AcqR MrnToAgentMu # queue_direct_locks True rs @ [RelR MrnToAgentMu]"
| "deliver_content_locks To_nobody = []"

definition handle_response_locks :: "bool \<Rightarrow> receivers list \<Rightarrow> lock_trace" where
  "handle_response_locks resent contents =
     [Rd RouterWs_var, Io, Acq ResponseMu, Rd AwaitResponse_var, Wr AwaitResponse_var, Rel ResponseMu]
     @ (if resent then [Io] else concat (map deliver_content_locks contents))"

text \<open>The connection to the router is set up again under \<open>wsMu\<close>, with the arguments of \<open>TryConnectRouter\<close>.\<close>

definition reconnect_locks :: "bool \<times> bool \<times> nat \<times> bool \<Rightarrow> lock_trace" where
  "reconnect_locks r = (case r of (conn, alive, failed, dialled) \<Rightarrow>
     Acq WsMu # TryConnectRouter_locks conn alive failed dialled @ [Rel WsMu])"

definition read_failed_locks :: "bool \<Rightarrow> bool \<times> bool \<times> nat \<times> bool \<Rightarrow> lock_trace" where
  "read_failed_locks canceled r = [Rd RouterWs_var, Io] @ (if canceled then [] else reconnect_locks r)"

text \<open>
  One message of the outgoing channel: whether it is written, and whether it is a request for a
  subscription. The \<open>Io\<close> after a failed write is the send back on the channel, of which this
  goroutine is the only receiver; that it ends is the assumption that the channel has room.
\<close>

definition handleOutgoingMessages_locks :: "bool \<Rightarrow> bool \<Rightarrow> bool \<times> bool \<times> nat \<times> bool \<Rightarrow> lock_trace" where
  "handleOutgoingMessages_locks written request r =
     [Io, Rd RouterWs_var, Io]
     @ (if \<not> written then Io # reconnect_locks r
        else if request then [Acq ResponseMu, Wr AwaitResponse_var, Rel ResponseMu]
        else [])"

definition recordMetrics_locks :: lock_trace where
  "recordMetrics_locks = [Acq AgentsMu, Rd Agents_var, Rel AgentsMu, Acq MrnToAgentMu, Rd MrnToAgent_var, Rd MrnToAgent_var, Rel MrnToAgentMu]"

text \<open>What a goroutine of the edge router can be busy with. Refusals and errors only write.\<close>

datatype edge_call =
    Connect_call nat bool bool
  | Disconnect_call nat bool bool
  | Subscribe_call nat string bool
  | SubscribeDirect_call nat bool
  | Unsubscribe_call nat string bool bool
  | UnsubscribeDirect_call nat bool
  | Send_call bool receivers
  | Receive_call nat "bool list" bool
  | ReceiveAll_call nat "bool list" bool
  | Fetch_call nat "bool list"
  | Refuse_call
  | Notify_call nat nat bool
  | GC_call "(nat \<times> bool list) list"
  | Response_call bool "receivers list"
  | ReadFailed_call bool "bool \<times> bool \<times> nat \<times> bool"
  | Outgoing_call bool bool "bool \<times> bool \<times> nat \<times> bool"
  | Metrics_call
  | Start_call

fun edge_locks :: "edge_call \<Rightarrow> lock_trace" where
  "edge_locks (Connect_call c saved mrn) = connect_agent_locks c saved mrn"
| "edge_locks (Disconnect_call c written closed) = disconnect_agent_locks c written closed"
| "edge_locks (Subscribe_call c s subscribed) = handleSubscribeSubject_locks c s subscribed"
| "edge_locks (SubscribeDirect_call c accepted) = handleSubscribeDirect_locks c accepted"
| "edge_locks (Unsubscribe_call c s subscribed interested) = handleUnsubscribeSubject_locks c s subscribed interested"
| "edge_locks (UnsubscribeDirect_call c mrn) = handleUnsubscribeDirect_locks c mrn"
| "edge_locks (Send_call has_uuid r) = handleSend_locks has_uuid r"
| "edge_locks (Receive_call c stored written) = HandleReceive_filter_locks c stored written"
| "edge_locks (ReceiveAll_call c expired written) = HandleReceive_all_locks c expired written"
| "edge_locks (Fetch_call c expired) = HandleFetch_locks c expired"
| "edge_locks Refuse_call = [Io]"
| "edge_locks (Notify_call c n written) = CheckNewMessages_locks c n written"
| "edge_locks (GC_call agents) = messageGC_locks agents"
| "edge_locks (Response_call resent contents) = handle_response_locks resent contents"
| "edge_locks (ReadFailed_call canceled r) = read_failed_locks canceled r"
| "edge_locks (Outgoing_call written request r) = handleOutgoingMessages_locks written request r"
| "edge_locks Metrics_call = recordMetrics_locks"
| "edge_locks Start_call = connectMMTPToRouter_locks"

definition edge_goroutine :: "edge_call list \<Rightarrow> lock_trace" where
  "edge_goroutine cs = concat (map edge_locks cs)"

section \<open>The router\<close>

text \<open>The handshake: with a token, whether the edge router is known, whether the token fits and whether the error is written.\<close>

definition connect_R_locks :: "nat \<Rightarrow> (bool \<times> bool \<times> bool) option \<Rightarrow> lock_trace" where
  "connect_R_locks c token =
    (let opened = [Wr (ReconnectToken_var c), Acq ErMu, Wr EdgeRouters_var, Rel ErMu, Rd (ReconnectToken_var c), Io]
     in case token of
          None \<Rightarrow> opened
        | Some (known, fits, written) \<Rightarrow>
            [AcqR ErMu, Rd EdgeRouters_var, RelR ErMu]
            @ (if \<not> known then [Io]
               else Rd (ReconnectToken_var c)
                    # (if fits then opened else Io # (if written then opened else []))))"

text \<open>For a new subject: whether there is a handle of the topic, whether it can be joined, whether it can be read.\<close>

definition handleSubscribe_R_locks :: "nat \<Rightarrow> string \<Rightarrow> bool \<Rightarrow> bool \<Rightarrow> bool \<Rightarrow> bool \<Rightarrow> lock_trace" where
  "handleSubscribe_R_locks c s subscribed handle joined opened =
    (let answer = [Rel SubMu, Rd (Interests_var c), Wr (Interests_var c), Io]
     in [Acq SubMu, Rd Subscriptions_var]
        @ (if subscribed then AddSubscriber_locks s @ answer
           else Rd TopicHandles_var
                # (if \<not> handle \<and> \<not> joined then [Io, Rel SubMu, Io]
                   else (if handle then [] else [Io, Wr TopicHandles_var])
                        @ AddSubscriber_locks s
                        @ Io # (if opened then Wr Subscriptions_var # answer else [Rel SubMu, Io]))))"

definition handleUnsubscribe_R_locks :: "nat \<Rightarrow> string \<Rightarrow> bool \<Rightarrow> bool \<Rightarrow> lock_trace" where
  "handleUnsubscribe_R_locks c s subscribed interested =
     [Acq SubMu, Rd Subscriptions_var]
     @ (if subscribed then DeleteSubscriber_locks s else [])
     @ [Rel SubMu, Rd (Interests_var c)]
     @ (if interested then [Wr (Interests_var c)] else [])
     @ [Io]"

text \<open>
  A Send: for each recipient, or for the subject, the other edge routers subscribed to it. Without a
  UUID the first of them ends the handler, with the locks it then holds.
\<close>

datatype topics = To_recipients_R "(string \<times> nat list option) list" | To_subject_R string "nat list option" | To_nobody_R

fun send_recipients_locks :: "bool \<Rightarrow> (string \<times> nat list option) list \<Rightarrow> lock_trace" where
  "send_recipients_locks has_uuid [] = [RelR ErMu, Io]"
| "send_recipients_locks has_uuid ((s, None) # rs) =
     [AcqR SubMu, Rd Subscriptions_var, RelR SubMu] @ send_recipients_locks has_uuid rs"
| "send_recipients_locks has_uuid ((s, Some cs) # rs) =
     [AcqR SubMu, Rd Subscriptions_var, RelR SubMu, AcqR (SubsMu s), Rd (Subscribers_var s)]
     @ (if has_uuid \<or> cs = []
        then concat (map (QueueMessage_locks has_uuid) cs) @ RelR (SubsMu s) # send_recipients_locks has_uuid rs
        else [])"

fun handleSend_R_locks :: "bool \<Rightarrow> topics \<Rightarrow> lock_trace" where
  "handleSend_R_locks has_uuid (To_recipients_R rs) = [Io, AcqR ErMu] @ send_recipients_locks has_uuid rs"
| "handleSend_R_locks has_uuid (To_subject_R s None) = [Io, AcqR SubMu, Rd Subscriptions_var, RelR SubMu, Io]"
| "handleSend_R_locks has_uuid (To_subject_R s (Some cs)) =
     [Io, AcqR SubMu, Rd Subscriptions_var, Rd (Subscribers_var s)]
     @ (if has_uuid \<or> cs = [] then concat (map (QueueMessage_locks has_uuid) cs) @ [RelR SubMu, Io] else [])"
| "handleSend_R_locks has_uuid To_nobody_R = [Io, Io]"

text \<open>A message of the network, for subjects that have a subscription; without one the process ends.\<close>

definition handleIncomingMessages_R_locks :: "bool \<Rightarrow> (string \<times> nat list) list \<Rightarrow> lock_trace" where
  "handleIncomingMessages_R_locks has_uuid rs =
     Io # concat (map (\<lambda>(s, cs). [AcqR SubMu, Rd Subscriptions_var, Rd (Subscribers_var s)]
                                 @ concat (map (QueueMessage_locks has_uuid) cs) @ [RelR SubMu]) rs)"

text \<open>A message for the network: for each topic whether it has a handle, whether it can be joined.\<close>

definition handleOutgoingMessages_R_locks :: "(bool \<times> bool) list \<Rightarrow> lock_trace" where
  "handleOutgoingMessages_R_locks topics =
     Io # concat (map (\<lambda>(handle, joined). Rd TopicHandles_var
       # (if handle then [Io] else if joined then [Io, Wr TopicHandles_var, Io] else [Io])) topics)"

definition messageGC_R_locks :: "(nat \<times> bool list) list \<Rightarrow> lock_trace" where
  "messageGC_R_locks ers =
     [AcqR ErMu, Rd EdgeRouters_var] @ concat (map (\<lambda>(c, expired). gc_locks c expired) ers) @ [RelR ErMu]"

datatype router_call =
    Connect_call_R nat "(bool \<times> bool \<times> bool) option"
  | Subscribe_call_R nat string bool bool bool bool
  | Unsubscribe_call_R nat string bool bool
  | Send_call_R bool topics
  | Receive_call_R nat "bool list" bool
  | ReceiveAll_call_R nat "bool list" bool
  | Fetch_call_R nat "bool list"
  | Write_call_R
  | Notify_call_R nat nat bool
  | GC_call_R "(nat \<times> bool list) list"
  | Incoming_call_R bool "(string \<times> nat list) list"
  | Outgoing_call_R "(bool \<times> bool) list"

fun router_locks :: "router_call \<Rightarrow> lock_trace" where
  "router_locks (Connect_call_R c token) = connect_R_locks c token"
| "router_locks (Subscribe_call_R c s subscribed handle joined opened) =
     handleSubscribe_R_locks c s subscribed handle joined opened"
| "router_locks (Unsubscribe_call_R c s subscribed interested) = handleUnsubscribe_R_locks c s subscribed interested"
| "router_locks (Send_call_R has_uuid r) = handleSend_R_locks has_uuid r"
| "router_locks (Receive_call_R c stored written) = HandleReceive_filter_locks c stored written"
| "router_locks (ReceiveAll_call_R c expired written) = HandleReceive_all_locks c expired written"
| "router_locks (Fetch_call_R c expired) = HandleFetch_locks c expired"
| "router_locks Write_call_R = [Io]"
| "router_locks (Notify_call_R c n written) = CheckNewMessages_locks c n written"
| "router_locks (GC_call_R ers) = messageGC_R_locks ers"
| "router_locks (Incoming_call_R has_uuid rs) = handleIncomingMessages_R_locks has_uuid rs"
| "router_locks (Outgoing_call_R topics) = handleOutgoingMessages_R_locks topics"

definition router_goroutine :: "router_call list \<Rightarrow> lock_trace" where
  "router_goroutine cs = concat (map router_locks cs)"

text \<open>The calls that give back what they lock.\<close>

fun nobody_else :: "topics \<Rightarrow> bool" where
  "nobody_else (To_recipients_R rs) \<longleftrightarrow> (\<forall>r \<in> set rs. snd r \<in> {None, Some []})"
| "nobody_else (To_subject_R s sub) \<longleftrightarrow> sub \<in> {None, Some []}"
| "nobody_else To_nobody_R \<longleftrightarrow> True"

fun unlocks :: "router_call \<Rightarrow> bool" where
  "unlocks (Send_call_R has_uuid r) \<longleftrightarrow> has_uuid \<or> nobody_else r"
| "unlocks c \<longleftrightarrow> True"

section \<open>Both programs are disciplined\<close>

lemma orderly_concat_map:
  "\<forall>x \<in> set xs. block rank guards H (f x) \<Longrightarrow> orderly rank guards H q \<Longrightarrow>
   orderly rank guards H (concat (map f xs) @ q)"
  by (rule blockD [OF block_concat]) auto

lemma orderly_replicate:
  "block rank guards H [x] \<Longrightarrow> orderly rank guards H q \<Longrightarrow> orderly rank guards H (replicate n x @ q)"
  by (induction n) (auto simp: block_def)

lemmas lock_trace_defs = QueueMessage_locks_def BulkQueueMessages_locks_def notify_locks_def
  CheckNewMessages_locks_def HandleReceive_filter_locks_def HandleReceive_all_locks_def
  HandleFetch_locks_def gc_locks_def AddSubscriber_locks_def DeleteSubscriber_locks_def
  SnapshotSubscribers_locks_def

text \<open>Both assignments of guards agree on the consumers.\<close>

definition consumer_guards :: "(shared_var \<Rightarrow> mutex list) \<Rightarrow> bool" where
  "consumer_guards guards \<longleftrightarrow>
     (\<forall>c. guards (Messages_var c) = [MsgMu c] \<and> guards (Notifications_var c) = [NotifyMu c])"

lemma consumer_guards_hold [simp]: "consumer_guards edge_guards" "consumer_guards router_guards"
  by (simp_all add: consumer_guards_def)

lemma queue_block:
  "consumer_guards guards \<Longrightarrow> \<forall>k \<in> set H. lock_rank (fst k) < 4 \<Longrightarrow>
   block lock_rank guards H (QueueMessage_locks u c)"
  by (fastforce simp: block_def QueueMessage_locks_def consumer_guards_def)

lemma consumer_orderly:
  assumes "consumer_guards guards"
  shows "orderly lock_rank guards [] (HandleReceive_filter_locks c bs w)"
    and "orderly lock_rank guards [] (HandleReceive_all_locks c bs w)"
    and "orderly lock_rank guards [] (HandleFetch_locks c bs)"
    and "orderly lock_rank guards [] (CheckNewMessages_locks c n w)"
  using assms
  by (auto simp: lock_trace_defs consumer_guards_def block_def intro!: orderly_concat_map orderly_replicate)

lemma gc_block:
  "consumer_guards guards \<Longrightarrow> \<forall>k \<in> set H. lock_rank (fst k) < 4 \<Longrightarrow> block lock_rank guards H (gc_locks c bs)"
  by (auto simp: lock_trace_defs consumer_guards_def block_def intro!: orderly_concat_map)

lemma direct_orderly:
  "orderly lock_rank edge_guards [(MrnToAgentMu, False)] q \<Longrightarrow>
   orderly lock_rank edge_guards [(MrnToAgentMu, False)] (queue_direct_locks u rs @ q)"
  unfolding queue_direct_locks_def
  by (intro orderly_concat_map ballI)
    (auto simp: block_def split: option.splits intro!: blockD [OF queue_block])

lemma queues_orderly:
  "consumer_guards guards \<Longrightarrow> \<forall>k \<in> set H. lock_rank (fst k) < 4 \<Longrightarrow> orderly lock_rank guards H q \<Longrightarrow>
   orderly lock_rank guards H (concat (map (QueueMessage_locks u) cs) @ q)"
  by (rule orderly_concat_map) (auto intro: queue_block)

lemma handleSend_orderly: "orderly lock_rank edge_guards [] (handleSend_locks u r)"
  by (cases r)
    (auto simp: SnapshotSubscribers_locks_def split: option.splits intro!: direct_orderly queues_orderly)

lemma deliver_block: "block lock_rank edge_guards [] (deliver_content_locks r)"
  by (cases r)
    (auto simp: block_def SnapshotSubscribers_locks_def split: option.splits intro!: direct_orderly queues_orderly)

lemma response_orderly: "orderly lock_rank edge_guards [] (handle_response_locks e cs)"
  using orderly_concat_map [of cs lock_rank edge_guards "[]" deliver_content_locks "[]"]
  by (simp add: handle_response_locks_def deliver_block)

lemma reconnect_orderly: "orderly lock_rank edge_guards [] (reconnect_locks r)"
  by (cases r)
    (auto simp: reconnect_locks_def TryConnectRouter_locks_def connectMMTPToRouter_locks_def block_def
      intro!: orderly_replicate)

lemma edge_messageGC_orderly: "orderly lock_rank edge_guards [] (messageGC_locks as)"
  by (auto simp: messageGC_locks_def intro!: orderly_concat_map gc_block)

lemma edge_call_orderly: "orderly lock_rank edge_guards [] (edge_locks c)"
  by (cases c)
    (auto simp: consumer_orderly handleSend_orderly response_orderly reconnect_orderly edge_messageGC_orderly
      connect_agent_locks_def disconnect_agent_locks_def handleSubscribeSubject_locks_def
      handleSubscribeDirect_locks_def handleUnsubscribeSubject_locks_def handleUnsubscribeDirect_locks_def
      AddSubscriber_locks_def DeleteSubscriber_locks_def read_failed_locks_def
      handleOutgoingMessages_locks_def recordMetrics_locks_def connectMMTPToRouter_locks_def)

lemma edge_goroutine_orderly: "orderly lock_rank edge_guards [] (edge_goroutine cs)"
  by (auto simp: edge_goroutine_def intro!: orderly_concat edge_call_orderly)

interpretation edge: lock_discipline lock_rank edge_guards "range edge_goroutine"
  by unfold_locales (auto intro: edge_goroutine_orderly)

lemma send_recipients_orderly:
  "u \<or> (\<forall>r \<in> set rs. snd r \<in> {None, Some []}) \<Longrightarrow>
   orderly lock_rank router_guards [(ErMu, False)] (send_recipients_locks u rs)"
  by (induction u rs rule: send_recipients_locks.induct) (auto intro!: queues_orderly)

lemma handleSend_R_orderly:
  "unlocks (Send_call_R u r) \<Longrightarrow> orderly lock_rank router_guards [] (handleSend_R_locks u r)"
  by (cases "(u, r)" rule: handleSend_R_locks.cases)
    (auto intro!: send_recipients_orderly queues_orderly)

lemma incoming_R_orderly: "orderly lock_rank router_guards [] (handleIncomingMessages_R_locks u rs)"
  by (auto simp: handleIncomingMessages_R_locks_def intro!: orderly_concat queues_orderly)

lemma outgoing_R_orderly: "orderly lock_rank router_guards [] (handleOutgoingMessages_R_locks ts)"
  by (auto simp: handleOutgoingMessages_R_locks_def intro!: orderly_concat)

lemma router_messageGC_orderly: "orderly lock_rank router_guards [] (messageGC_R_locks as)"
  by (auto simp: messageGC_R_locks_def intro!: orderly_concat_map gc_block)

lemma router_call_orderly: "unlocks c \<Longrightarrow> orderly lock_rank router_guards [] (router_locks c)"
  by (cases c)
    (auto simp: consumer_orderly handleSend_R_orderly incoming_R_orderly outgoing_R_orderly router_messageGC_orderly
      connect_R_locks_def handleSubscribe_R_locks_def handleUnsubscribe_R_locks_def
      AddSubscriber_locks_def DeleteSubscriber_locks_def Let_def simp del: unlocks.simps split: option.splits)

lemma router_goroutine_orderly:
  "\<forall>c \<in> set cs. unlocks c \<Longrightarrow> orderly lock_rank router_guards [] (router_goroutine cs)"
  by (auto simp: router_goroutine_def intro!: orderly_concat router_call_orderly)

interpretation router: lock_discipline lock_rank router_guards "router_goroutine ` {cs. \<forall>c \<in> set cs. unlocks c}"
  by unfold_locales (auto intro: router_goroutine_orderly)

section \<open>Runs that race\<close>

lemmas schedule_simps = launch_def may_def next_op_def free_def edge_goroutine_def router_goroutine_def





lemma topic_handles_race:
  "\<exists>ts. lock_run (launch (map router_goroutine [[Subscribe_call_R c s False False True True], [Outgoing_call_R [(True, True)]]])) ts
     \<and> race ts TopicHandles_var"
  by (rule scheduled_race [where js = "[0, 0, 0, 0, 1]"])
    (simp add: schedule_simps handleSubscribe_R_locks_def handleOutgoingMessages_R_locks_def Let_def)+

lemma router_interests_race:
  "\<exists>ts. lock_run (launch (map router_goroutine [[Unsubscribe_call_R c [] False True], [Unsubscribe_call_R c [] False True]])) ts
     \<and> race ts (Interests_var c)"
  by (rule scheduled_race [where js = "[0, 0, 0, 0, 1, 1, 1]"])
    (simp add: schedule_simps handleUnsubscribe_R_locks_def)+

lemma router_token_race:
  "\<exists>ts. lock_run (launch (map router_goroutine
       [[Connect_call_R c (Some (True, True, True))], [Connect_call_R c (Some (True, True, True))]])) ts
     \<and> race ts (ReconnectToken_var c)"
  by (rule scheduled_race [where js = "[0, 0, 0, 0, 1, 1, 1, 1]"])
    (simp add: schedule_simps connect_R_locks_def Let_def)+

section \<open>What holds of all runs\<close>

text \<open>
  C7: the mutexes never deadlock the goroutines of the edge router, provided that every read and
  write on a connection ends and every send on the outgoing channel finds room when it is done:
  whatever sessions, garbage collection, metrics and the two loops to the router have done so far, in
  any interleaving, one of them can do its next operation unless all have done their work, and
  all of them can still complete it. Without the room they can be stuck for ever, see \<open>Backlog\<close>.
\<close>

theorem edge_goroutines_complete:
  assumes "lock_run (launch (map edge_goroutine gs)) ts"
  shows "(finished ts \<or> (\<exists>i. can ts i)) \<and> (\<exists>us. lock_run ts us \<and> finished us)"
  using edge.no_deadlock [OF _ assms] edge.completes [OF _ assms] by auto

theorem edge_goroutines_complete_witness:
  "let ts = [([(MrnToAgentMu, False)], [Rd MrnToAgent_var, RelR MrnToAgentMu, Io]),
             ([], [Acq MrnToAgentMu, Rd MrnToAgent_var, Rd MrnToAgent_var, Rel MrnToAgentMu])]
   in (finished ts \<or> (\<exists>i. can ts i)) \<and> (\<exists>us. lock_run ts us \<and> finished us)"
  unfolding Let_def
  by (rule edge_goroutines_complete [where gs = "[[Send_call True (To_recipients [None])], [Metrics_call]]"],
      rule schedule_run [where js = "[0, 1, 1, 1, 0]"])
    (simp add: schedule_simps queue_direct_locks_def recordMetrics_locks_def)


text \<open>A Send without a UUID that reaches another edge router ends with locks that it keeps.\<close>

lemma waits_for_ever: "(l, False) \<in> set H \<Longrightarrow> \<not> may [(H, []), ([], Acq l # q)] i"
  by (cases "i = 0"; cases "i = 1") (auto simp: may_def next_op_def free_def)

lemma send_recipients_stuck:
  "\<not> (\<forall>r \<in> set rs. snd r \<in> {None, Some []}) \<Longrightarrow>
   \<exists>s. lock_run [([(ErMu, False)], send_recipients_locks False rs), ([], q)]
                [([(SubsMu s, False), (ErMu, False)], []), ([], q)]"
proof (induction rs)
  case (Cons r rs)
  obtain s sub where r: "r = (s, sub)" by (cases r)
  show ?case
  proof (cases "sub \<in> {None, Some []}")
    case True
    with r Cons.prems have "\<not> (\<forall>r \<in> set rs. snd r \<in> {None, Some []})" by auto
    from Cons.IH [OF this] obtain s' where IH:
      "lock_run [([(ErMu, False)], send_recipients_locks False rs), ([], q)]
                [([(SubsMu s', False), (ErMu, False)], []), ([], q)]" by blast
    have "lock_run [([(ErMu, False)], send_recipients_locks False (r # rs)), ([], q)]
                   [([(ErMu, False)], send_recipients_locks False rs), ([], q)]"
      using True r
      by (intro schedule_run [where js = "if sub = None then [0, 0, 0] else [0, 0, 0, 0, 0, 0]"])
        (auto simp: schedule_simps)
    with IH show ?thesis using lock_run_trans by blast
  next
    case False
    with r show ?thesis
      by (intro exI [of _ s] schedule_run [where js = "[0, 0, 0, 0, 0]"]) (auto simp: schedule_simps)
  qed
qed simp

lemma send_without_uuid_stuck:
  assumes "\<not> nobody_else r"
  shows "\<exists>c ts. unlocks c \<and> lock_run (launch (map router_goroutine [[Send_call_R False r], [c]])) ts
           \<and> \<not> finished ts \<and> (\<forall>i. \<not> may ts i)"
proof (cases r)
  case (To_recipients_R rs)
  let ?q = "[Acq ErMu, Wr EdgeRouters_var, Rel ErMu, Rd (ReconnectToken_var 0), Io]"
  have "lock_run (launch (map router_goroutine [[Send_call_R False r], [Connect_call_R 0 None]]))
          [([(ErMu, False)], send_recipients_locks False rs), ([], ?q)]"
    unfolding To_recipients_R
    by (rule schedule_run [where js = "[0, 0, 1]"]) (simp add: schedule_simps connect_R_locks_def)
  moreover obtain s where "lock_run [([(ErMu, False)], send_recipients_locks False rs), ([], ?q)]
      [([(SubsMu s, False), (ErMu, False)], []), ([], ?q)]"
    using send_recipients_stuck assms To_recipients_R by (metis nobody_else.simps(1))
  ultimately have "lock_run (launch (map router_goroutine [[Send_call_R False r], [Connect_call_R 0 None]]))
      [([(SubsMu s, False), (ErMu, False)], []), ([], ?q)]" by (rule lock_run_trans [rotated])
  moreover have "\<forall>i. \<not> may [([(SubsMu s, False), (ErMu, False)], []), ([], ?q)] i"
    by (simp add: waits_for_ever)
  ultimately show ?thesis
    by (intro exI [of _ "Connect_call_R 0 None"] exI) (auto simp: finished_def)
next
  case (To_subject_R s sub)
  with assms obtain cs where sub: "sub = Some cs" "cs \<noteq> []" by auto
  let ?c = "Unsubscribe_call_R 0 s False False"
  let ?us = "[([(SubMu, False)], []), ([], [Acq SubMu, Rd Subscriptions_var, Rel SubMu, Rd (Interests_var 0), Io])]"
  have "lock_run (launch (map router_goroutine [[Send_call_R False r], [?c]])) ?us"
    using sub unfolding To_subject_R
    by (intro schedule_run [where js = "[0, 0, 0, 0]"]) (simp add: schedule_simps handleUnsubscribe_R_locks_def)
  moreover have "\<forall>i. \<not> may ?us i"
    by (simp add: waits_for_ever)
  ultimately show ?thesis
    by (intro exI [of _ ?c] exI [of _ ?us]) (auto simp: finished_def)
qed (use assms in simp)

text \<open>
  C19: among calls that give their locks back, the router never blocks, in any interleaving. The one
  call that blocks it is a Send without a UUID for which another edge router is subscribed: after
  it some other call can wait for ever.
\<close>

theorem router_blocks_exactly:
  "unlocks x \<longleftrightarrow>
   (\<forall>gs ts. (\<forall>g \<in> set gs. \<forall>c \<in> set g. unlocks c) \<longrightarrow>
      lock_run (launch (map router_goroutine ([x] # gs))) ts \<longrightarrow> (\<exists>us. lock_run ts us \<and> finished us))"
  (is "_ \<longleftrightarrow> (\<forall>gs ts. ?ok gs \<longrightarrow> ?run gs ts \<longrightarrow> ?ends ts)")
proof (intro iffI allI impI)
  fix gs ts
  assume "unlocks x" "?ok gs" "?run gs ts"
  then show "?ends ts" by (intro router.completes [of "map router_goroutine ([x] # gs)"]) auto
next
  assume live: "\<forall>gs ts. ?ok gs \<longrightarrow> ?run gs ts \<longrightarrow> ?ends ts"
  show "unlocks x"
  proof (rule ccontr)
    assume "\<not> unlocks x"
    then obtain r where x: "x = Send_call_R False r" "\<not> nobody_else r" by (cases x) auto
    then obtain c ts where c: "unlocks c" "?run [[c]] ts" "\<not> finished ts" "\<forall>i. \<not> may ts i"
      using send_without_uuid_stuck by (metis list.simps(8,9))
    with live have "?ends ts" by (metis empty_iff empty_set insert_iff list.simps(15))
    with c(3,4) show False using stuck_stays by blast
  qed
qed

theorem router_blocks_exactly_witness:
  "\<not> (\<forall>gs ts. (\<forall>g \<in> set gs. \<forall>c \<in> set g. unlocks c) \<longrightarrow>
      lock_run (launch (map router_goroutine ([Send_call_R False (To_subject_R ''a'' (Some [1]))] # gs))) ts \<longrightarrow>
      (\<exists>us. lock_run ts us \<and> finished us))"
  using router_blocks_exactly [of "Send_call_R False (To_subject_R ''a'' (Some [1]))"] by simp

text \<open>
  C21: as long as every call gives its locks back, two goroutines of the router can be about to
  access the same variable at once, one of them to write it, for exactly the topic handles and the
  interests and the reconnect token of an edge router.
\<close>

theorem router_data_races:
  "(\<exists>gs ts. (\<forall>g \<in> set gs. \<forall>c \<in> set g. unlocks c) \<and> lock_run (launch (map router_goroutine gs)) ts \<and> race ts v)
   \<longleftrightarrow> v = TopicHandles_var \<or> (\<exists>c. v \<in> {Interests_var c, ReconnectToken_var c})"
    (is "?races \<longleftrightarrow> ?open")
proof
  assume ?races
  then obtain gs ts where r: "\<forall>g \<in> set gs. \<forall>c \<in> set g. unlocks c" "lock_run (launch (map router_goroutine gs)) ts" "race ts v"
    by blast
  then have "router_guards v = []" using router.no_race [of "map router_goroutine gs" ts v] by auto
  then show ?open by (cases v) auto
next
  have racing: "?races" if "\<forall>g \<in> set gs. \<forall>c \<in> set g. unlocks c"
    "\<exists>ts. lock_run (launch (map router_goroutine gs)) ts \<and> race ts v" for gs
    using that by blast
  assume ?open
  then consider "v = TopicHandles_var" | c where "v = Interests_var c" | c where "v = ReconnectToken_var c" by blast
  then show ?races
  proof cases
    case 1
    show ?thesis unfolding 1 by (rule racing [unfolded 1, OF _ topic_handles_race [of 0 "[]"]]) simp
  next
    case 2
    show ?thesis unfolding 2 by (rule racing [unfolded 2, OF _ router_interests_race]) simp
  next
    case 3
    show ?thesis unfolding 3 by (rule racing [unfolded 3, OF _ router_token_race]) simp
  qed
qed

theorem router_data_races_witness:
  "\<exists>gs ts. (\<forall>g \<in> set gs. \<forall>c \<in> set g. unlocks c) \<and> lock_run (launch (map router_goroutine gs)) ts \<and> race ts TopicHandles_var"
  using router_data_races [of TopicHandles_var] by simp

end
