(* ===== verification/Interleaving.thy ===== *)
theory Interleaving
  imports Session
begin

text \<open>
  One consumer and the goroutines that share it, one critical section at a time. The other theories
  run a method of \<open>Consumer\<close> in one step; here QueueMessage and HandleReceive are cut where they free
  a mutex, so that other goroutines come in between. What lies between taking and freeing one mutex
  is one step: the mutex keeps the others away from what it protects.
\<close>

section \<open>Critical sections\<close>

text \<open>QueueMessage: the store, then the notification, each under its own mutex.\<close>

definition queue_store :: "MmtpMessage \<Rightarrow> Consumer \<Rightarrow> error + Consumer" where
  "queue_store m c =
     (let uUid = GetUuid (Some m)
      in if uUid = '''' then Inl (Errorf ''the message does not contain a UUID'')
         else Inr (c\<lparr>Messages := mput uUid m (Messages c)\<rparr>))"

definition queue_notification :: "MmtpMessage \<Rightarrow> Consumer \<Rightarrow> Consumer" where
  "queue_notification m c = c\<lparr>Notifications := mput (GetUuid (Some m)) m (Notifications c)\<rparr>"

text \<open>
  HandleReceive with a filter: the messages are taken under both mutexes, the answer is written
  under MsgMu alone. BulkQueueMessages is a section of its own, after MsgMu has been free.
\<close>

definition receive_take :: "string list \<Rightarrow> Consumer \<Rightarrow> Consumer \<times> MmtpMessage list \<times> MessageContent list" where
  "receive_take msgUuids c =
     (let (M, N, mmtpMessages, msgContents) = receive_loop msgUuids (Messages c) (Notifications c) [] []
      in (c\<lparr>Messages := M, Notifications := N\<rparr>, mmtpMessages, msgContents))"

definition receive_answer :: "Env \<Rightarrow> MmtpMessage \<Rightarrow> MessageContent list \<Rightarrow> Io \<Rightarrow> Io \<times> error option" where
  "receive_answer env request msgContents io =
     respond env io ((goodResponse (GetUuid (Some request)))\<lparr>RM_MessageContent := msgContents\<rparr>)"

text \<open>Without a filter: the notifications are cleared under both, the messages with the answer under MsgMu.\<close>

definition receive_scan :: "int \<Rightarrow> Consumer \<Rightarrow> ((string, MmtpMessage) gomap, MessageContent list) result" where
  "receive_scan now c = receive_all_loop now (Messages c) (Notifications c) []"

definition receive_clear :: "error option \<Rightarrow> Consumer \<Rightarrow> Consumer" where
  "receive_clear err c = (if err = None then c\<lparr>Messages := []\<rparr> else c)"

section \<open>Goroutines\<close>

text \<open>
  Where a goroutine is inside a method, with its local variables: after the store of QueueMessage,
  before the answer of a Receive, before BulkQueueMessages.
\<close>

datatype pc =
    Idle
  | Queueing MmtpMessage
  | Answering MmtpMessage "MmtpMessage list" "MessageContent list"
  | AnsweringAll MmtpMessage int "MessageContent list"
  | Requeueing "MmtpMessage list"

text \<open>
  The connection of a session, with its clock and its source of UUIDs, is shared by the goroutine of
  the session and its CheckNewMessages, which may write a Notify at any time.
\<close>

record Shared =
  stored_in :: Consumer
  msgMu :: "nat option"
  pcs :: "nat \<Rightarrow> pc"
  ios :: "nat \<Rightarrow> Io"

text \<open>What a step shows: a message stored, an answer written, messages removed as expired, a Notify written.\<close>

datatype label =
    Put MmtpMessage
  | Deliver "MessageContent list"
  | DeliverAll int "MessageContent list"
  | Expire int
  | Announce "(string, MmtpMessage) gomap"
  | Internal

inductive section_step :: "Env \<Rightarrow> Shared \<Rightarrow> label \<Rightarrow> Shared \<Rightarrow> bool" for env where
  store: "pcs s t = Idle \<Longrightarrow> msgMu s = None \<Longrightarrow> queue_store m (stored_in s) = Inr c \<Longrightarrow>
    section_step env s (Put m) (s\<lparr>stored_in := c, pcs := (pcs s)(t := Queueing m)\<rparr>)"
| notification: "pcs s t = Queueing m \<Longrightarrow>
    section_step env s Internal
      (s\<lparr>stored_in := queue_notification m (stored_in s), pcs := (pcs s)(t := Idle)\<rparr>)"
| take: "pcs s t = Idle \<Longrightarrow> msgMu s = None \<Longrightarrow>
    GetReceiveMessage (GetProtocolMessage (Some req)) = Some r \<Longrightarrow>
    GetMessageUuids (GetFilter (Some r)) = Some us \<Longrightarrow>
    receive_take us (stored_in s) = (c, ms, cs) \<Longrightarrow>
    section_step env s Internal
      (s\<lparr>stored_in := c, msgMu := Some t, pcs := (pcs s)(t := Answering req ms cs)\<rparr>)"
| answered: "pcs s t = Answering req ms cs \<Longrightarrow> receive_answer env req cs (ios s t) = (io, None) \<Longrightarrow>
    section_step env s (Deliver cs)
      (s\<lparr>ios := (ios s)(t := io), msgMu := None, pcs := (pcs s)(t := Idle)\<rparr>)"
| unanswered: "pcs s t = Answering req ms cs \<Longrightarrow> receive_answer env req cs (ios s t) = (io, Some e) \<Longrightarrow>
    section_step env s Internal
      (s\<lparr>ios := (ios s)(t := io), msgMu := None, pcs := (pcs s)(t := Requeueing ms)\<rparr>)"
| requeue: "pcs s t = Requeueing ms \<Longrightarrow> msgMu s = None \<Longrightarrow>
    section_step env s Internal
      (s\<lparr>stored_in := BulkQueueMessages (stored_in s) ms, pcs := (pcs s)(t := Idle)\<rparr>)"
| scan: "pcs s t = Idle \<Longrightarrow> msgMu s = None \<Longrightarrow>
    GetReceiveMessage (GetProtocolMessage (Some req)) = Some r \<Longrightarrow>
    GetMessageUuids (GetFilter (Some r)) = None \<Longrightarrow>
    NowUnix env (ios s t) = (now, io) \<Longrightarrow> receive_scan now (stored_in s) = Return N cs \<Longrightarrow>
    section_step env s Internal
      (s\<lparr>stored_in := (stored_in s)\<lparr>Notifications := N\<rparr>, ios := (ios s)(t := io), msgMu := Some t,
         pcs := (pcs s)(t := AnsweringAll req now cs)\<rparr>)"
| clear: "pcs s t = AnsweringAll req now cs \<Longrightarrow> receive_answer env req cs (ios s t) = (io, err) \<Longrightarrow>
    section_step env s (if err = None then DeliverAll now cs else Internal)
      (s\<lparr>stored_in := receive_clear err (stored_in s), ios := (ios s)(t := io), msgMu := None,
         pcs := (pcs s)(t := Idle)\<rparr>)"
| fetch: "pcs s t = Idle \<Longrightarrow> msgMu s = None \<Longrightarrow>
    GetFetchMessage (GetProtocolMessage (Some req)) = Some f \<Longrightarrow>
    HandleFetch env req (stored_in s, ios s t) = Return (c, io) err \<Longrightarrow>
    section_step env s (Expire (clock env (clockn (ios s t)))) (s\<lparr>stored_in := c, ios := (ios s)(t := io)\<rparr>)"
| gc: "msgMu s = None \<Longrightarrow>
    section_step env s (Expire now) (s\<lparr>stored_in := gc_consumer now (stored_in s)\<rparr>)"
| announce: "Notifications (stored_in s) \<noteq> [] \<Longrightarrow>
    notify env (stored_in s) (ios s t) = (c, io, err) \<Longrightarrow>
    section_step env s (if err = None then Announce (Notifications (stored_in s)) else Internal)
      (s\<lparr>stored_in := c, ios := (ios s)(t := io)\<rparr>)"

text \<open>The labels of a run, from a consumer nobody has used yet.\<close>

inductive section_run :: "Env \<Rightarrow> label list \<Rightarrow> Shared \<Rightarrow> bool" for env where
  fresh: "Messages (stored_in s) = [] \<Longrightarrow> Notifications (stored_in s) = [] \<Longrightarrow> msgMu s = None \<Longrightarrow>
    (\<forall>t. pcs s t = Idle) \<Longrightarrow> section_run env [] s"
| step: "section_run env tr s \<Longrightarrow> section_step env s l s' \<Longrightarrow> section_run env (tr @ [l]) s'"

section \<open>Uninterrupted sections are the methods\<close>

lemma QueueMessage_sections:
  "QueueMessage (Some c) m =
     (case queue_store m c of Inl e \<Rightarrow> Inl e | Inr c \<Rightarrow> Inr (queue_notification m c))"
  by (simp add: QueueMessage_def queue_store_def queue_notification_def Let_def)

lemma HandleReceive_filter_sections:
  assumes "GetReceiveMessage (GetProtocolMessage (Some req)) = Some r"
    and "GetMessageUuids (GetFilter (Some r)) = Some us"
  shows "HandleReceive env req (c, io) =
    (let (c, ms, cs) = receive_take us c; (io, err) = receive_answer env req cs io
     in case err of
          None \<Rightarrow> Return (c, io) None
        | Some e \<Rightarrow> Return (BulkQueueMessages c ms, io) (Some (Wrapf ''could not send messages to Consumer'' e)))"
  using assms by (simp add: HandleReceive_def receive_take_def receive_answer_def Let_def split: prod.splits option.splits)

lemma HandleReceive_all_sections:
  assumes "GetReceiveMessage (GetProtocolMessage (Some req)) = Some r"
    and "GetMessageUuids (GetFilter (Some r)) = None"
  shows "HandleReceive env req (c, io) =
    (let (now, io) = NowUnix env io
     in case receive_scan now c of
          Return N cs \<Rightarrow>
            (let c = c\<lparr>Notifications := N\<rparr>; (io, err) = receive_answer env req cs io
             in Return (receive_clear err c, io) (map_option (Wrapf ''could not send messages to Consumer'') err))
        | Panic N w \<Rightarrow> Panic (c\<lparr>Notifications := N\<rparr>, io) w
        | Wait N w \<Rightarrow> Wait (c\<lparr>Notifications := N\<rparr>, io) w)"
  using assms
  by (auto simp: HandleReceive_def receive_scan_def receive_answer_def receive_clear_def Let_def
      split: prod.splits option.splits result.splits)

section \<open>What holds between the sections\<close>

fun hands :: "pc \<Rightarrow> MmtpMessage list" where
  "hands (Answering req ms cs) = ms"
| "hands (Requeueing ms) = ms"
| "hands p = []"

definition sound :: "Shared \<Rightarrow> bool" where
  "sound s \<longleftrightarrow> consumer_ok (stored_in s)
     \<and> (\<forall>t. (\<forall>m \<in> set (hands (pcs s t)). storable m)
          \<and> (\<forall>m. pcs s t = Queueing m \<longrightarrow> storable m)
          \<and> (\<forall>req ms cs. pcs s t = Answering req ms cs \<longrightarrow>
               msgMu s = Some t \<and> cs = map (\<lambda>m. contentOf (Uuid m, m)) ms)
          \<and> (\<forall>req now cs. pcs s t = AnsweringAll req now cs \<longrightarrow>
               msgMu s = Some t \<and> cs = map contentOf (filter (\<lambda>e. alive now (snd e)) (Messages (stored_in s)))))"

lemma receive_take_eq:
  assumes "receive_take us c = (c', ms, cs)" and "consumer_ok c"
  shows "ms = map snd (taken us (Messages c))" and "cs = map (\<lambda>m. contentOf (Uuid m, m)) ms"
    and "consumer_ok c'" and "mget (Messages c') k = (if k \<in> set us then None else mget (Messages c) k)"
proof -
  note D = consumer_okD [OF assms(2)]
  obtain M N where L: "receive_loop us (Messages c) (Notifications c) [] [] = (M, N, ms, cs)"
    and c': "c' = c\<lparr>Messages := M, Notifications := N\<rparr>"
    using assms(1) by (auto simp: receive_take_def split: prod.splits)
  from L have eqs: "ms = map snd (taken us (Messages c))" "cs = map contentOf (taken us (Messages c))"
    by (subst (asm) receive_loop_eq, simp add: Let_def)+
  show "ms = map snd (taken us (Messages c))" by (rule eqs)
  have "\<forall>e \<in> set (taken us (Messages c)). Uuid (snd e) = fst e"
    using D(3) by (auto simp: taken_in entry_ok_def dest: all_entries_get)
  then show "cs = map (\<lambda>m. contentOf (Uuid m, m)) ms" by (simp add: eqs)
  show "consumer_ok c'" using receive_loop_inv [OF L D] by (simp add: c' consumer_ok_def)
  show "mget (Messages c') k = (if k \<in> set us then None else mget (Messages c) k)"
    using receive_loop_maps [OF L, of k] by (simp add: c')
qed

lemma queue_store_ok:
  "queue_store m c = Inr c' \<Longrightarrow> consumer_ok c \<Longrightarrow> storable m \<Longrightarrow> consumer_ok c'"
  by (auto simp: queue_store_def consumer_ok_def entry_ok_def Let_def split: if_splits
      intro!: gm.ok_put all_entries_mput)

lemma queue_notification_ok:
  "consumer_ok c \<Longrightarrow> storable m \<Longrightarrow> consumer_ok (queue_notification m c)"
  by (auto simp: queue_notification_def consumer_ok_def entry_ok_def intro!: gm.ok_put all_entries_mput)

lemma receive_scan_eq:
  "consumer_ok c \<Longrightarrow> receive_scan now c = Return N cs \<Longrightarrow>
   cs = map contentOf (filter (\<lambda>e. alive now (snd e)) (Messages c)) \<and> consumer_ok (c\<lparr>Notifications := N\<rparr>)"
  by (auto simp: receive_scan_def loop_eqs(3) consumer_okD) (auto simp: consumer_ok_def mdel_all_filter keys_ok_filter)

lemma soundD:
  assumes "sound s"
  shows "consumer_ok (stored_in s)"
    and "m \<in> set (hands (pcs s t)) \<Longrightarrow> storable m"
    and "pcs s t = Queueing m \<Longrightarrow> storable m"
    and "pcs s t = Answering req ms cs \<Longrightarrow> msgMu s = Some t \<and> cs = map (\<lambda>m. contentOf (Uuid m, m)) ms"
    and "pcs s t = AnsweringAll req now cs \<Longrightarrow>
      msgMu s = Some t \<and> cs = map contentOf (filter (\<lambda>e. alive now (snd e)) (Messages (stored_in s)))"
  using assms by (auto simp: sound_def)

lemma notify_same_messages: "notify env c io = (c', io', err) \<Longrightarrow> Messages c' = Messages c"
  by (auto dest!: notify_state split: option.splits)

text \<open>Only the goroutine that holds MsgMu is about to answer.\<close>

lemma answers_alone:
  assumes "sound s" and "msgMu s \<noteq> Some t"
  shows "pcs s t \<noteq> Answering req ms cs" and "pcs s t \<noteq> AnsweringAll req now cs"
  using soundD(4,5) [OF assms(1), of t] assms(2) by auto

text \<open>Every section keeps this, as long as the queued messages carry a header.\<close>

lemma section_step_sound:
  assumes "section_step env s l s'" and "sound s" and "\<And>m. l = Put m \<Longrightarrow> storable m"
  shows "sound s'"
  using assms
proof (cases rule: section_step.cases)
  case (store t m c)
  have st: "storable m" using assms(3) store by simp
  have "pcs s t' \<noteq> AnsweringAll req now cs" for req now cs t' using store answers_alone [OF assms(2)] by simp
  moreover have "consumer_ok c" using queue_store_ok [OF store(5) soundD(1) [OF assms(2)] st] .
  ultimately show ?thesis using store st assms(2) by (auto simp: sound_def)
next
  case (notification t m)
  have "consumer_ok (queue_notification m (stored_in s))"
    using queue_notification_ok [OF soundD(1) [OF assms(2)] soundD(3) [OF assms(2) notification(3)]] .
  then show ?thesis using notification assms(2) by (auto simp: sound_def queue_notification_def)
next
  case (take t req r us c ms cs)
  note T = receive_take_eq [OF take(7) soundD(1) [OF assms(2)]]
  have "\<forall>m \<in> set ms. storable m"
    unfolding T(1) using taken_storable [OF consumer_okD(3) [OF soundD(1) [OF assms(2)]]] by auto
  moreover have "msgMu s \<noteq> Some t'" for t' using take by simp
  ultimately show ?thesis using take T(2,3) assms(2) by (fastforce simp: sound_def)
next
  case (requeue t ms)
  have "consumer_ok (BulkQueueMessages (stored_in s) ms)"
    using BulkQueueMessages_ok [OF soundD(1) [OF assms(2)]] soundD(2) [OF assms(2), of _ t] requeue by simp
  moreover have "msgMu s \<noteq> Some t'" for t' using requeue by simp
  ultimately show ?thesis using requeue assms(2) by (fastforce simp: sound_def)
next
  case (scan t req r now io N cs)
  have "msgMu s \<noteq> Some t'" for t' using scan by simp
  with scan receive_scan_eq [OF soundD(1) [OF assms(2)] scan(8)] assms(2) show ?thesis
    by (fastforce simp: sound_def)
next
  case (clear t req now cs io err)
  have "msgMu s \<noteq> Some t'" if "t' \<noteq> t" for t' using soundD(5) [OF assms(2) clear(3)] that by simp
  note others = answers_alone [OF assms(2) this]
  have "consumer_ok (receive_clear err (stored_in s))"
    using soundD(1) [OF assms(2)] by (simp add: receive_clear_def consumer_ok_def)
  then show ?thesis using clear others assms(2) by (auto simp: sound_def)
next
  case (answered t req ms cs io)
  have "msgMu s \<noteq> Some t'" if "t' \<noteq> t" for t' using soundD(4) [OF assms(2) answered(3)] that by simp
  note others = answers_alone [OF assms(2) this]
  show ?thesis using answered others assms(2) by (auto simp: sound_def)
next
  case (unanswered t req ms cs io e)
  have "msgMu s \<noteq> Some t'" if "t' \<noteq> t" for t' using soundD(4) [OF assms(2) unanswered(3)] that by simp
  note others = answers_alone [OF assms(2) this]
  have "\<forall>m \<in> set ms. storable m" using soundD(2) [OF assms(2), of _ t] unanswered by simp
  then show ?thesis using unanswered others assms(2) by (auto simp: sound_def)
next
  case (fetch t req f c io err)
  have "msgMu s \<noteq> Some t'" for t' using fetch by simp
  with fetch HandleFetch_ok [OF soundD(1) [OF assms(2)] fetch(6)] assms(2) show ?thesis
    by (fastforce simp: sound_def)
next
  case (gc now)
  have "msgMu s \<noteq> Some t'" for t' using gc by simp
  with gc gc_consumer_ok [OF soundD(1) [OF assms(2)], of now] assms(2) show ?thesis
    by (fastforce simp: sound_def)
next
  case (announce t c io err)
  have "consumer_ok c" using soundD(1) [OF assms(2)] notify_state [OF announce(4)]
    by (auto simp: consumer_ok_def split: option.splits)
  with announce notify_same_messages [OF announce(4)] assms(2) show ?thesis by (simp add: sound_def)
qed

lemma section_run_sound: "section_run env tr s \<Longrightarrow> \<forall>m. Put m \<in> set tr \<longrightarrow> storable m \<Longrightarrow> sound s"
proof (induction rule: section_run.induct)
  case (fresh s)
  then show ?case by (simp add: sound_def consumer_ok_def)
next
  case (step tr s l s')
  then show ?case using section_step_sound [OF step(2)] by simp
qed

section \<open>Where a message is\<close>

text \<open>
  The places of a UUID: the store (\<open>None\<close>) and the goroutines that have taken it out of the store.
\<close>

definition places :: "string \<Rightarrow> Shared \<Rightarrow> nat option set" where
  "places k s =
     {p. case p of None \<Rightarrow> mget (Messages (stored_in s)) k \<noteq> None
                 | Some t \<Rightarrow> k \<in> Uuid ` set (hands (pcs s t))}"

text \<open>Whatever is found there is this message.\<close>

definition agree :: "MmtpMessage \<Rightarrow> Shared \<Rightarrow> bool" where
  "agree m s \<longleftrightarrow> mget (Messages (stored_in s)) (Uuid m) \<in> {None, Some m}
     \<and> (\<forall>t. \<forall>m' \<in> set (hands (pcs s t)). Uuid m' = Uuid m \<longrightarrow> m' = m)"

fun put_under :: "string \<Rightarrow> label \<Rightarrow> MmtpMessage list" where
  "put_under k (Put m) = (if Uuid m = k then [m] else [])"
| "put_under k _ = []"

fun delivers :: "MmtpMessage \<Rightarrow> label \<Rightarrow> bool" where
  "delivers m (Deliver cs) \<longleftrightarrow> contentOf (Uuid m, m) \<in> set cs"
| "delivers m (DeliverAll now cs) \<longleftrightarrow> contentOf (Uuid m, m) \<in> set cs"
| "delivers m _ \<longleftrightarrow> False"

fun expires :: "MmtpMessage \<Rightarrow> label \<Rightarrow> bool" where
  "expires m (Expire now) \<longleftrightarrow> \<not> alive now m"
| "expires m (DeliverAll now cs) \<longleftrightarrow> \<not> alive now m"
| "expires m _ \<longleftrightarrow> False"

definition deliveries :: "MmtpMessage \<Rightarrow> label list \<Rightarrow> nat" where
  "deliveries m tr = length (filter (delivers m) tr)"

text \<open>
  A step that stores nothing under the UUID moves the message to at most one other place, or it
  removes it, and then delivers it or found it expired.
\<close>

definition moves :: "MmtpMessage \<Rightarrow> Shared \<Rightarrow> label \<Rightarrow> Shared \<Rightarrow> bool" where
  "moves m s l s' \<longleftrightarrow> agree m s'
     \<and> (places (Uuid m) s = {} \<longrightarrow> places (Uuid m) s' = {} \<and> \<not> delivers m l)
     \<and> (\<forall>p. places (Uuid m) s = {p} \<longrightarrow>
          (\<exists>q. places (Uuid m) s' = {q}) \<and> \<not> delivers m l
          \<or> places (Uuid m) s' = {} \<and> (delivers m l \<or> expires m l))"

lemma places_None: "None \<in> places k s \<longleftrightarrow> mget (Messages (stored_in s)) k \<noteq> None"
  and places_Some: "Some t \<in> places k s \<longleftrightarrow> k \<in> Uuid ` set (hands (pcs s t))"
  by (simp_all add: places_def)

lemma moved:
  "places (Uuid m) s' = insert q (places (Uuid m) s - {p}) \<Longrightarrow> p \<in> places (Uuid m) s \<Longrightarrow> agree m s' \<Longrightarrow>
   \<not> delivers m l \<Longrightarrow> moves m s l s'"
  unfolding moves_def by auto

lemma removed:
  "places (Uuid m) s' = places (Uuid m) s - {p} \<Longrightarrow> p \<in> places (Uuid m) s \<Longrightarrow> agree m s' \<Longrightarrow>
   delivers m l \<or> expires m l \<Longrightarrow> moves m s l s'"
  unfolding moves_def by auto

lemma stays:
  assumes "agree m s" and "\<not> delivers m l"
    and "mget (Messages (stored_in s')) (Uuid m) = mget (Messages (stored_in s)) (Uuid m)"
    and "\<And>t. filter (\<lambda>m'. Uuid m' = Uuid m) (hands (pcs s' t)) = filter (\<lambda>m'. Uuid m' = Uuid m) (hands (pcs s t))"
  shows "moves m s l s'"
proof -
  have hands: "m' \<in> set (hands (pcs s' t)) \<longleftrightarrow> m' \<in> set (hands (pcs s t))" if "Uuid m' = Uuid m" for m' t
    using arg_cong [OF assms(4) [of t], of set] that by auto
  then have "Uuid m \<in> Uuid ` set (hands (pcs s' t)) \<longleftrightarrow> Uuid m \<in> Uuid ` set (hands (pcs s t))" for t
    unfolding image_iff using hands by fastforce
  then have "places (Uuid m) s' = places (Uuid m) s"
    using assms(3) by (auto simp: places_def split: option.splits)
  moreover have "agree m s'" using assms(1,3) hands by (auto simp: agree_def)
  ultimately show ?thesis using assms(2) by (auto simp: moves_def)
qed

lemma filtered_moves:
  assumes "agree m s" and "\<not> delivers m l"
    and "mget (Messages (stored_in s')) (Uuid m) =
      (case mget (Messages (stored_in s)) (Uuid m) of None \<Rightarrow> None | Some m' \<Rightarrow> if alive now m' then Some m' else None)"
    and "pcs s' = pcs s" and "expires m l \<longleftrightarrow> \<not> alive now m"
  shows "moves m s l s'"
proof (cases "mget (Messages (stored_in s)) (Uuid m) = Some m \<and> \<not> alive now m")
  case True
  with assms have "places (Uuid m) s' = places (Uuid m) s - {None}" "agree m s'"
    by (auto simp: places_def agree_def split: option.splits)
  moreover have "None \<in> places (Uuid m) s" using True by (simp add: places_None)
  ultimately show ?thesis using True assms(5) by (intro removed) simp_all
next
  case False
  with assms show ?thesis by (intro stays) (auto simp: agree_def split: option.splits)
qed

lemma bulk_get:
  "mget (Messages (BulkQueueMessages c ms)) k =
     (if k \<in> Uuid ` set ms then Some (last (filter (\<lambda>m. Uuid m = k) ms)) else mget (Messages c) k)"
proof (induction ms rule: rev_induct)
  case Nil
  then show ?case by (simp add: BulkQueueMessages_def)
next
  case (snoc m ms)
  then show ?case by (auto simp: BulkQueueMessages_def)
qed

lemma fetch_messages:
  assumes "HandleFetch env req (c, io) = Return (c', io') err" and "consumer_ok c"
    and "GetFetchMessage (GetProtocolMessage (Some req)) = Some f"
  shows "Messages c' = filter (\<lambda>e. alive (clock env (clockn io)) (snd e)) (Messages c)"
  using assms consumer_okD(1,3) [OF assms(2)]
  by (auto simp: HandleFetch_def loop_eqs NowUnix_def Let_def split: prod.splits option.splits)

lemma content_of_uuid: "contentOf (u, m) = contentOf (u', m') \<Longrightarrow> u = u'"
  by (simp add: contentOf_def)

lemma mget_alive:
  "keys_ok M \<Longrightarrow> mget (filter (\<lambda>e. alive now (snd e)) M) k =
     (case mget M k of None \<Rightarrow> None | Some m \<Rightarrow> if alive now m then Some m else None)"
  by (simp add: mget_filter cong: option.case_cong)

lemma none_with_uuid: "k \<notin> Uuid ` set ms \<Longrightarrow> filter (\<lambda>m. Uuid m = k) ms = []"
  by (induction ms) auto

lemma last_with_uuid:
  "k \<in> Uuid ` set ms \<Longrightarrow> last (filter (\<lambda>m. Uuid m = k) ms) \<in> {m \<in> set ms. Uuid m = k}"
  using last_in_set [of "filter (\<lambda>m. Uuid m = k) ms"] by (auto simp: filter_empty_conv)

lemma agree_hands: "agree m s \<Longrightarrow> m' \<in> set (hands (pcs s t)) \<Longrightarrow> Uuid m' = Uuid m \<Longrightarrow> m' = m"
  by (simp add: agree_def)

lemma taken_uuids:
  assumes "consumer_ok c"
  shows "Uuid ` set (map snd (taken us (Messages c))) = {u \<in> set us. mget (Messages c) u \<noteq> None}"
proof -
  have "Uuid (snd e) = fst e" if "e \<in> set (taken us (Messages c))" for e
    using that consumer_ok_entry [OF assms, of "fst e" "snd e"] taken_in [of "fst e" "snd e"] by simp
  then have "Uuid ` set (map snd (taken us (Messages c))) = fst ` set (taken us (Messages c))"
    unfolding set_map image_image by (intro image_cong) auto
  also have "\<dots> = {u \<in> set us. mget (Messages c) u \<noteq> None}"
    unfolding taken_def set_map image_image by auto
  finally show ?thesis .
qed

lemma section_step_moves:
  assumes "section_step env s l s'" and "sound s" and "agree m s" and "put_under (Uuid m) l = []"
  shows "moves m s l s'"
  using assms
proof (cases rule: section_step.cases)
  case (store t m' c)
  with assms show ?thesis
    by (intro stays) (auto simp: queue_store_def Let_def split: if_splits)
next
  case (notification t m')
  with assms show ?thesis by (intro stays) (auto simp: queue_notification_def)
next
  case (take t req r us c ms cs)
  let ?k = "Uuid m"
  note T = receive_take_eq [OF take(7) soundD(1) [OF assms(2)]]
  have uuids: "Uuid ` set ms = {u \<in> set us. mget (Messages (stored_in s)) u \<noteq> None}"
    unfolding T(1) by (rule taken_uuids [OF soundD(1) [OF assms(2)]])
  show ?thesis
  proof (cases "?k \<in> set us \<and> mget (Messages (stored_in s)) ?k \<noteq> None")
    case True
    then have at: "mget (Messages (stored_in s)) ?k = Some m" using assms(3) by (auto simp: agree_def)
    have "m' = m" if "m' \<in> set ms" "Uuid m' = ?k" for m'
    proof -
      obtain u where "(u, m') \<in> set (taken us (Messages (stored_in s)))" using \<open>m' \<in> set ms\<close> unfolding T(1) by auto
      then have "mget (Messages (stored_in s)) u = Some m'" by (simp add: taken_in)
      with consumer_ok_entry [OF soundD(1) [OF assms(2)] this] \<open>Uuid m' = ?k\<close> at show ?thesis by simp
    qed
    then have "agree m s'" using take T(4) assms(3) True by (auto simp: agree_def)
    moreover have "places ?k s' = insert (Some t) (places ?k s - {None})"
      using take T(4) True uuids by (auto simp: places_def split: option.splits if_splits)
    moreover have "None \<in> places ?k s" using at by (simp add: places_None)
    ultimately show ?thesis by (intro moved) (simp_all add: take(1))
  next
    case False
    then have "?k \<notin> Uuid ` set ms" using uuids by simp
    then have "filter (\<lambda>m'. Uuid m' = ?k) ms = []" by (rule none_with_uuid)
    moreover have "mget (Messages c) ?k = mget (Messages (stored_in s)) ?k" using T(4) False by auto
    ultimately show ?thesis using take assms by (intro stays) auto
  qed
next
  case (answered t req ms cs io)
  have cs: "cs = map (\<lambda>m. contentOf (Uuid m, m)) ms" using soundD(4) [OF assms(2) answered(3)] by simp
  show ?thesis
  proof (cases "Uuid m \<in> Uuid ` set ms")
    case True
    then obtain m' where "m' \<in> set ms" "Uuid m' = Uuid m" by auto
    with agree_hands [OF assms(3), of m' t] answered have "m \<in> set ms" by simp
    then have "delivers m l" using answered cs by auto
    moreover have "places (Uuid m) s' = places (Uuid m) s - {Some t}" "agree m s'"
      using answered assms(3) by (auto simp: places_def agree_def split: option.splits if_splits)
    moreover have "Some t \<in> places (Uuid m) s" using True answered(3) by (simp add: places_Some)
    ultimately show ?thesis by (intro removed) simp_all
  next
    case False
    then have "\<not> delivers m l" using answered cs by (auto dest: content_of_uuid)
    moreover have "filter (\<lambda>m'. Uuid m' = Uuid m) ms = []" using False by (rule none_with_uuid)
    ultimately show ?thesis using answered assms by (intro stays) auto
  qed
next
  case (unanswered t req ms cs io e)
  with assms show ?thesis by (intro stays) auto
next
  case (requeue t ms)
  show ?thesis
  proof (cases "Uuid m \<in> Uuid ` set ms")
    case True
    then have "last (filter (\<lambda>m'. Uuid m' = Uuid m) ms) \<in> {m' \<in> set ms. Uuid m' = Uuid m}"
      by (rule last_with_uuid)
    then have "last (filter (\<lambda>m'. Uuid m' = Uuid m) ms) = m"
      using agree_hands [OF assms(3), of _ t] requeue by simp
    with True have get: "mget (Messages (stored_in s')) (Uuid m) = Some m"
      unfolding requeue(2) by (simp add: bulk_get)
    have hands: "hands (pcs s' t') = (if t' = t then [] else hands (pcs s t'))" for t'
      unfolding requeue(2) by simp
    have "places (Uuid m) s' = insert None (places (Uuid m) s - {Some t})"
      by (auto simp: places_def get hands split: option.splits if_splits)
    moreover have "agree m s'" using assms(3) by (auto simp: agree_def get hands)
    moreover have "Some t \<in> places (Uuid m) s" using True requeue(3) by (simp add: places_Some)
    ultimately show ?thesis by (intro moved) (simp_all add: requeue(1))
  next
    case False
    then have "filter (\<lambda>m'. Uuid m' = Uuid m) ms = []" by (rule none_with_uuid)
    with False show ?thesis using requeue assms by (intro stays) (auto simp: bulk_get)
  qed
next
  case (scan t req r now io N cs)
  with assms show ?thesis by (intro stays) auto
next
  case (clear t req now cs io err)
  show ?thesis
  proof (cases "err")
    case (Some e)
    with clear assms show ?thesis by (intro stays) (auto simp: receive_clear_def)
  next
    case None
    note M = consumer_okD [OF soundD(1) [OF assms(2)]]
    have cs: "cs = map contentOf (filter (\<lambda>e. alive now (snd e)) (Messages (stored_in s)))"
      using soundD(5) [OF assms(2) clear(3)] by simp
    show ?thesis
    proof (cases "mget (Messages (stored_in s)) (Uuid m)")
      case (Some m')
      then have at: "(Uuid m, m) \<in> set (Messages (stored_in s))" "mget (Messages (stored_in s)) (Uuid m) = Some m"
        using assms(3) by (auto simp: agree_def dest: mget_Some_in)
      then have "delivers m l \<or> expires m l" using clear None cs by auto
      moreover have "places (Uuid m) s' = places (Uuid m) s - {None}" "agree m s'"
        using clear None assms(3) by (auto simp: places_def agree_def receive_clear_def split: option.splits if_splits)
      moreover have "None \<in> places (Uuid m) s" using at by (simp add: places_None)
      ultimately show ?thesis by (intro removed) simp_all
    next
      case no: None
      then have "Uuid m \<notin> fst ` set (Messages (stored_in s))" by (simp add: mget_None_iff)
      then have "\<not> delivers m l" using clear None cs by (force dest: content_of_uuid)
      with no None show ?thesis using clear assms by (intro stays) (auto simp: receive_clear_def)
    qed
  qed
next
  case (fetch t req f c io err)
  note F = fetch_messages [OF fetch(6) soundD(1) [OF assms(2)] fetch(5)]
  show ?thesis
    using fetch assms F mget_alive [OF consumer_okD(1) [OF soundD(1) [OF assms(2)]]]
    by (intro filtered_moves [where now = "clock env (clockn (ios s t))"]) auto
next
  case (gc now)
  then show ?thesis
    using assms gc_consumer_eq [OF soundD(1) [OF assms(2)], of now] mget_alive [OF consumer_okD(1) [OF soundD(1) [OF assms(2)]]]
    by (intro filtered_moves [where now = now]) auto
next
  case (announce t c io err)
  with assms notify_same_messages [OF announce(4)] show ?thesis by (intro stays) auto
qed

section \<open>Properties\<close>

lemma put_unfolds: "concat (map f (tr @ [l])) = [] \<longleftrightarrow> concat (map f tr) = [] \<and> f l = []"
  by simp

lemma section_step_put:
  assumes "section_step env s (Put m) s'" and "sound s" and "places (Uuid m) s = {}"
  shows "places (Uuid m) s' = {None} \<and> agree m s'"
  using assms
proof (cases rule: section_step.cases)
  case (store t c)
  from assms(3) have hands: "\<forall>t. Uuid m \<notin> Uuid ` set (hands (pcs s t))" by (auto simp flip: places_Some)
  then have empty: "Uuid m \<notin> Uuid ` set (hands (pcs s' t'))" for t'
    unfolding store(1) by simp
  have get: "mget (Messages (stored_in s')) (Uuid m) = Some m"
    using store(1,4) by (auto simp: queue_store_def Let_def split: if_splits)
  have "p \<in> places (Uuid m) s' \<longleftrightarrow> p = None" for p
    using empty get by (cases p) (simp_all add: places_None places_Some)
  moreover have "agree m s'"
    unfolding agree_def get using empty by (metis image_eqI insertI1 insertI2)
  ultimately show ?thesis by blast
qed (auto split: if_splits)

definition accounted :: "MmtpMessage \<Rightarrow> label list \<Rightarrow> Shared \<Rightarrow> bool" where
  "accounted m tr s \<longleftrightarrow>
     (\<exists>p. places (Uuid m) s = {p}) \<and> deliveries m tr = 0
     \<or> places (Uuid m) s = {} \<and> (deliveries m tr = 1 \<or> deliveries m tr = 0 \<and> (\<exists>l \<in> set tr. expires m l))"

lemma accounted_step:
  assumes "accounted m tr s" and "moves m s l s'"
  shows "accounted m (tr @ [l]) s'"
  using assms by (cases "delivers m l") (auto simp: accounted_def moves_def deliveries_def)

lemma puts_one:
  "concat (map f (tr @ [l])) = [m] \<longleftrightarrow>
   concat (map f tr) = [m] \<and> f l = [] \<or> concat (map f tr) = [] \<and> f l = [m]"
  by (auto simp: append_eq_Cons_conv)

lemma put_underD: "put_under k l = [m] \<Longrightarrow> l = Put m \<and> Uuid m = k"
  by (cases "(k, l)" rule: put_under.cases) (auto split: if_splits)

lemma section_run_accounted:
  assumes "section_run env tr s" and "\<forall>m. Put m \<in> set tr \<longrightarrow> storable m"
  shows "(concat (map (put_under (Uuid m)) tr) = [] \<longrightarrow> places (Uuid m) s = {} \<and> agree m s \<and> deliveries m tr = 0)
    \<and> (concat (map (put_under (Uuid m)) tr) = [m] \<longrightarrow> agree m s \<and> accounted m tr s)"
  using assms
proof (induction rule: section_run.induct)
  case (fresh s)
  then show ?case by (auto simp: places_def agree_def deliveries_def split: option.splits)
next
  case (step tr s l s')
  have snd: "sound s" using section_run_sound [OF step.hyps(1)] step.prems by simp
  have IH: "concat (map (put_under (Uuid m)) tr) = [] \<Longrightarrow> places (Uuid m) s = {} \<and> agree m s \<and> deliveries m tr = 0"
    "concat (map (put_under (Uuid m)) tr) = [m] \<Longrightarrow> agree m s \<and> accounted m tr s"
    using step.IH step.prems by simp_all
  have moves: "agree m s \<Longrightarrow> put_under (Uuid m) l = [] \<Longrightarrow> moves m s l s'"
    by (rule section_step_moves [OF step.hyps(2) snd])
  show ?case
  proof (intro conjI impI)
    assume "concat (map (put_under (Uuid m)) (tr @ [l])) = []"
    with IH(1) moves show "places (Uuid m) s' = {}" "agree m s'" "deliveries m (tr @ [l]) = 0"
      by (auto simp: moves_def deliveries_def)
  next
    assume "concat (map (put_under (Uuid m)) (tr @ [l])) = [m]"
    then consider "concat (map (put_under (Uuid m)) tr) = [m]" "put_under (Uuid m) l = []"
      | "concat (map (put_under (Uuid m)) tr) = []" "l = Put m" using puts_one put_underD by metis
    then have "agree m s' \<and> accounted m (tr @ [l]) s'"
    proof cases
      case 1
      with IH(2) moves have "accounted m tr s" "moves m s l s'" by simp_all
      with accounted_step show ?thesis by (auto simp: moves_def)
    next
      case 2
      with IH(1) section_step_put [of env s m s'] step.hyps(2) snd
      show ?thesis by (auto simp: accounted_def deliveries_def)
    qed
    then show "agree m s'" "accounted m (tr @ [l]) s'" by simp_all
  qed
qed

text \<open>A connection on which every write succeeds.\<close>

definition writable :: "Env \<Rightarrow> Io \<Rightarrow> bool" where
  "writable env io \<longleftrightarrow> (\<forall>x. marshal env x \<noteq> None) \<and> (\<exists>w. ws io = Some w \<and> (\<forall>n. \<not> writeFails w n))"

lemma writable_write: "writable env io \<Longrightarrow> \<exists>io'. write_io env io m = (io', None) \<and> writable env io'"
proof -
  assume "writable env io"
  then obtain b w where "marshal env m = Some b" "ws io = Some w" "\<forall>n. \<not> writeFails w n" "\<forall>x. marshal env x \<noteq> None"
    unfolding writable_def by blast
  then show ?thesis by (simp add: writable_def write_io_def WriteMessage_def Let_def)
qed

lemma writable_uuid [simp]: "writable env (io\<lparr>uuidn := n\<rparr>) = writable env io"
  by (simp add: writable_def)

lemma writable_respond: "writable env io \<Longrightarrow> \<exists>io'. respond env io r = (io', None) \<and> writable env io'"
  using writable_write [of env "io\<lparr>uuidn := Suc (uuidn io)\<rparr>"] by (simp add: respond_def NewString_def)

lemma writable_notify:
  "writable env io \<Longrightarrow> \<exists>io'. notify env c io = (c\<lparr>Notifications := []\<rparr>, io', None)"
proof -
  assume w: "writable env io"
  obtain c' io' err where n: "notify env c io = (c', io', err)" by (cases "notify env c io")
  moreover have "err = None"
    using n writable_write [of env "io\<lparr>uuidn := Suc (uuidn io)\<rparr>"] w
    by (auto simp: notify_def NewString_def Let_def split: prod.splits option.splits) (metis option.distinct(1) prod.inject)+
  ultimately show ?thesis using notify_state [OF n] by auto
qed

text \<open>
  C6: a queued message is never lost and never delivered twice, however the goroutines that share
  the consumer interleave between the sections of QueueMessage and Receive: if the run stored it
  once under its UUID, it is either in exactly one place, in the store or with one Receive that has
  taken it, and was not delivered, or it is gone, and it was then delivered by exactly one answer or
  had expired.
\<close>

theorem queued_message_exactly_once:
  assumes "section_run env tr s" and "\<forall>m'. Put m' \<in> set tr \<longrightarrow> storable m'"
    and "concat (map (put_under (Uuid m)) tr) = [m]"
  shows "(mget (Messages (stored_in s)) (Uuid m) \<in> {None, Some m}
          \<and> (\<forall>t. \<forall>m' \<in> set (hands (pcs s t)). Uuid m' = Uuid m \<longrightarrow> m' = m))
    \<and> ((\<exists>p. places (Uuid m) s = {p}) \<and> deliveries m tr = 0
       \<or> places (Uuid m) s = {} \<and> (deliveries m tr = 1 \<or> deliveries m tr = 0 \<and> (\<exists>l \<in> set tr. expires m l)))"
  using section_run_accounted [OF assms(1,2), of m] assms(3) unfolding agree_def accounted_def by blast

definition idle :: "Io \<Rightarrow> Shared" where
  "idle io = \<lparr>stored_in = new_consumer ''a'', msgMu = None, pcs = (\<lambda>_. Idle), ios = (\<lambda>_. io)\<rparr>"

lemma idle_run: "section_run env [] (idle io)"
  by (rule section_run.fresh) (simp_all add: idle_def new_consumer_def)

lemma sample_receive_asks:
  "GetReceiveMessage (GetProtocolMessage (Some (sample_receive (Some us)))) = Some \<lparr>Receive_Filter = Some \<lparr>MessageUuids = Some us\<rparr>\<rparr>"
  "GetMessageUuids (GetFilter (Some \<lparr>Receive_Filter = Some \<lparr>MessageUuids = Some us\<rparr>\<rparr>)) = Some us"
  by (simp_all add: sample_receive_def)

lemma late_notification:
  assumes "Uuid m \<noteq> ''''" and "writable env io"
  shows "\<exists>s. section_run env [Put m, Internal, Deliver [contentOf (Uuid m, m)], Internal, Announce [(Uuid m, m)]] s
    \<and> places (Uuid m) s = {}"
proof -
  let ?u = "Uuid m" and ?c = "new_consumer ''a''" and ?req = "sample_receive (Some [Uuid m])"
  let ?c1 = "?c\<lparr>Messages := [(?u, m)]\<rparr>" and ?cs = "[contentOf (?u, m)]"
  let ?s1 = "(idle io)\<lparr>stored_in := ?c1, pcs := (pcs (idle io))(0 := Queueing m)\<rparr>"
  let ?s2 = "?s1\<lparr>stored_in := ?c, msgMu := Some 1, pcs := (pcs ?s1)(1 := Answering ?req [m] ?cs)\<rparr>"
  obtain io1 where io1: "receive_answer env ?req ?cs (ios ?s2 1) = (io1, None)" "writable env io1"
    using writable_respond [OF assms(2)] by (auto simp: receive_answer_def idle_def)
  let ?s3 = "?s2\<lparr>ios := (ios ?s2)(1 := io1), msgMu := None, pcs := (pcs ?s2)(1 := Idle)\<rparr>"
  let ?s4 = "?s3\<lparr>stored_in := queue_notification m (stored_in ?s3), pcs := (pcs ?s3)(0 := Idle)\<rparr>"
  obtain c io2 where n: "notify env (stored_in ?s4) (ios ?s4 1) = (c, io2, None)" "Messages c = Messages (stored_in ?s4)"
    using writable_notify [OF io1(2), of "stored_in ?s4"] by auto
  let ?s5 = "?s4\<lparr>stored_in := c, ios := (ios ?s4)(1 := io2)\<rparr>"
  have N: "Notifications (stored_in ?s4) = [(?u, m)]" by (simp add: queue_notification_def new_consumer_def mput_def)
  have "queue_store m (stored_in (idle io)) = Inr ?c1"
    using assms(1) by (simp add: idle_def queue_store_def new_consumer_def mput_def)
  then have "section_run env ([] @ [Put m]) ?s1"
    by (rule section_run.step [OF idle_run section_step.store, rotated 2]) (simp_all add: idle_def)
  moreover have took: "receive_take [?u] (stored_in ?s1) = (?c, [m], ?cs)"
    by (simp add: receive_take_def new_consumer_def contentOf_def mdel_def)
  moreover note asked = sample_receive_asks [of "[?u]"]
  ultimately have "section_run env (([] @ [Put m]) @ [Internal]) ?s2"
    by (intro section_run.step [OF _ section_step.take [OF _ _ asked took]]) (simp_all add: idle_def)
  then have "section_run env ((([] @ [Put m]) @ [Internal]) @ [Deliver ?cs]) ?s3"
    by (rule section_run.step [OF _ section_step.answered [OF _ io1(1)]]) simp
  then have "section_run env (((([] @ [Put m]) @ [Internal]) @ [Deliver ?cs]) @ [Internal]) ?s4"
    by (rule section_run.step [OF _ section_step.notification]) simp
  from section_run.step [OF this section_step.announce [OF _ n(1)]] N
  have "section_run env [Put m, Internal, Deliver ?cs, Internal, Announce [(?u, m)]] ?s5" by simp
  moreover have "places ?u ?s5 = {}"
    using n(2) by (auto simp: places_def idle_def new_consumer_def queue_notification_def split: option.splits if_splits)
  ultimately show ?thesis by blast
qed

text \<open>
  A message can be announced after it has been delivered: a Receive that comes between the two
  sections of QueueMessage takes the message and finds no notification to clear, and the
  notification that QueueMessage leaves afterwards names a message that is in no place any more.
\<close>

lemma delivered_message_announced:
  assumes "Uuid m \<noteq> ''''" and "writable env io"
  shows "\<exists>s. section_run env [Put m, Internal, Deliver [contentOf (Uuid m, m)], Internal, Announce [(Uuid m, m)]] s
    \<and> places (Uuid m) s = {}"
  using assms by (rule late_notification)

theorem queued_message_exactly_once_witness:
  "\<exists>tr s. section_run (sample_env (\<lambda>_. 10) (\<lambda>_. None)) tr s
     \<and> places ''m'' s = {} \<and> (deliveries (sample_msg ''m'' ''s'' 20) tr = 1 \<or> (\<exists>l \<in> set tr. expires (sample_msg ''m'' ''s'' 20) l))"
proof -
  let ?m = "sample_msg ''m'' ''s'' 20" and ?env = "sample_env (\<lambda>_. 10) (\<lambda>_. None)"
  let ?tr = "[Put ?m, Internal, Deliver [contentOf (''m'', ?m)], Internal, Announce [(''m'', ?m)]]"
  obtain s where run: "section_run ?env ?tr s" "places ''m'' s = {}"
    using late_notification [of ?m ?env "sample_io [] (\<lambda>_. False)"] by (auto simp: writable_def sample_defs)
  have "storable ?m" by (simp add: storable_def)
  then have "deliveries ?m ?tr = 1 \<or> (\<exists>l \<in> set ?tr. expires ?m l)"
    using queued_message_exactly_once [OF run(1), of ?m] run(2) by auto
  with run show ?thesis by blast
qed

end
