(* ===== verification/Listen.thy ===== *)
theory Listen
  imports EdgeRouter MmsRouter
begin

text \<open>
  The HTTP listeners of the two programs: with which TLS configuration they accept connections
  (NewEdgeRouter, NewMMSRouter, the first goroutine of StartEdgeRouter and StartRouter), and what
  crypto/tls makes of it, up to the request that the connection handlers authenticate.
\<close>

section \<open>Configurations\<close>

text \<open>
  The fields of \<open>tls.Config\<close> that decide which clients get in. The hooks get the state of the
  revocation services, which holds the clock (in nanoseconds). \<open>VerifyConnection\<close> is nil in both
  programs; it is the hook that crypto/tls would call for resumed sessions too.
\<close>

datatype ClientAuthType = VerifyClientCertIfGiven | RequireAndVerifyClientCert

datatype TlsVersion = VersionTLS10 | VersionTLS11 | VersionTLS12 | VersionTLS13

fun version_number :: "TlsVersion \<Rightarrow> nat" where
  "version_number VersionTLS10 = 0x0301"
| "version_number VersionTLS11 = 0x0302"
| "version_number VersionTLS12 = 0x0303"
| "version_number VersionTLS13 = 0x0304"

record 'pool TlsConfig =
  ClientAuth :: ClientAuthType
  ClientCAs :: "'pool option"
  MinVersion :: TlsVersion
  VerifyPeerCertificate :: "RevEnv \<Rightarrow> bytes list \<Rightarrow> Certificate list list \<Rightarrow> (unit, error option) result"
  VerifyConnection ::
    "(RevEnv \<Rightarrow> Certificate list \<Rightarrow> Certificate list list \<Rightarrow> (unit, error option) result) option"

definition edge_tls_config :: "'pool KeyEnv \<Rightarrow> string \<Rightarrow> bool \<Rightarrow> error + 'pool TlsConfig" where
  "edge_tls_config ke clientCAs skipRevocationCheck =
     (case LoadCertPool ke clientCAs of
        Inl err \<Rightarrow> Inl err
      | Inr clientCaPool \<Rightarrow>
          Inr \<lparr>ClientAuth = VerifyClientCertIfGiven, ClientCAs = clientCaPool, MinVersion = VersionTLS12,
               VerifyPeerCertificate = (\<lambda>rv. verifyAgentCertificate rv skipRevocationCheck),
               VerifyConnection = None\<rparr>)"

definition router_tls_config :: "'pool KeyEnv \<Rightarrow> string \<Rightarrow> bool \<Rightarrow> error + 'pool TlsConfig" where
  "router_tls_config ke clientCAs skipRevocationCheck =
     (case LoadCertPool ke clientCAs of
        Inl err \<Rightarrow> Inl err
      | Inr clientCaPool \<Rightarrow>
          Inr \<lparr>ClientAuth = RequireAndVerifyClientCert, ClientCAs = clientCaPool, MinVersion = VersionTLS12,
               VerifyPeerCertificate = (\<lambda>rv. verifyEdgeRouterCertificate rv skipRevocationCheck),
               VerifyConnection = None\<rparr>)"

text \<open>
  How the listener is started: over TLS only if both the certificate and its key have a path, which
  are read whenever crypto/tls asks for the certificate (\<open>keyPair\<close> says whether that succeeds).
\<close>

datatype 'pool listener = Plain | Tls "'pool TlsConfig" bool

definition edge_listener :: "'pool TlsConfig \<Rightarrow> (string \<Rightarrow> string \<Rightarrow> bool) \<Rightarrow> string \<Rightarrow> string \<Rightarrow> 'pool listener" where
  "edge_listener cfg keyPair certPath certKeyPath =
     (if certPath \<noteq> '''' \<and> certKeyPath \<noteq> '''' then Tls cfg (keyPair certPath certKeyPath) else Plain)"

definition router_listener :: "'pool TlsConfig \<Rightarrow> (string \<Rightarrow> string \<Rightarrow> bool) \<Rightarrow> string \<Rightarrow> string \<Rightarrow> 'pool listener" where
  "router_listener cfg keyPair certPath certKeyPath =
     (if certPath \<noteq> '''' \<and> certKeyPath \<noteq> '''' then Tls cfg (keyPair certPath certKeyPath) else Plain)"

section \<open>Handshakes\<close>

text \<open>
  What crypto/tls takes from crypto/x509: \<open>Certificate.Verify\<close> at a time, which gives the chains
  from the first of the presented certificates to a certificate of the pool (of the system when it
  is nil) or an error; the end of the validity of a certificate; and whether all certificates of a
  chain are still valid at a time and the chain still ends in the pool. What the programs rely on is
  that a successful \<open>Verify\<close> gives a chain and that chains start with the presented certificate.
\<close>

record 'pool X509 =
  x509Verify :: "int \<Rightarrow> 'pool option \<Rightarrow> Certificate list \<Rightarrow> Certificate list list option"
  x509NotAfter :: "Certificate \<Rightarrow> int"
  x509ChainValid :: "int \<Rightarrow> 'pool option \<Rightarrow> Certificate list \<Rightarrow> bool"

definition verifier_ok :: "'pool X509 \<Rightarrow> bool" where
  "verifier_ok x \<longleftrightarrow>
     (\<forall>now pool cert certs vchains. x509Verify x now pool (cert # certs) = Some vchains \<longrightarrow>
        vchains \<noteq> [] \<and> (\<forall>chain \<in> set vchains. chain \<noteq> [] \<and> hd chain = cert))"

definition connection_verified ::
    "'pool TlsConfig \<Rightarrow> RevEnv \<Rightarrow> Certificate list \<Rightarrow> Certificate list list \<Rightarrow> bool" where
  "connection_verified cfg rv certs vchains =
     (case VerifyConnection cfg of None \<Rightarrow> True | Some hook \<Rightarrow> hook rv certs vchains = Return () None)"

text \<open>
  A full handshake of crypto/tls: below the least version it fails; without a certificate it fails
  if one is required; presented certificates are verified; then the two hooks decide. The result
  is \<open>PeerCertificates\<close> and \<open>VerifiedChains\<close>.
\<close>

definition full_handshake ::
    "'pool X509 \<Rightarrow> 'pool TlsConfig \<Rightarrow> RevEnv \<Rightarrow> TlsVersion \<Rightarrow> Certificate list
       \<Rightarrow> (Certificate list \<times> Certificate list list) option" where
  "full_handshake x cfg rv v certs =
     (if version_number v < version_number (MinVersion cfg) then None
      else if certs = [] \<and> ClientAuth cfg = RequireAndVerifyClientCert then None
      else (case (if certs = [] then Some [] else x509Verify x (revNow rv) (ClientCAs cfg) certs) of
              None \<Rightarrow> None
            | Some vchains \<Rightarrow>
                (case VerifyPeerCertificate cfg rv (map RawDer certs) vchains of
                   Return _ None \<Rightarrow> if connection_verified cfg rv certs vchains then Some (certs, vchains) else None
                 | _ \<Rightarrow> None)))"

text \<open>
  A session ticket holds the version, the second in which the session was made, and the
  certificates with their chains. crypto/tls takes a ticket back for seven days, and only while the
  client certificate and one of its chains are valid; it calls \<open>VerifyConnection\<close> again, but not
  \<open>VerifyPeerCertificate\<close>, and resumes no session without a client certificate where one is required.
\<close>

record Ticket =
  tkVersion :: TlsVersion
  tkCreated :: int
  tkCerts :: "Certificate list"
  tkChains :: "Certificate list list"

definition maxSessionTicketLifetime :: int where
  "maxSessionTicketLifetime = 7 * 24 * 60 * 60 * 10 ^ 9"

definition resumable :: "'pool X509 \<Rightarrow> 'pool TlsConfig \<Rightarrow> RevEnv \<Rightarrow> TlsVersion \<Rightarrow> Ticket \<Rightarrow> bool" where
  "resumable x cfg rv v t \<longleftrightarrow>
     v = tkVersion t \<and> version_number (MinVersion cfg) \<le> version_number v
     \<and> revNow rv - tkCreated t * 10 ^ 9 \<le> maxSessionTicketLifetime
     \<and> (case tkCerts t of
          [] \<Rightarrow> ClientAuth cfg \<noteq> RequireAndVerifyClientCert
        | c # _ \<Rightarrow> revNow rv \<le> x509NotAfter x c
                   \<and> list_ex (x509ChainValid x (revNow rv) (ClientCAs cfg)) (tkChains t))
     \<and> connection_verified cfg rv (tkCerts t) (tkChains t)"

text \<open>
  A client opens a connection without TLS, with a full handshake, or by resuming a session of which
  it holds the ticket. The result is the request the handlers see and the ticket of the connection.
  The certificate of the listener is needed for a full handshake, and before TLS 1.3 also to resume;
  a resumed session of TLS 1.3 gets a new time, an older one keeps that of its first handshake.
\<close>

datatype hello = NoTls | FullHandshake TlsVersion "Certificate list" | Resumption TlsVersion nat

definition accept_hello ::
    "'pool X509 \<Rightarrow> 'pool listener \<Rightarrow> RevEnv \<Rightarrow> Ticket list \<Rightarrow> hello \<Rightarrow> (Request \<times> Ticket option) option" where
  "accept_hello x lst rv tickets h =
     (case lst of
        Plain \<Rightarrow> (if h = NoTls then Some (\<lparr>PeerCertificates = None\<rparr>, None) else None)
      | Tls cfg keyPair \<Rightarrow>
          (case h of
             NoTls \<Rightarrow> None
           | FullHandshake v certs \<Rightarrow>
               if \<not> keyPair then None
               else map_option (\<lambda>(cs, vchains).
                      (\<lparr>PeerCertificates = Some cs\<rparr>,
                       Some \<lparr>tkVersion = v, tkCreated = revNow rv div 10 ^ 9, tkCerts = cs, tkChains = vchains\<rparr>))
                      (full_handshake x cfg rv v certs)
           | Resumption v i \<Rightarrow>
               if i < length tickets \<and> resumable x cfg rv v (tickets ! i) \<and> (keyPair \<or> v = VersionTLS13)
               then Some (\<lparr>PeerCertificates = Some (tkCerts (tickets ! i))\<rparr>,
                          Some (if v = VersionTLS13 then (tickets ! i)\<lparr>tkCreated := revNow rv div 10 ^ 9\<rparr>
                                else tickets ! i))
               else None))"

text \<open>The tickets given out by the connections so far, each with the state of the revocation services at its time.\<close>

fun tickets_after :: "'pool X509 \<Rightarrow> 'pool listener \<Rightarrow> (RevEnv \<times> hello) list \<Rightarrow> Ticket list" where
  "tickets_after x lst [] = []"
| "tickets_after x lst ((rv, h) # hist) =
     (let tickets = tickets_after x lst hist
      in case accept_hello x lst rv tickets h of
           Some (req, Some t) \<Rightarrow> tickets @ [t]
         | _ \<Rightarrow> tickets)"

section \<open>Facts\<close>

text \<open>What a certificate with its issuer has to pass.\<close>

definition passes_revocation :: "RevEnv \<Rightarrow> bool \<Rightarrow> Certificate \<Rightarrow> Certificate \<Rightarrow> bool" where
  "passes_revocation rv skip c i \<longleftrightarrow>
     (if OCSPServer c \<noteq> [] then ocsp_good rv c i
      else if CRLDistributionPoints c \<noteq> [] then crl_good rv c i else skip)"

text \<open>
  What both configurations have in common: they verify against the pool, ask for TLS 1.2, and the
  callback lets no presented certificate through that does not pass.
\<close>

definition vets :: "bool \<Rightarrow> 'pool option \<Rightarrow> 'pool TlsConfig \<Rightarrow> bool" where
  "vets skip pool cfg \<longleftrightarrow>
     ClientCAs cfg = pool \<and> MinVersion cfg = VersionTLS12 \<and>
     (\<forall>rv raw vchains. raw \<noteq> [] \<longrightarrow> vchains \<noteq> [] \<longrightarrow>
        VerifyPeerCertificate cfg rv raw vchains = Return () None \<longrightarrow>
        (\<exists>c i rest. hd vchains = c # i # rest \<and> passes_revocation rv skip c i))"

lemma agent_callback_passes:
  "raw \<noteq> [] \<Longrightarrow> vchains \<noteq> [] \<Longrightarrow> verifyAgentCertificate rv skip raw vchains = Return () None \<Longrightarrow>
   \<exists>c i rest. hd vchains = c # i # rest \<and> passes_revocation rv skip c i"
  unfolding passes_revocation_def using certificate_callbacks [of rv skip raw vchains] by blast

lemma router_callback_agrees:
  "raw \<noteq> [] \<Longrightarrow> vchains \<noteq> [] \<Longrightarrow>
   verifyEdgeRouterCertificate rv skip raw vchains = verifyAgentCertificate rv skip raw vchains"
  using certificate_callbacks [of rv skip raw vchains] by blast

lemma edge_vets:
  "edge_tls_config ke cas skip = Inr cfg \<Longrightarrow> \<exists>pool. LoadCertPool ke cas = Inr pool \<and> vets skip pool cfg"
  by (auto simp: edge_tls_config_def vets_def dest: agent_callback_passes split: sum.splits)

lemma router_vets:
  "router_tls_config ke cas skip = Inr cfg \<Longrightarrow> \<exists>pool. LoadCertPool ke cas = Inr pool \<and> vets skip pool cfg"
  by (clarsimp simp: router_tls_config_def vets_def router_callback_agrees split: sum.splits)
    (drule (2) agent_callback_passes, blast)

text \<open>A certificate that was presented, verified against the pool and found good in one of these connections.\<close>

definition vetted :: "'pool X509 \<Rightarrow> 'pool option \<Rightarrow> bool \<Rightarrow> (RevEnv \<times> hello) list \<Rightarrow> Certificate list \<Rightarrow> bool" where
  "vetted x pool skip hist certs \<longleftrightarrow>
     (\<exists>rv v i rest vchains. (rv, FullHandshake v certs) \<in> set hist \<and> (v = VersionTLS12 \<or> v = VersionTLS13)
        \<and> x509Verify x (revNow rv) pool certs = Some vchains
        \<and> hd vchains = hd certs # i # rest \<and> passes_revocation rv skip (hd certs) i)"

lemma version_at_least_12: "version_number VersionTLS12 \<le> version_number v \<longleftrightarrow> v = VersionTLS12 \<or> v = VersionTLS13"
  by (cases v) auto

lemma full_handshake_vets:
  assumes "full_handshake x cfg rv v certs = Some (cs, vchains)" and "verifier_ok x"
    and "vets skip pool cfg" and "cs \<noteq> []"
  shows "cs = certs \<and> vetted x pool skip ((rv, FullHandshake v certs) # hist) certs"
proof -
  from assms(1) have v: "version_number (MinVersion cfg) \<le> version_number v"
    by (simp add: full_handshake_def split: if_splits)
  from assms(1,4) have cs: "cs = certs" and ne: "certs \<noteq> []"
    by (auto simp: full_handshake_def split: if_splits option.splits result.splits)
  with assms(1) have vchains: "x509Verify x (revNow rv) (ClientCAs cfg) certs = Some vchains"
    and cb: "\<exists>u. VerifyPeerCertificate cfg rv (map RawDer certs) vchains = Return u None"
    by (auto simp: full_handshake_def split: if_splits option.splits result.splits)
  obtain cert rest' where certs: "certs = cert # rest'" using ne by (cases certs) auto
  with assms(2) vchains have "vchains \<noteq> []" "hd (hd vchains) = cert"
    by (auto simp: verifier_ok_def)
  with assms(3) cb certs obtain c i rest where
    "hd vchains = c # i # rest" "passes_revocation rv skip c i"
    unfolding vets_def by (metis (full_types) list.map_disc_iff ne old.unit.exhaust)
  moreover have "v = VersionTLS12 \<or> v = VersionTLS13" "ClientCAs cfg = pool"
    using v assms(3) version_at_least_12 by (metis vets_def)+
  ultimately have "vetted x pool skip ((rv, FullHandshake v certs) # hist) certs"
    using \<open>hd (hd vchains) = cert\<close> vchains certs unfolding vetted_def
    by (intro exI [of _ rv] exI [of _ v] exI [of _ i] exI [of _ rest] exI [of _ vchains]) auto
  with cs show ?thesis by simp
qed

lemma accept_full:
  "accept_hello x (Tls cfg kp) rv ts (FullHandshake v certs) = Some (req, tk) \<longleftrightarrow>
     (\<exists>cs vchains. kp \<and> full_handshake x cfg rv v certs = Some (cs, vchains) \<and> req = \<lparr>PeerCertificates = Some cs\<rparr>
        \<and> tk = Some \<lparr>tkVersion = v, tkCreated = revNow rv div 10 ^ 9, tkCerts = cs, tkChains = vchains\<rparr>)"
  by (auto simp: accept_hello_def)

lemma accept_resumed:
  "accept_hello x (Tls cfg kp) rv ts (Resumption v i) = Some (req, tk) \<Longrightarrow>
   \<exists>t. t \<in> set ts \<and> PeerCertificates req = Some (tkCerts t) \<and> (\<exists>t'. tk = Some t' \<and> tkCerts t' = tkCerts t)"
  by (rule exI [of _ "ts ! i"]) (auto simp: accept_hello_def split: if_splits)

lemma accept_ticket:
  "accept_hello x (Tls cfg kp) rv ts h = Some (req, tk) \<Longrightarrow>
   \<exists>t. tk = Some t \<and> PeerCertificates req = Some (tkCerts t)"
  by (auto simp: accept_hello_def split: if_splits hello.splits)

lemma tickets_vetted:
  assumes "verifier_ok x" and "vets skip pool cfg"
  shows "\<forall>t \<in> set (tickets_after x (Tls cfg kp) hist). tkCerts t = [] \<or> vetted x pool skip hist (tkCerts t)"
proof (induction hist)
  case (Cons y hist)
  obtain rv h where y: "y = (rv, h)" by (cases y)
  let ?ts = "tickets_after x (Tls cfg kp) hist"
  have mono: "vetted x pool skip hist cs \<Longrightarrow> vetted x pool skip (y # hist) cs" for cs
    unfolding vetted_def list.set(2) by blast
  have "tkCerts t = [] \<or> vetted x pool skip (y # hist) (tkCerts t)"
    if acc: "accept_hello x (Tls cfg kp) rv ?ts h = Some (req, Some t)" for req t
  proof (cases h)
    case (FullHandshake v certs)
    with acc obtain vchains where "full_handshake x cfg rv v certs = Some (tkCerts t, vchains)"
      by (auto simp: accept_full)
    from full_handshake_vets [OF this assms] FullHandshake y show ?thesis by metis
  next
    case (Resumption v i)
    from accept_resumed [OF acc [unfolded Resumption]] Cons mono show ?thesis by auto
  qed (use acc in \<open>simp add: accept_hello_def\<close>)
  with Cons mono show ?case by (auto simp: y Let_def split: option.splits)
qed simp

lemma accepted_vetted:
  assumes "verifier_ok x" and "vets skip pool cfg"
    and "accept_hello x (Tls cfg kp) rv (tickets_after x (Tls cfg kp) hist) h = Some (req, tk)"
    and "PeerCertificates req = Some (c # cs)"
  shows "vetted x pool skip ((rv, h) # hist) (c # cs)"
  using tickets_vetted [OF assms(1,2), of kp "(rv, h) # hist"] accept_ticket [OF assms(3)] assms(3,4)
  by (auto simp: Let_def)

section \<open>Properties\<close>

lemma AuthenticateConsumer_algorithm:
  "AuthenticateConsumer req mrn = (alg, auth, err) \<Longrightarrow> alg \<noteq> UnknownSignatureAlgorithm \<Longrightarrow> auth"
  by (auto simp: AuthenticateConsumer_def split: option.splits list.splits sum.splits if_splits)

lemma plain_or_tls:
  "accept_hello x (edge_listener cfg keyPair cert key) rv ts h = Some (req, tk) \<Longrightarrow>
   PeerCertificates req = Some cs \<Longrightarrow>
   edge_listener cfg keyPair cert key = Tls cfg (keyPair cert key) \<and> cert \<noteq> '''' \<and> key \<noteq> ''''"
  "accept_hello x (router_listener cfg keyPair cert key) rv ts h = Some (req, tk) \<Longrightarrow>
   PeerCertificates req = Some cs \<Longrightarrow>
   router_listener cfg keyPair cert key = Tls cfg (keyPair cert key) \<and> cert \<noteq> '''' \<and> key \<noteq> ''''"
  by (auto simp: edge_listener_def router_listener_def accept_hello_def split: if_splits)

text \<open>
  C10: a session of the edge router that gets a signature algorithm, without which it cannot send,
  runs over TLS, and its client certificate was presented in a full handshake of TLS 1.2 or 1.3, of
  this connection or an earlier one, was verified then against the pool loaded from the
  configured client CAs, and passed the revocation check then: the OCSP check if it names a server,
  else the CRL check if it names a list, else only if such certificates are let through. Its UID
  attributes agree with the MRN of the Connect message.
\<close>

theorem sender_certificate_vetted:
  assumes "edge_tls_config ke clientCAs skip = Inr cfg"
    and "lst = edge_listener cfg keyPair certPath certKeyPath"
    and "accept_hello x lst rv (tickets_after x lst hist) h = Some (req, tk)"
    and "connect_agent env req (er, io) = ((er', io'), Some (a, alg))"
    and "alg \<noteq> UnknownSignatureAlgorithm" and "verifier_ok x"
  shows "\<exists>c cs w m n conn pool. PeerCertificates req = Some (c # cs) \<and> certPath \<noteq> '''' \<and> certKeyPath \<noteq> ''''
    \<and> LoadCertPool ke clientCAs = Inr pool \<and> vetted x pool skip ((rv, h) # hist) (c # cs)
    \<and> ReadMessage env (ws io) = (w, Inr (m, n)) \<and> GetConnectMessage (GetProtocolMessage (Some m)) = Some conn
    \<and> (\<forall>s \<in> uid_values c. EqualFold s (ToLower (GetOwnMrn (Some conn))))"
proof -
  obtain w m n conn auth where rd: "ReadMessage env (ws io) = (w, Inr (m, n))"
      "GetConnectMessage (GetProtocolMessage (Some m)) = Some conn"
    and au: "AuthenticateConsumer req (ToLower (GetOwnMrn (Some conn))) = (alg, auth, None)"
    using connect_agent_run [OF assms(4)] by blast
  have auth using AuthenticateConsumer_algorithm [OF au assms(5)] .
  with au obtain c cs where c: "PeerCertificates req = Some (c # cs)"
      "\<forall>s \<in> uid_values c. EqualFold s (ToLower (GetOwnMrn (Some conn)))"
    by (auto simp: AuthenticateConsumer_True)
  note tls = plain_or_tls(1) [OF assms(3) [unfolded assms(2)] c(1)]
  obtain pool where pool: "LoadCertPool ke clientCAs = Inr pool" "vets skip pool cfg"
    using edge_vets [OF assms(1)] by blast
  have "vetted x pool skip ((rv, h) # hist) (c # cs)"
    using accepted_vetted [OF assms(6) pool(2) _ c(1)] assms(2,3) tls by simp
  with rd c tls pool(1) show ?thesis by blast
qed

text \<open>A pool with one authority, and chains that end in it.\<close>

definition sample_x509 :: "unit X509" where
  "sample_x509 =
     \<lparr>x509Verify = (\<lambda>_ pool certs. case certs of [] \<Rightarrow> None
        | c # _ \<Rightarrow> if pool = Some () then Some [[c, sample_cert None]] else None),
      x509NotAfter = (\<lambda>_. 10 ^ 18), x509ChainValid = (\<lambda>now pool _. pool = Some () \<and> now \<le> 10 ^ 18)\<rparr>"

definition ca_keys :: "unit KeyEnv" where
  "ca_keys = (sample_keys ''x'')\<lparr>appendCertsFromPEM := \<lambda>_. Some ()\<rparr>"

definition sample_cfg :: "ClientAuthType \<Rightarrow> unit TlsConfig" where
  "sample_cfg auth = \<lparr>ClientAuth = auth, ClientCAs = Some (), MinVersion = VersionTLS12,
     VerifyPeerCertificate = (\<lambda>rv. if auth = VerifyClientCertIfGiven then verifyAgentCertificate rv True
                                   else verifyEdgeRouterCertificate rv True),
     VerifyConnection = None\<rparr>"

lemma sample_x509_ok: "verifier_ok sample_x509"
  by (auto simp: verifier_ok_def sample_x509_def)

lemma sample_pool: "LoadCertPool ca_keys ''ca.pem'' = Inr (Some ())"
  by (simp add: LoadCertPool_def ca_keys_def sample_keys_def)

lemma sample_cfgs:
  "edge_tls_config ca_keys ''ca.pem'' True = Inr (sample_cfg VerifyClientCertIfGiven)"
  "router_tls_config ca_keys ''ca.pem'' True = Inr (sample_cfg RequireAndVerifyClientCert)"
  by (simp_all add: edge_tls_config_def router_tls_config_def sample_pool sample_cfg_def)

definition sample_ticket :: "Certificate \<Rightarrow> Ticket" where
  "sample_ticket c = \<lparr>tkVersion = VersionTLS13, tkCreated = 0, tkCerts = [c], tkChains = [[c, sample_cert None]]\<rparr>"

lemma sample_accept:
  "accept_hello sample_x509 (Tls (sample_cfg auth) True) (sample_rev st) [] (FullHandshake VersionTLS13 [sample_cert u])
     = Some (sample_request u, Some (sample_ticket (sample_cert u)))"
  by (cases u; cases auth)
    (simp_all add: accept_hello_def full_handshake_def connection_verified_def sample_x509_def sample_cfg_def
      sample_request_def sample_cert_def sample_ticket_def sample_rev_def
      verifyAgentCertificate_def verifyEdgeRouterCertificate_def)

theorem sender_certificate_vetted_witness:
  "vetted sample_x509 (Some ()) True
     [(sample_rev OcspGood, FullHandshake VersionTLS13 [sample_cert (Some ''urn:mrn:c'')])]
     [sample_cert (Some ''urn:mrn:c'')]"
proof -
  obtain er' io' where run: "connect_agent (con_env (Some ''urn:MRN:c'') None) (sample_request (Some ''urn:mrn:c''))
       (sample_er, sample_io [''x''] (\<lambda>_. False)) = ((er', io'), Some (2, ECDSAWithSHA256))"
    using sample_connect_new by blast
  have "edge_listener (sample_cfg VerifyClientCertIfGiven) (\<lambda>_ _. True) ''c'' ''k''
      = Tls (sample_cfg VerifyClientCertIfGiven) True" by (simp add: edge_listener_def)
  then have acc: "accept_hello sample_x509 (edge_listener (sample_cfg VerifyClientCertIfGiven) (\<lambda>_ _. True) ''c'' ''k'')
      (sample_rev OcspGood) (tickets_after sample_x509 (edge_listener (sample_cfg VerifyClientCertIfGiven) (\<lambda>_ _. True) ''c'' ''k'') [])
      (FullHandshake VersionTLS13 [sample_cert (Some ''urn:mrn:c'')])
      = Some (sample_request (Some ''urn:mrn:c''), Some (sample_ticket (sample_cert (Some ''urn:mrn:c''))))"
    by (simp add: sample_accept)
  from sender_certificate_vetted [OF sample_cfgs(1) refl acc run _ sample_x509_ok]
  show ?thesis by (auto simp: sample_request_def sample_pool)
qed

text \<open>
  C11: every session a router opens runs over TLS with such a certificate, verified against the
  pool of the router's configured client CAs, whose UID attributes agree with the MRN the edge
  router is registered under; a router that was started without the paths of its own certificate
  and key opens no session at all.
\<close>

theorem router_certificate_vetted:
  assumes "router_tls_config ke clientCAs skip = Inr cfg"
    and "lst = router_listener cfg keyPair certPath certKeyPath"
    and "accept_hello x lst rv (tickets_after x lst hist) h = Some (req, tk)"
    and "connect_R env req (r, io) = Return (r', io') (Some e)"
    and "r_reach env p2p r" and "verifier_ok x"
  shows "\<exists>c cs pool. PeerCertificates req = Some (c # cs) \<and> certPath \<noteq> '''' \<and> certKeyPath \<noteq> ''''
    \<and> LoadCertPool ke clientCAs = Inr pool \<and> vetted x pool skip ((rv, h) # hist) (c # cs)
    \<and> Mrn (erHeap r' e) \<noteq> '''' \<and> mget (edgeRouters r') (Mrn (erHeap r' e)) = Some e
    \<and> (\<forall>s \<in> uid_values c. EqualFold s (Mrn (erHeap r' e)))"
proof -
  obtain alg where au: "AuthenticateConsumer req (Mrn (erHeap r' e)) = (alg, True, None)"
    and mrn: "Mrn (erHeap r' e) \<noteq> ''''" "mget (edgeRouters r') (Mrn (erHeap r' e)) = Some e"
    using router_session_authenticated [OF assms(5,4)] by blast
  from au obtain c cs where c: "PeerCertificates req = Some (c # cs)"
      "\<forall>s \<in> uid_values c. EqualFold s (Mrn (erHeap r' e))"
    by (auto simp: AuthenticateConsumer_True)
  note tls = plain_or_tls(2) [OF assms(3) [unfolded assms(2)] c(1)]
  obtain pool where pool: "LoadCertPool ke clientCAs = Inr pool" "vets skip pool cfg"
    using router_vets [OF assms(1)] by blast
  have "vetted x pool skip ((rv, h) # hist) (c # cs)"
    using accepted_vetted [OF assms(6) pool(2) _ c(1)] assms(2,3) tls by simp
  with mrn c tls pool(1) show ?thesis by blast
qed

theorem router_certificate_vetted_witness:
  "vetted sample_x509 (Some ()) True
     [(sample_rev OcspGood, FullHandshake VersionTLS13 [sample_cert (Some ''urn:mrn:c'')])]
     [sample_cert (Some ''urn:mrn:c'')]"
proof -
  obtain r' io' where run: "connect_R (con_env (Some ''urn:mrn:c'') None) (sample_request (Some ''urn:mrn:c''))
     (NewMMSRouter, sample_io [''x''] (\<lambda>_. False)) = Return (r', io') (Some 0)" using sample_connect_R by blast
  have "router_listener (sample_cfg RequireAndVerifyClientCert) (\<lambda>_ _. True) ''c'' ''k''
      = Tls (sample_cfg RequireAndVerifyClientCert) True" by (simp add: router_listener_def)
  then have acc: "accept_hello sample_x509 (router_listener (sample_cfg RequireAndVerifyClientCert) (\<lambda>_ _. True) ''c'' ''k'')
      (sample_rev OcspGood) (tickets_after sample_x509 (router_listener (sample_cfg RequireAndVerifyClientCert) (\<lambda>_ _. True) ''c'' ''k'') [])
      (FullHandshake VersionTLS13 [sample_cert (Some ''urn:mrn:c'')])
      = Some (sample_request (Some ''urn:mrn:c''), Some (sample_ticket (sample_cert (Some ''urn:mrn:c''))))"
    by (simp add: sample_accept)
  from router_certificate_vetted [OF sample_cfgs(2) refl acc run r_reach.init [of _ sample_p2p] sample_x509_ok]
  show ?thesis by (auto simp: sample_request_def sample_pool)
qed

text \<open>
  C35: revocation ends no TLS session, because the edge router sets \<open>VerifyPeerCertificate\<close> only and
  not \<open>VerifyConnection\<close>. A client whose certificate was good in a full handshake resumes that
  session at any time within the seven days of its ticket at which the certificate and one of
  its chains have not run out, and authenticates for every MRN that its certificate is good for,
  although any full handshake with the same certificates is now refused because the certificate
  has been revoked.
\<close>

theorem revoked_certificate_resumes:
  assumes "edge_tls_config ke clientCAs skip = Inr cfg" and "verifier_ok x"
    and "accept_hello x (Tls cfg True) rv [] (FullHandshake v (c # cs)) = Some (req, tk)"
    and "\<forall>i. \<not> passes_revocation rv' skip c i"
    and "revNow rv' - revNow rv div 10 ^ 9 * 10 ^ 9 \<le> 7 * 24 * 60 * 60 * 10 ^ 9"
    and "revNow rv' \<le> x509NotAfter x c"
    and "x509Verify x (revNow rv) (ClientCAs cfg) (c # cs) = Some vchains"
    and "chain \<in> set vchains" and "x509ChainValid x (revNow rv') (ClientCAs cfg) chain"
    and "mrn \<noteq> ''''" and "getSignatureAlgorithm c = Inr alg" and "\<forall>s \<in> uid_values c. EqualFold s mrn"
  shows "(\<forall>ts v'. accept_hello x (Tls cfg True) rv' ts (FullHandshake v' (c # cs)) = None)
    \<and> (\<exists>req' tk'. accept_hello x (Tls cfg True) rv' (tickets_after x (Tls cfg True) [(rv, FullHandshake v (c # cs))])
         (Resumption v 0) = Some (req', tk')
       \<and> PeerCertificates req' = Some (c # cs) \<and> AuthenticateConsumer req' mrn = (alg, True, None))"
proof -
  obtain pool where vets: "vets skip pool cfg" using edge_vets [OF assms(1)] by blast
  have hook: "VerifyConnection cfg = None"
    using assms(1) by (auto simp: edge_tls_config_def split: sum.splits)
  have hs: "full_handshake x cfg rv v (c # cs) = Some (c # cs, vchains)"
    and v: "version_number (MinVersion cfg) \<le> version_number v"
    using assms(3,7) by (auto simp: accept_full full_handshake_def split: if_splits option.splits result.splits)
  have "accept_hello x (Tls cfg True) rv' ts (FullHandshake v' (c # cs)) = None" for ts v'
  proof (cases "full_handshake x cfg rv' v' (c # cs)")
    case (Some ds)
    then obtain ch where "full_handshake x cfg rv' v' (c # cs) = Some (c # cs, ch)"
      by (auto simp: full_handshake_def split: if_splits option.splits result.splits)
    from full_handshake_vets [OF this assms(2) vets, of "[]"] assms(4)
    show ?thesis by (auto simp: vetted_def)
  qed (simp add: accept_hello_def)
  moreover have "accept_hello x (Tls cfg True) rv []  (FullHandshake v (c # cs))
      = Some (\<lparr>PeerCertificates = Some (c # cs)\<rparr>,
          Some \<lparr>tkVersion = v, tkCreated = revNow rv div 10 ^ 9, tkCerts = c # cs, tkChains = vchains\<rparr>)"
    using hs by (simp add: accept_full)
  moreover have "AuthenticateConsumer \<lparr>PeerCertificates = Some (c # cs)\<rparr> mrn = (alg, True, None)"
    using assms(10-12) by (simp add: AuthenticateConsumer_True getSignatureAlgorithm_Inr)
  ultimately show ?thesis using v hook assms(5,6,8,9)
    by (auto simp: accept_hello_def resumable_def connection_verified_def maxSessionTicketLifetime_def list_ex_iff)
qed

theorem revoked_certificate_resumes_witness:
  "let c = (sample_cert (Some ''urn:mrn:c''))\<lparr>OCSPServer := [''http://ocsp'']\<rparr>;
       lst = Tls (sample_cfg VerifyClientCertIfGiven) True; rv = sample_rev OcspGood;
       rv' = (sample_rev OcspRevoked)\<lparr>revNow := 6 * 24 * 60 * 60 * 10 ^ 9\<rparr>
   in accept_hello sample_x509 lst rv' [] (FullHandshake VersionTLS13 [c]) = None
    \<and> (\<exists>req' tk'. accept_hello sample_x509 lst rv' (tickets_after sample_x509 lst [(rv, FullHandshake VersionTLS13 [c])])
         (Resumption VersionTLS13 0) = Some (req', tk')
       \<and> AuthenticateConsumer req' ''urn:mrn:c'' = (ECDSAWithSHA256, True, None))"
proof -
  let ?c = "(sample_cert (Some ''urn:mrn:c''))\<lparr>OCSPServer := [''http://ocsp'']\<rparr>"
    and ?cfg = "sample_cfg VerifyClientCertIfGiven" and ?rv = "sample_rev OcspGood"
    and ?rv' = "(sample_rev OcspRevoked)\<lparr>revNow := 6 * 24 * 60 * 60 * 10 ^ 9\<rparr>"
  have "ocsp_good ?rv ?c (sample_cert None)"
    by (simp add: ocsp_good_def sample_rev_def sample_cert_def)
  then have "verifyAgentCertificate ?rv True (map RawDer [?c]) [[?c, sample_cert None]] = Return () None"
    using certificate_callbacks [of ?rv True "map RawDer [?c]" "[[?c, sample_cert None]]"] by auto
  then have acc: "accept_hello sample_x509 (Tls ?cfg True) ?rv [] (FullHandshake VersionTLS13 [?c])
      = Some (\<lparr>PeerCertificates = Some [?c]\<rparr>, Some (sample_ticket ?c))"
    by (simp add: accept_full full_handshake_def connection_verified_def sample_cfg_def sample_x509_def
        sample_ticket_def sample_rev_def)
  have bad: "\<forall>i. \<not> passes_revocation ?rv' True ?c i"
    by (simp add: passes_revocation_def ocsp_good_def sample_rev_def)
  have ver: "x509Verify sample_x509 (revNow ?rv) (ClientCAs ?cfg) [?c] = Some [[?c, sample_cert None]]"
    by (simp add: sample_x509_def sample_cfg_def)
  have "accept_hello sample_x509 (Tls ?cfg True) ?rv' [] (FullHandshake VersionTLS13 [?c]) = None
    \<and> (\<exists>req' tk'. accept_hello sample_x509 (Tls ?cfg True) ?rv'
         (tickets_after sample_x509 (Tls ?cfg True) [(?rv, FullHandshake VersionTLS13 [?c])]) (Resumption VersionTLS13 0)
         = Some (req', tk') \<and> AuthenticateConsumer req' ''urn:mrn:c'' = (ECDSAWithSHA256, True, None))"
    using revoked_certificate_resumes [OF sample_cfgs(1) sample_x509_ok acc bad _ _ ver,
        of "[?c, sample_cert None]" "''urn:mrn:c''" ECDSAWithSHA256]
    by (simp add: sample_rev_def sample_x509_def sample_cfg_def sample_cert_def getSignatureAlgorithm_def
        uid_values_def) blast
  then show ?thesis by (simp add: Let_def)
qed

end
