(* ===== verification/Typing.thy ===== *)
theory Typing
  imports EdgeRouter
begin

text \<open>
  The types of the messages an edge router holds. A message names its type twice, by the field
  \<open>MsgType\<close> or \<open>ProtocolMsgType\<close> and by the body it carries, and nothing in protobuf makes the two
  agree. What the edge router queues for the router, keeps for an answer or stores for its agents
  does agree, in every reachable state.
\<close>

section \<open>Well-typed messages\<close>

text \<open>What may go to the router: requests for a subject that is not empty, messages, and requests to receive.\<close>

fun to_router :: "MmtpMessage \<Rightarrow> bool" where
  "to_router m \<longleftrightarrow> MsgType m = MsgType_PROTOCOL_MESSAGE
     \<and> (case Body m of
          Some (MmtpMessage_ProtocolMessage (Some p)) \<Rightarrow>
            (case (ProtocolMsgType p, PM_Body p) of
               (ProtocolMessageType_SUBSCRIBE_MESSAGE, Some (ProtocolMessage_SubscribeMessage (Some s))) \<Rightarrow>
                 (case Subscribe_SubjectOrDirectMessages s of Some (Subscribe_Subject subject) \<Rightarrow> subject \<noteq> '''' | _ \<Rightarrow> False)
             | (ProtocolMessageType_UNSUBSCRIBE_MESSAGE, Some (ProtocolMessage_UnsubscribeMessage (Some s))) \<Rightarrow>
                 (case Unsubscribe_SoD s of Some (Unsubscribe_Subject subject) \<Rightarrow> subject \<noteq> '''' | _ \<Rightarrow> False)
             | (ProtocolMessageType_SEND_MESSAGE, Some (ProtocolMessage_SendMessage (Some s))) \<Rightarrow> True
             | (ProtocolMessageType_RECEIVE_MESSAGE, Some (ProtocolMessage_ReceiveMessage (Some r))) \<Rightarrow>
                 GetMessageUuids (Receive_Filter r) \<noteq> None
             | _ \<Rightarrow> False)
        | _ \<Rightarrow> False)"

declare to_router.simps [simp del]

text \<open>What is kept for an answer, and what is stored for an agent.\<close>

definition awaits_answer :: "MmtpMessage \<Rightarrow> bool" where
  "awaits_answer m \<longleftrightarrow> to_router m \<and> GetProtocolMsgType (GetProtocolMessage (Some m))
     \<in> {ProtocolMessageType_SUBSCRIBE_MESSAGE, ProtocolMessageType_UNSUBSCRIBE_MESSAGE}"

definition for_agent :: "MmtpMessage \<Rightarrow> bool" where
  "for_agent m \<longleftrightarrow> MsgType m = MsgType_PROTOCOL_MESSAGE
     \<and> GetProtocolMsgType (GetProtocolMessage (Some m)) = ProtocolMessageType_SEND_MESSAGE \<and> headerOf m \<noteq> None"

section \<open>The stores of the agents\<close>

definition each :: "(MmtpMessage \<Rightarrow> bool) \<Rightarrow> (string, MmtpMessage) gomap \<Rightarrow> bool" where
  "each P M \<longleftrightarrow> (\<forall>e \<in> set M. P (snd e))"

lemma each_Nil [simp]: "each P []"
  by (simp add: each_def)

lemma each_mput: "each P M \<Longrightarrow> P m \<Longrightarrow> each P (mput k m M)"
  using set_mput_subset [of k m M] by (auto simp: each_def)

lemma each_mdel: "each P M \<Longrightarrow> each P (mdel k M)"
  by (simp add: each_def set_mdel)

lemma each_mget: "each P M \<Longrightarrow> mget M k = Some m \<Longrightarrow> P m"
  by (fastforce simp: each_def dest: mget_Some_in)

definition holds :: "(MmtpMessage \<Rightarrow> bool) \<Rightarrow> 'z Consumer_scheme \<Rightarrow> bool" where
  "holds P c \<longleftrightarrow> each P (Messages c) \<and> each P (Notifications c)"

lemma holds_updates [simp]:
  "holds P (c\<lparr>Mrn := x\<rparr>) = holds P c"
  "holds P (c\<lparr>Interests := is\<rparr>) = holds P c"
  "holds P (c\<lparr>ReconnectToken := t\<rparr>) = holds P c"
  by (simp_all add: holds_def)

lemma fold_put_each: "each P M \<Longrightarrow> \<forall>m \<in> set ms. P m \<Longrightarrow> each P (fold (\<lambda>m. mput (Uuid m) m) ms M)"
  by (induction ms arbitrary: M) (auto intro: each_mput)

lemma receive_loop_each:
  "receive_loop us M N ms cs = (M', N', ms', cs') \<Longrightarrow> each P M \<Longrightarrow> each P N \<Longrightarrow> \<forall>m \<in> set ms. P m \<Longrightarrow>
   each P M' \<and> each P N' \<and> (\<forall>m \<in> set ms'. P m)"
proof (induction us arbitrary: M N ms cs)
  case (Cons u us)
  show ?case
  proof (cases "mget M u")
    case None
    with Cons.prems(1) have "receive_loop us M N ms cs = (M', N', ms', cs')" by simp
    from Cons.IH [OF this Cons.prems(2-4)] show ?thesis .
  next
    case (Some m)
    with Cons.prems(2) have "P m" by (rule each_mget)
    then have "\<forall>m \<in> set (ms @ [m]). P m" using Cons.prems(4) by simp
    moreover have "receive_loop us (mdel u M) (mdel u N) (ms @ [m]) (cs @ [\<lparr>MC_Uuid = u, MC_Msg = appMsgOf m\<rparr>])
        = (M', N', ms', cs')" using Cons.prems(1) Some by simp
    ultimately show ?thesis using Cons.IH each_mdel [OF Cons.prems(2)] each_mdel [OF Cons.prems(3)] by blast
  qed
qed simp

lemma receive_all_loop_each: "each P N \<Longrightarrow> each P (state_of (receive_all_loop now es N cs))"
  by (induction now es N cs rule: receive_all_loop.induct) (auto simp: Let_def each_mdel split: option.splits)

lemma fetch_loop_each: "each P M \<Longrightarrow> each P (state_of (fetch_loop now es M md))"
  by (induction now es M md rule: fetch_loop.induct) (auto simp: each_mdel split: option.splits)

lemma gc_loop_each: "each P M \<Longrightarrow> each P (gc_loop now es M)"
  by (induction now es M rule: gc_loop.induct) (auto simp: each_mdel split: option.splits)

lemma HandleReceive_holds:
  assumes "holds P c"
  shows "holds P (fst (state_of (HandleReceive env m (c, io))))"
proof (cases "GetReceiveMessage (GetProtocolMessage (Some m))")
  case (Some r)
  have M: "each P (Messages c)" and N: "each P (Notifications c)"
    using assms by (simp_all add: holds_def)
  show ?thesis
  proof (cases "GetMessageUuids (GetFilter (Some r))")
    case None
    obtain now io1 where now: "NowUnix env io = (now, io1)" by fastforce
    note each = receive_all_loop_each [OF N, of now "Messages c" "[]"]
    show ?thesis
      using None Some now each M
      by (cases "receive_all_loop now (Messages c) (Notifications c) []")
        (auto simp: HandleReceive_def holds_def Let_def split: prod.splits option.splits)
  next
    case us: (Some us)
    obtain M' N' ms cs where L: "receive_loop us (Messages c) (Notifications c) [] [] = (M', N', ms, cs)"
      by (rule prod_cases4)
    from receive_loop_each [OF L M N] have "each P M'" "each P N'" "\<forall>m \<in> set ms. P m" by simp_all
    then show ?thesis
      using Some us L
      by (auto simp: HandleReceive_def holds_def BulkQueueMessages_def Let_def fold_put_each
          split: prod.splits option.splits)
  qed
qed (use assms in \<open>simp add: HandleReceive_def\<close>)

lemma HandleFetch_holds:
  assumes "holds P c"
  shows "holds P (fst (state_of (HandleFetch env m (c, io))))"
proof (cases "GetFetchMessage (GetProtocolMessage (Some m))")
  case (Some f)
  have M: "each P (Messages c)" and N: "each P (Notifications c)"
    using assms by (simp_all add: holds_def)
  obtain now io1 where now: "NowUnix env io = (now, io1)" by fastforce
  show ?thesis
    using Some now fetch_loop_each [OF M, of now "Messages c" "[]"] N
    by (cases "fetch_loop now (Messages c) (Messages c) []")
      (auto simp: HandleFetch_def holds_def Let_def split: prod.splits option.splits)
qed (use assms in \<open>simp add: HandleFetch_def\<close>)

lemma gc_consumer_holds: "holds P c \<Longrightarrow> holds P (gc_consumer now c)"
  by (simp add: gc_consumer_def holds_def gc_loop_each)

lemma CheckNewMessages_holds: "holds P c \<Longrightarrow> holds P (fst (CheckNewMessages env ts (c, io)))"
proof (induction env ts "(c, io)" arbitrary: c io rule: CheckNewMessages.induct)
  case (3 env ts c io)
  have "holds P (fst (notify env c io))"
    using "3.prems" by (cases "notify env c io") (auto dest!: notify_state simp: holds_def split: option.splits)
  with 3 show ?case by (auto split: prod.splits)
qed simp_all

lemma queue_all_holds: "(\<And>a. holds P (h a)) \<Longrightarrow> P m \<Longrightarrow> holds P (queue_all m as h b)"
proof (induction as arbitrary: h)
  case (Cons a as)
  obtain h' where h': "queue_all m (a # as) h = queue_all m as h'" "\<And>b. holds P (h' b)"
  proof (cases "QueueMessage (Some (h a)) m")
    case (Inl e)
    with Cons.prems that [of h] show ?thesis by (simp add: queue_all_def)
  next
    case (Inr c)
    from QueueMessage_Inr [OF Inr] Cons.prems(1) [of a] Cons.prems(2) have "holds P c" by (simp add: holds_def each_mput)
    with Inr Cons.prems that [of "h(a := c)"] show ?thesis by (simp add: queue_all_def)
  qed
  from Cons.IH [OF h'(2) Cons.prems(2)] h'(1) show ?case by simp
qed simp

section \<open>The edge router\<close>

definition typed :: "EdgeRouter \<Rightarrow> bool" where
  "typed er \<longleftrightarrow> (\<forall>m \<in> set (cbuf (outgoingChannel er)). to_router m)
     \<and> each awaits_answer (awaitResponse er) \<and> (\<forall>a. holds for_agent (agentHeap er a))"

abbreviation typed_res :: "(er_state, 'r) result \<Rightarrow> bool" where
  "typed_res r \<equiv> typed (fst (state_of r))"

lemma typed_updates [simp]:
  "typed (er\<lparr>subscriptions := S\<rparr>) = typed er"
  "typed (er\<lparr>agents := A\<rparr>) = typed er"
  "typed (er\<lparr>mrnToAgent := M\<rparr>) = typed er"
  "typed (er\<lparr>nextAgent := n\<rparr>) = typed er"
  by (simp_all add: typed_def)

lemma typed_heap: "typed er \<Longrightarrow> (\<And>a. holds for_agent (h a)) \<Longrightarrow> typed (er\<lparr>agentHeap := h\<rparr>)"
  by (simp add: typed_def)

lemma typed_agent: "typed er \<Longrightarrow> holds for_agent (f (agentHeap er a)) \<Longrightarrow> typed (upd_agent a f er)"
  by (simp add: typed_def upd_agent_def)

lemma typed_holds: "typed er \<Longrightarrow> holds for_agent (agentHeap er a)"
  by (simp add: typed_def)

lemma typed_flags [simp]:
  "holds P (ag\<lparr>directMessages := d\<rparr>) = holds P ag"
  by (simp add: holds_def)

lemma typed_send: "typed er \<Longrightarrow> to_router m \<Longrightarrow> typed (state_of (er_send er m))"
  by (rule er_send_cases [OF refl, of er m]) (auto simp: typed_def)

lemma typed_send_bind:
  "typed er \<Longrightarrow> to_router m \<Longrightarrow> (\<And>er'. typed er' \<Longrightarrow> typed_res (f er' ())) \<Longrightarrow>
   typed_res (bind_result (er_send er m) f (\<lambda>er. (er, io)))"
  using typed_send [of er m] by (cases "er_send er m") auto

lemma typed_go_on: "typed_res r \<Longrightarrow> typed_res (bind_result r (\<lambda>s _. Return s b) (\<lambda>s. s))"
  by (cases r) auto

lemma to_router_requests:
  "subject \<noteq> '''' \<Longrightarrow> to_router (subscribeRequest u subject)"
  "subject \<noteq> '''' \<Longrightarrow> to_router (unsubscribeRequest u subject)"
  "to_router (receiveRequest u us)"
  by (simp_all add: to_router.simps subscribeRequest_def unsubscribeRequest_def receiveRequest_def mkProtocol_def)

text \<open>A message whose two types the switch of handle_message and the getters have read.\<close>

lemma protocol_body: "GetProtocolMessage (Some m) = Some p \<longleftrightarrow> Body m = Some (MmtpMessage_ProtocolMessage (Some p))"
  by (auto simp: GetProtocolMessage.simps(1) split: option.splits MmtpMessage_Body.splits)

lemma subscribe_body: "GetSubscribeMessage (Some p) = Some s \<longleftrightarrow> PM_Body p = Some (ProtocolMessage_SubscribeMessage (Some s))"
  by (auto split: option.splits ProtocolMessage_Body.splits)

lemma send_body: "GetSendMessage (Some p) = Some s \<longleftrightarrow> PM_Body p = Some (ProtocolMessage_SendMessage (Some s))"
  by (auto split: option.splits ProtocolMessage_Body.splits)

lemma to_router_subscribe:
  assumes "MsgType m = MsgType_PROTOCOL_MESSAGE" and "GetProtocolMessage (Some m) = Some p"
    and "ProtocolMsgType p = ProtocolMessageType_SUBSCRIBE_MESSAGE"
    and "GetSubscribeMessage (Some p) = Some s" and "GetSubjectOrDirectMessages (Some s) = Some (Subscribe_Subject x)"
    and "x \<noteq> ''''"
  shows "to_router m"
  using assms(1,3,5,6) assms(2) [unfolded protocol_body] assms(4) [unfolded subscribe_body]
  by (simp add: to_router.simps)

lemma to_router_send:
  assumes "MsgType m = MsgType_PROTOCOL_MESSAGE" and "GetProtocolMessage (Some m) = Some p"
    and "ProtocolMsgType p = ProtocolMessageType_SEND_MESSAGE" and "GetSendMessage (Some p) = Some s"
  shows "to_router m"
  using assms(1,3) assms(2) [unfolded protocol_body] assms(4) [unfolded send_body]
  by (simp add: to_router.simps)

lemma handleSubscribeSubject_typed:
  assumes "typed er" and "Subscribe_GetSubject (GetSubscribeMessage (GetProtocolMessage (Some m))) \<noteq> '''' \<Longrightarrow> to_router m"
  shows "typed_res (handleSubscribeSubject env m a (er, io))"
  using assms
  by (auto simp: handleSubscribeSubject_def Let_def typed_holds split: option.splits prod.splits
      intro!: typed_send_bind typed_agent)

lemma handleSubscribeDirect_typed:
  "typed er \<Longrightarrow> typed_res (handleSubscribeDirect env m a sub req (er, io))"
  by (auto simp: handleSubscribeDirect_def Let_def typed_holds split: option.splits prod.splits
      intro!: typed_send_bind typed_agent to_router_requests)

lemma handleSubscribe_typed:
  assumes "typed er" and "MsgType m = MsgType_PROTOCOL_MESSAGE" and "GetProtocolMessage (Some m) = Some p"
    and "ProtocolMsgType p = ProtocolMessageType_SUBSCRIBE_MESSAGE"
  shows "typed_res (handleSubscribe env m a req (er, io))"
proof (cases "GetSubscribeMessage (Some p)")
  case (Some s)
  have "typed_res (handleSubscribeSubject env m a (er, io))" if "GetSubjectOrDirectMessages (Some s) = Some (Subscribe_Subject x)" for x
    using assms(1) to_router_subscribe [OF assms(2-4) Some that] that
    by (intro handleSubscribeSubject_typed) (auto simp: assms(3) Some [unfolded subscribe_body])
  with Some handleSubscribeDirect_typed [OF assms(1)] assms(1) show ?thesis
    by (auto simp: handleSubscribe_def assms(3) split: option.splits SubjectOrDirectMessages.splits)
qed (use assms(1) in \<open>simp add: handleSubscribe_def assms(3)\<close>)

lemma handleUnsubscribe_typed: "typed er \<Longrightarrow> typed_res (handleUnsubscribe env m a (er, io))"
  by (auto simp: handleUnsubscribe_def handleUnsubscribeSubject_def handleUnsubscribeDirect_def Let_def typed_holds
      split: option.splits prod.splits Unsubscribe_SubjectOrDirectMessages.splits
      intro!: typed_send_bind typed_agent to_router_requests)

lemma for_agent_send:
  assumes "MsgType m = MsgType_PROTOCOL_MESSAGE" and "GetProtocolMessage (Some m) = Some p"
    and "ProtocolMsgType p = ProtocolMessageType_SEND_MESSAGE" and "headerOf m \<noteq> None"
  shows "for_agent m"
  using assms by (simp add: for_agent_def)

lemma deliver_local_typed:
  assumes "typed er" and "headerOf m \<noteq> None \<Longrightarrow> for_agent m"
  shows "typed (deliver_local m (headerOf m) a er)"
proof -
  have "typed (er\<lparr>agentHeap := queue_all m as (agentHeap er)\<rparr>)"
    if "GetRecipients_list (GetRecipients (headerOf m)) \<noteq> [] \<or> GetSubject (headerOf m) \<noteq> ''''" for as
  proof -
    from that have "headerOf m \<noteq> None" by (cases "headerOf m") auto
    with assms show ?thesis by (intro typed_heap queue_all_holds typed_holds) auto
  qed
  with assms(1) show ?thesis
    by (auto simp: deliver_local_def Let_def queue_direct_eq queue_others_eq split: option.split)
qed

lemma handleSend_typed:
  assumes "typed er" and "MsgType m = MsgType_PROTOCOL_MESSAGE" and "GetProtocolMessage (Some m) = Some p"
    and "ProtocolMsgType p = ProtocolMessageType_SEND_MESSAGE"
  shows "typed_res (handleSend env chk req alg m a (er, io))"
proof (cases "GetSendMessage (Some p)")
  case (Some send)
  have step: "typed (deliver_local m (GetHeader (GetApplicationMessage (Some send))) a e)" if "typed e" for e
    using deliver_local_typed [OF that for_agent_send [OF assms(2-4)], of a]
    by (simp add: assms(3) Some [unfolded send_body])
  show ?thesis
    using assms(1) to_router_send [OF assms(2-4) Some] Some
    by (auto simp: handleSend_def Let_def assms(3) step
        simp del: GetApplicationMessage.simps
        split: option.splits result.splits prod.splits intro!: typed_send_bind)
qed (use assms in \<open>simp add: handleSend_def\<close>)

lemma on_agent_typed:
  "typed er \<Longrightarrow> holds for_agent (fst (state_of (f (agentHeap er a, io)))) \<Longrightarrow> typed_res (on_agent a f (er, io))"
  by (cases "f (agentHeap er a, io)") (auto simp: on_agent_def intro: typed_agent split: prod.splits)

lemma handle_message_typed:
  assumes "typed er"
  shows "typed_res (handle_message env chk req alg a m n (er, io))"
proof -
  have receive: "typed_res (on_agent a (HandleReceive env m) (er, io))"
    and fetch: "typed_res (on_agent a (HandleFetch env m) (er, io))"
    using assms by (auto intro!: on_agent_typed HandleReceive_holds HandleFetch_holds typed_holds)
  note steps = handleSubscribe_typed [OF assms] handleUnsubscribe_typed [OF assms] handleSend_typed [OF assms]
    receive fetch
  show ?thesis
    using assms
    by (auto simp: handle_message_def Let_def intro!: typed_go_on steps
        split: MsgType.split option.split ProtocolMessageType.split prod.split)
qed

lemma connect_agent_typed:
  assumes "typed er" and "connect_agent env req (er, io) = ((er', io'), r)"
  shows "typed er'"
proof -
  have "typed e''"
    if "saved_or_new env t mrn auth (er, i) = (a, e', i')" "new_token env a (e', i') = (t', e'', i'')"
    for t mrn auth i a e' i' t' e'' i''
  proof -
    have "typed e'"
      using that(1) assms(1)
      by (auto simp: saved_or_new_def alloc_agent_def Let_def typed_def Consumer.defs Agent.defs new_consumer_def holds_def
          split: option.splits prod.splits)
    with that(2) show ?thesis
      by (auto simp: new_token_def Let_def typed_holds intro!: typed_agent split: prod.splits)
  qed
  with assms show ?thesis
    by (auto simp: connect_agent_def Let_def split: sum.splits option.splits prod.splits if_splits)
qed

lemma gc_agents_holds: "(\<And>a. holds P (h a)) \<Longrightarrow> holds P (gc_agents now es h b)"
  by (induction now es h arbitrary: b rule: gc_agents.induct) (auto simp: gc_consumer_holds)

lemma for_agent_incoming: "GetHeader x \<noteq> None \<Longrightarrow> for_agent (sendRequest u x)"
  by (simp add: for_agent_def sendRequest_def mkProtocol_def GetProtocolMessage.simps(1))

lemma deliver_content_typed:
  assumes "typed er"
  shows "typed (fst (deliver_content env x (er, io)))"
proof -
  have "GetSubjectOrRecipient (GetHeader x) = Some y \<Longrightarrow> for_agent (sendRequest u x)" for y u
    by (cases "GetHeader x") (auto intro: for_agent_incoming)
  then have "GetSubjectOrRecipient (GetHeader x) = Some y \<Longrightarrow>
      typed (er\<lparr>agentHeap := queue_all (sendRequest u x) as (agentHeap er)\<rparr>)" for y u as
    by (intro typed_heap queue_all_holds typed_holds assms)
  with assms show ?thesis
    by (auto simp: deliver_content_def Let_def queue_direct_eq
        split: option.splits ApplicationMessageHeader_SubjectOrRecipient.splits prod.splits)
qed

lemma deliver_contents_typed: "typed er \<Longrightarrow> typed (fst (deliver_contents env now cs (er, io)))"
proof (induction cs arbitrary: er io)
  case (Cons c cs)
  obtain er' io' where d: "deliver_content env (GetMsg (Some c)) (er, io) = (er', io')" by fastforce
  with deliver_content_typed [OF Cons.prems, of env "GetMsg (Some c)" io] have "typed er'" by simp
  with Cons d show ?case by simp
qed simp

lemma handle_response_typed:
  assumes "typed er"
  shows "typed_res (handle_response env rm (er, io))"
proof -
  let ?e = "er\<lparr>awaitResponse := mdel (GetResponseToUuid rm) (awaitResponse er)\<rparr>"
  have e: "typed ?e" using assms by (simp add: typed_def each_mdel)
  have "to_router m" if "mget (awaitResponse er) u = Some m" for m u
    using assms each_mget [OF _ that, of awaits_answer] by (simp add: typed_def awaits_answer_def)
  with e deliver_contents_typed [OF e] show ?thesis
    by (auto simp: handle_response_def Let_def NowUnix_def intro!: typed_send_bind split: option.split)
qed

lemma handleIncomingMessages_typed:
  assumes "typed er"
  shows "typed_res (handleIncomingMessages env canceled ping dials (er, io))"
proof -
  have "typed_res (handleNotify env md (er, i))" for md i
    using assms by (auto simp: handleNotify_def Let_def to_router_requests intro!: typed_send_bind split: prod.splits)
  from typed_go_on [OF this] handle_response_typed [OF assms] assms show ?thesis
    by (auto simp: handleIncomingMessages_def Let_def
        split: sum.split prod.split option.split MmtpMessage_Body.split)
qed

lemma handleOutgoingMessages_typed:
  assumes "typed er"
  shows "typed_res (handleOutgoingMessages env ping dials (er, io))"
proof (cases "cbuf (outgoingChannel er)")
  case Nil
  with assms show ?thesis by (simp add: handleOutgoingMessages_def)
next
  case (Cons m rest)
  let ?e = "er\<lparr>outgoingChannel := (outgoingChannel er)\<lparr>cbuf := rest\<rparr>\<rparr>"
  have m: "to_router m" and e: "typed ?e" using assms Cons by (simp_all add: typed_def)
  have w: "typed (?e\<lparr>awaitResponse := mput (Uuid m) m (awaitResponse ?e)\<rparr>)"
    if "GetProtocolMsgType (GetProtocolMessage (Some m)) \<in>
      {ProtocolMessageType_SUBSCRIBE_MESSAGE, ProtocolMessageType_UNSUBSCRIBE_MESSAGE}"
    using e m that by (simp add: typed_def each_mput awaits_answer_def)
  have s: "typed_res (bind_result (er_send ?e m) (\<lambda>er _. Return (er, f er) ()) (\<lambda>er. (er, i)))" for f i
    by (rule typed_send_bind [OF e m]) simp
  show ?thesis
    using e w s by (auto simp: handleOutgoingMessages_def Cons Let_def split: prod.split option.split)
qed

lemma er_step_typed: "er_step env chk er er' \<Longrightarrow> typed er \<Longrightarrow> typed er'"
proof (induction rule: er_step.induct)
  case (connect req er io er' io' r)
  then show ?case using connect_agent_typed by blast
next
  case (message a er req alg m n io er' io')
  then show ?case using handle_message_typed [of er env chk req alg a m n io] by simp
next
  case (check a er ts io ag io')
  then show ?case
    using CheckNewMessages_holds [of for_agent "agentHeap er a" env ts io] by (auto simp: typed_holds intro: typed_agent)
next
  case (incoming canceled ping dials er io er' io')
  then show ?case using handleIncomingMessages_typed [of er env canceled ping dials io] by simp
next
  case (outgoing ping dials er io er' io')
  then show ?case using handleOutgoingMessages_typed [of er env ping dials io] by simp
next
  case (gc er io er' io')
  then show ?case by (auto simp: messageGC_def NowUnix_def typed_holds intro!: typed_heap gc_agents_holds)
qed

lemma typed_new: "typed (NewEdgeRouter mrn)"
  by (simp add: typed_def NewEdgeRouter_def blank_agent_def holds_def new_consumer_def Consumer.defs Agent.defs)

lemma er_reach_typed: "er_reach env chk er \<Longrightarrow> typed er"
  by (induction rule: er_reach.induct) (auto simp: typed_new dest: er_step_typed)

section \<open>Properties\<close>

text \<open>
  C13: in every reachable state of the edge router the types of its messages agree with their bodies,
  whatever types the agents and the router claimed: a message queued for the router is a request to
  subscribe or unsubscribe with a subject that is not empty, a Send, or a Receive with a filter; one
  that awaits a response is such a request for a subscription; one stored for an agent is a Send
  with an application message that has a header.
\<close>

theorem edge_router_messages_typed:
  assumes "er_reach env chk er"
  shows "(\<forall>m \<in> set (cbuf (outgoingChannel er)). to_router m)
    \<and> (\<forall>u m. mget (awaitResponse er) u = Some m \<longrightarrow> awaits_answer m)
    \<and> (\<forall>a u m. mget (Messages (agentHeap er a)) u = Some m \<or> mget (Notifications (agentHeap er a)) u = Some m \<longrightarrow> for_agent m)"
  using er_reach_typed [OF assms] by (auto simp: typed_def holds_def dest: each_mget)

definition sample_notify :: MmtpMessage where
  "sample_notify = mkProtocol ''n'' ProtocolMessageType_NOTIFY_MESSAGE
     (ProtocolMessage_NotifyMessage (Some \<lparr>Notify_MessageMetadata = [\<lparr>MM_Uuid = ''m'', MM_Header = None\<rparr>]\<rparr>))"

theorem edge_router_messages_typed_witness:
  "\<exists>er io u. state_of (handleIncomingMessages (sample_env (\<lambda>_. 10) (\<lambda>_. Some sample_notify)) False False []
       (NewEdgeRouter ''urn:mrn:er'', sample_io [''x''] (\<lambda>_. False))) = (er, io)
     \<and> cbuf (outgoingChannel er) = [receiveRequest u [''m'']] \<and> to_router (receiveRequest u [''m''])"
proof -
  let ?env = "sample_env (\<lambda>_. 10) (\<lambda>_. Some sample_notify)"
  obtain er io u where run: "state_of (handleIncomingMessages ?env False False []
       (NewEdgeRouter ''urn:mrn:er'', sample_io [''x''] (\<lambda>_. False))) = (er, io)"
    and q: "cbuf (outgoingChannel er) = [receiveRequest u [''m'']]"
    by (simp add: handleIncomingMessages_def handleNotify_def ReadMessage_def NewString_def er_send_def chan_send_def
        NewEdgeRouter_def ChannelBufSize_def sample_notify_def mkProtocol_def sample_defs Let_def)
  have "er_reach ?env (\<lambda>_ _ _ _. True) er"
    using er_reach.init er_step.incoming [OF run] by (rule er_reach.step)
  from edge_router_messages_typed [OF this] q have "to_router (receiveRequest u [''m''])" by simp
  with run q show ?thesis by blast
qed

end
