(* ===== verification/Lifecycle.thy ===== *)
theory Lifecycle
  imports MmsPrelude
begin

text \<open>
  How a program of goroutines ends. A goroutine is a name and the statements it still has to do:
  operations on the one \<open>sync.WaitGroup\<close>, on the context, on channels and on HTTP servers. What
  it does in between is left out: calls that return by themselves or when the context ends. Locale \<open>wait_group\<close> states what the statements have to
  obey, by counting who owes a Done, and proves that \<open>wg.Wait\<close> returns after every other
  goroutine, and that the shutdown after a signal comes to its end.
\<close>

section \<open>Statements\<close>

datatype server = Websockets | PrometheusServer | HealthServer

text \<open>
  When a loop ends: only once the context is cancelled; only once a channel is closed; at any time
  (the loop of a session, whose peer may leave); or at any time, but without another round once
  the context is cancelled (a search that may succeed, a context that ends with a session).
\<close>

datatype 'c guard = UntilCancelled | UntilClosed 'c | UntilEnded | UntilEndedOrCancelled

text \<open>
  \<open>Publish\<close> registers the mDNS service; when that fails the program signals itself. \<open>AwaitPeer\<close>
  waits for an answer on a connection or for its end. \<open>Serve\<close> is ListenAndServe, which starts a goroutine
  for each request and ends when the server is shut or fails. \<open>Shut\<close> and \<open>Drain\<close> are the two parts
  of Shutdown, which closes the listener, then waits for the requests in progress. A request
  leaves its server when its answer is written or its connection has become a websocket:
  \<open>Leave\<close>.
\<close>

datatype ('g, 'c) stmt =
    AddWg nat | DoneWg | WaitWg
  | Go 'g
  | Publish | AwaitSignal | Cancel | AwaitCancel | AwaitPeer
  | CloseChan 'c
  | Serve server | Shut server | Drain server | Leave
  | Loop "'c guard" "('g, 'c) stmt list"
  | Either "('g, 'c) stmt list" "('g, 'c) stmt list"

text \<open>\<open>answers\<close> says whether a wait on a connection ever ends; it does not change.\<close>

record 'c shared =
  counter :: int
  signalled :: bool
  cancelled :: bool
  closedChans :: "'c set"
  shutServers :: "server set"
  drainedServers :: "server set"
  answers :: bool

type_synonym ('g, 'c) pool = "('g \<times> ('g, 'c) stmt list) list"

type_synonym ('g, 'c) life = "'c shared \<times> ('g, 'c) pool"

fun every :: "(('g, 'c) stmt \<Rightarrow> bool) \<Rightarrow> ('g, 'c) stmt list \<Rightarrow> bool" where
  "every P [] = True"
| "every P (s # r) =
     (P s \<and> (case s of Either a b \<Rightarrow> every P a \<and> every P b | Loop gd b \<Rightarrow> every P b | _ \<Rightarrow> True) \<and> every P r)"

definition unleft :: "('g, 'c) stmt list \<Rightarrow> bool" where
  "unleft r \<longleftrightarrow> \<not> every (\<lambda>s. s \<noteq> Leave) r"

definition busy :: "(server \<Rightarrow> 'g) \<Rightarrow> ('g, 'c) pool \<Rightarrow> server \<Rightarrow> bool" where
  "busy handler ts s \<longleftrightarrow> (\<exists>(g, r) \<in> set ts. g = handler s \<and> unleft r)"

section \<open>Steps\<close>

text \<open>
  A step is input from outside (a signal, a request, a message, a timer that starts one more round
  of a loop) or internal.
\<close>

datatype progress = Internal | Input

fun loop_ends :: "'c guard \<Rightarrow> 'c shared \<Rightarrow> bool" where
  "loop_ends UntilCancelled sh = cancelled sh"
| "loop_ends (UntilClosed c) sh = (c \<in> closedChans sh)"
| "loop_ends UntilEnded sh = True"
| "loop_ends UntilEndedOrCancelled sh = True"

fun loop_repeats :: "'c guard \<Rightarrow> 'c shared \<Rightarrow> bool" where
  "loop_repeats UntilCancelled sh = (\<not> cancelled sh)"
| "loop_repeats (UntilClosed c) sh = True"
| "loop_repeats UntilEnded sh = True"
| "loop_repeats UntilEndedOrCancelled sh = (\<not> cancelled sh)"

text \<open>
  What a statement can come to: the kind of the step, the shared state after it, the statements
  that take its place, the goroutines it starts. No result means that it blocks.
\<close>

fun effect :: "(server \<Rightarrow> 'g) \<Rightarrow> (server \<Rightarrow> bool) \<Rightarrow> ('g, 'c) stmt \<Rightarrow> 'c shared \<Rightarrow>
    (progress \<times> 'c shared \<times> ('g, 'c) stmt list \<times> 'g list) list" where
  "effect handler bz (AddWg n) sh = [(Internal, sh\<lparr>counter := counter sh + int n\<rparr>, [], [])]"
| "effect handler bz DoneWg sh = [(Internal, sh\<lparr>counter := counter sh - 1\<rparr>, [], [])]"
| "effect handler bz WaitWg sh = (if counter sh = 0 then [(Internal, sh, [], [])] else [])"
| "effect handler bz (Go g) sh = [(Internal, sh, [], [g])]"
| "effect handler bz Publish sh = [(Internal, sh, [], []), (Internal, sh\<lparr>signalled := True\<rparr>, [], [])]"
| "effect handler bz AwaitSignal sh = (if signalled sh then [(Internal, sh, [], [])] else [])"
| "effect handler bz Cancel sh = [(Internal, sh\<lparr>cancelled := True\<rparr>, [], [])]"
| "effect handler bz AwaitCancel sh = (if cancelled sh then [(Internal, sh, [], [])] else [])"
| "effect handler bz AwaitPeer sh = (if answers sh then [(Internal, sh, [], [])] else [])"
| "effect handler bz (CloseChan c) sh = [(Internal, sh\<lparr>closedChans := insert c (closedChans sh)\<rparr>, [], [])]"
| "effect handler bz (Serve s) sh =
     (Internal, sh, [], []) # (if s \<in> shutServers sh then [] else [(Input, sh, [Serve s], [handler s])])"
| "effect handler bz (Shut s) sh = [(Internal, sh\<lparr>shutServers := insert s (shutServers sh)\<rparr>, [], [])]"
| "effect handler bz (Drain s) sh =
     (if bz s then []
      else [(Internal, sh\<lparr>shutServers := insert s (shutServers sh), drainedServers := insert s (drainedServers sh)\<rparr>, [], [])])"
| "effect handler bz Leave sh = [(Internal, sh, [], [])]"
| "effect handler bz (Loop gd b) sh =
     (if loop_ends gd sh then [(Internal, sh, [], [])] else []) @
     (if loop_repeats gd sh then [(Input, sh, b @ [Loop gd b], [])] else [])"
| "effect handler bz (Either a b) sh = [(Internal, sh, a, []), (Internal, sh, b, [])]"

text \<open>The steps of the i-th goroutine; a goroutine that is started goes to the end of the pool.\<close>

definition moves :: "('g \<Rightarrow> ('g, 'c) stmt list) \<Rightarrow> (server \<Rightarrow> 'g) \<Rightarrow> ('g, 'c) life \<Rightarrow> nat \<Rightarrow> (progress \<times> ('g, 'c) life) list" where
  "moves prog handler s i =
     (let (sh, ts) = s; (g, r) = ts ! i
      in case r of
           [] \<Rightarrow> []
         | st # r \<Rightarrow> map (\<lambda>(l, sh', push, new). (l, (sh', ts[i := (g, push @ r)] @ map (\<lambda>g. (g, prog g)) new)))
                      (effect handler (busy handler ts) st sh))"

inductive life_step :: "('g \<Rightarrow> ('g, 'c) stmt list) \<Rightarrow> (server \<Rightarrow> 'g) \<Rightarrow> ('g, 'c) life \<Rightarrow> progress \<Rightarrow> ('g, 'c) life \<Rightarrow> bool"
  for prog handler where
  signal: "life_step prog handler (sh, ts) Input (sh\<lparr>signalled := True\<rparr>, ts)"
| run: "i < length (snd s) \<Longrightarrow> (l, s') \<in> set (moves prog handler s i) \<Longrightarrow> life_step prog handler s l s'"

inductive life_run :: "('g \<Rightarrow> ('g, 'c) stmt list) \<Rightarrow> (server \<Rightarrow> 'g) \<Rightarrow> ('g, 'c) life \<Rightarrow> ('g, 'c) life \<Rightarrow> bool"
  for prog handler s where
  refl: "life_run prog handler s s"
| step: "life_run prog handler s s' \<Longrightarrow> life_step prog handler s' l s'' \<Longrightarrow> life_run prog handler s s''"

text \<open>A run without input, with the number of its steps.\<close>

inductive quiet_run :: "('g \<Rightarrow> ('g, 'c) stmt list) \<Rightarrow> (server \<Rightarrow> 'g) \<Rightarrow> ('g, 'c) life \<Rightarrow> nat \<Rightarrow> ('g, 'c) life \<Rightarrow> bool"
  for prog handler s where
  refl: "quiet_run prog handler s 0 s"
| step: "quiet_run prog handler s n s' \<Longrightarrow> life_step prog handler s' Internal s'' \<Longrightarrow> quiet_run prog handler s (Suc n) s''"

definition start_life :: "('g \<Rightarrow> ('g, 'c) stmt list) \<Rightarrow> 'g \<Rightarrow> bool \<Rightarrow> ('g, 'c) life" where
  "start_life prog main ans =
     (\<lparr>counter = 0, signalled = False, cancelled = False, closedChans = {}, shutServers = {},
       drainedServers = {}, answers = ans\<rparr>, [(main, prog main)])"

definition over :: "('g, 'c) life \<Rightarrow> bool" where
  "over s \<longleftrightarrow> (\<forall>(g, r) \<in> set (snd s). r = [])"

definition has_returned :: "'g \<Rightarrow> ('g, 'c) life \<Rightarrow> bool" where
  "has_returned g s \<longleftrightarrow> (g, []) \<in> set (snd s)"

text \<open>A run given by the goroutines that move and the alternatives they take.\<close>

fun drive :: "('g \<Rightarrow> ('g, 'c) stmt list) \<Rightarrow> (server \<Rightarrow> 'g) \<Rightarrow> (nat \<times> nat) list \<Rightarrow> ('g, 'c) life \<Rightarrow> ('g, 'c) life" where
  "drive prog handler [] s = s"
| "drive prog handler ((i, j) # ms) s =
     (if i < length (snd s) \<and> j < length (moves prog handler s i)
      then drive prog handler ms (snd (moves prog handler s i ! j)) else s)"

lemma life_run_trans: "life_run prog handler s' s'' \<Longrightarrow> life_run prog handler s s' \<Longrightarrow> life_run prog handler s s''"
  by (induction rule: life_run.induct) (auto intro: life_run.step)

lemma drive_run: "life_run prog handler s (drive prog handler ms s)"
proof (induction ms arbitrary: s)
  case (Cons m ms)
  obtain i j where m: "m = (i, j)" by fastforce
  show ?case
  proof (cases "i < length (snd s) \<and> j < length (moves prog handler s i)")
    case True
    let ?x = "moves prog handler s i ! j"
    have "(fst ?x, snd ?x) \<in> set (moves prog handler s i)" using True by simp
    with True have "life_step prog handler s (fst ?x) (snd ?x)" by (blast intro: life_step.run)
    then have "life_run prog handler s (snd ?x)" by (blast intro: life_run.intros)
    with Cons.IH [of "snd ?x"] True m show ?thesis by (auto intro: life_run_trans)
  qed (simp only: m drive.simps if_False life_run.refl)
qed (simp add: life_run.refl)

lemma quiet_run_run: "quiet_run prog handler s n s' \<Longrightarrow> life_run prog handler s s'"
  by (induction rule: quiet_run.induct) (auto intro: life_run.intros)

text \<open>A given run without input.\<close>

fun drives_quietly :: "('g \<Rightarrow> ('g, 'c) stmt list) \<Rightarrow> (server \<Rightarrow> 'g) \<Rightarrow> (nat \<times> nat) list \<Rightarrow> ('g, 'c) life \<Rightarrow> bool" where
  "drives_quietly prog handler [] s = True"
| "drives_quietly prog handler ((i, j) # ms) s =
     (i < length (snd s) \<and> j < length (moves prog handler s i) \<and> fst (moves prog handler s i ! j) = Internal
      \<and> drives_quietly prog handler ms (snd (moves prog handler s i ! j)))"

lemma quiet_run_first:
  "quiet_run prog handler s' n s'' \<Longrightarrow> life_step prog handler s Internal s' \<Longrightarrow> quiet_run prog handler s (Suc n) s''"
  by (induction rule: quiet_run.induct) (auto intro: quiet_run.intros)

lemma drives_quietly_run:
  "drives_quietly prog handler ms s \<Longrightarrow> quiet_run prog handler s (length ms) (drive prog handler ms s)"
proof (induction prog handler ms s rule: drives_quietly.induct)
  case (2 prog handler i j ms s)
  let ?x = "moves prog handler s i ! j"
  have "?x \<in> set (moves prog handler s i)" "?x = (Internal, snd ?x)" using 2(2) by (simp_all add: prod_eq_iff)
  then have "(Internal, snd ?x) \<in> set (moves prog handler s i)" by metis
  with 2(2) have "life_step prog handler s Internal (snd ?x)" by (intro life_step.run [of i]) simp_all
  with 2 show ?case by (auto intro: quiet_run_first)
qed (simp add: quiet_run.refl)

text \<open>A step is the signal, or a goroutine with a statement that has this effect.\<close>

lemma life_step_cases:
  assumes "life_step prog handler (sh, ts) l (sh', ts')"
  obtains "l = Input" "sh' = sh\<lparr>signalled := True\<rparr>" "ts' = ts"
  | i g st r push new where "i < length ts" "ts ! i = (g, st # r)"
    "(l, sh', push, new) \<in> set (effect handler (busy handler ts) st sh)"
    "ts' = ts[i := (g, push @ r)] @ map (\<lambda>g. (g, prog g)) new"
  using assms
proof (cases rule: life_step.cases)
  case (run i)
  obtain g x where "ts ! i = (g, x)" by fastforce
  with run that(2) [of i g] show ?thesis by (cases x) (auto simp: moves_def)
qed (use that in auto)

lemma life_stepI:
  assumes "i < length ts" and "ts ! i = (g, st # r)"
    and "(l, sh', push, new) \<in> set (effect handler (busy handler ts) st sh)"
  shows "life_step prog handler (sh, ts) l (sh', ts[i := (g, push @ r)] @ map (\<lambda>g. (g, prog g)) new)"
  using assms by (intro life_step.run [of i]) (force simp: moves_def)+

section \<open>Who owes a Done\<close>

text \<open>
  The Dones a goroutine has to do, as tokens: Add makes them, Go hands one to the goroutine it
  starts, Done takes one away. \<open>tokens strict r k\<close> is what is left of \<open>k\<close> after \<open>r\<close>, where \<open>strict\<close>
  also asks that a goroutine without a token has nothing to do, unless it is a request that its
  server still waits for.
\<close>

function tokens :: "bool \<Rightarrow> ('g, 'c) stmt list \<Rightarrow> nat \<Rightarrow> nat option" where
  "tokens strict [] k = Some k"
| "tokens strict (s # r) k =
     (if strict \<and> k = 0 \<and> \<not> unleft (s # r) then None
      else (case s of
              AddWg n \<Rightarrow> tokens strict r (k + n)
            | DoneWg \<Rightarrow> (if k = 0 then None else tokens strict r (k - 1))
            | Go g \<Rightarrow> (if k = 0 then None else tokens strict r (k - 1))
            | Loop gd b \<Rightarrow> (if tokens strict b k = Some k then tokens strict r k else None)
            | Either a b \<Rightarrow>
                (case tokens strict a k of
                   None \<Rightarrow> None
                 | Some k' \<Rightarrow> if tokens strict b k = Some k' then tokens strict r k' else None)
            | _ \<Rightarrow> tokens strict r k))"
  by pat_completeness auto

termination
  by (relation "measure (\<lambda>(_, r, _). size_list size r)") auto

lemma every_append [simp]: "every P (a @ b) \<longleftrightarrow> every P a \<and> every P b"
  by (induction P a rule: every.induct) (auto split: stmt.split)

lemma unleft_append [simp]: "unleft (a @ b) \<longleftrightarrow> unleft a \<or> unleft b"
  by (simp add: unleft_def)

lemma unleft_Nil [simp]: "\<not> unleft []"
  by (simp add: unleft_def)

lemma tokens_append:
  "tokens strict a k = Some k' \<Longrightarrow> tokens strict b k' = Some k'' \<Longrightarrow> tokens strict (a @ b) k = Some k''"
proof (induction strict a k arbitrary: k' rule: tokens.induct)
  case (2 strict s r k)
  have u: "unleft (s # r) \<Longrightarrow> unleft (s # r @ b)" using unleft_append [of "s # r" b] by simp
  show ?case
  proof (cases s)
    case (Either x y)
    with 2 u show ?thesis by (auto split: if_splits option.splits)
  qed (use 2 u in \<open>auto split: if_splits\<close>)
qed simp

lemma every_mem: "every P r \<Longrightarrow> s \<in> set r \<Longrightarrow> P s"
  by (induction P r rule: every.induct) auto

lemma every_mono: "every P r \<Longrightarrow> (\<And>s. P s \<Longrightarrow> Q s) \<Longrightarrow> every Q r"
  by (induction P r rule: every.induct) (auto split: stmt.splits)

lemma effect_every:
  "every P (st # r) \<Longrightarrow> (l, sh', push, new) \<in> set (effect handler bz st sh) \<Longrightarrow> every P (push @ r)"
  by (cases st) (auto split: if_splits)

text \<open>A step of a goroutine with \<open>k\<close> tokens: what it has then, what it hands on, what it counts.\<close>

lemma effect_tokens:
  assumes "tokens strict (st # r) k = Some 0" and "(l, sh', push, new) \<in> set (effect handler bz st sh)"
  shows "\<exists>k'. tokens strict (push @ r) k' = Some 0
    \<and> counter sh' + int k = counter sh + int (k' + (if \<exists>s. st = Serve s then 0 else length new))"
proof (cases st)
  case (AddWg n)
  with assms show ?thesis by (auto intro!: exI [of _ "k + n"] split: if_splits)
next
  case DoneWg
  with assms show ?thesis by (auto intro!: exI [of _ "k - 1"] split: if_splits)
next
  case (Go g)
  with assms show ?thesis by (auto intro!: exI [of _ "k - 1"] split: if_splits)
next
  case (Loop gd b)
  with assms(1) have b: "tokens strict b k = Some k" "tokens strict (st # r) k = Some 0" "tokens strict r k = Some 0"
    by (auto split: if_splits)
  with tokens_append [OF b(1,2)] assms(2) Loop show ?thesis
    by (intro exI [of _ k]) (auto split: if_splits)
next
  case (Either a b)
  with assms(1) obtain k' where b: "tokens strict a k = Some k'" "tokens strict b k = Some k'" "tokens strict r k' = Some 0"
    by (auto split: if_splits option.splits)
  from tokens_append [OF b(1,3)] tokens_append [OF b(2,3)] assms(2) Either show ?thesis
    by (intro exI [of _ k]) auto
qed (use assms in \<open>auto intro!: exI [of _ k] split: if_splits\<close>)

text \<open>
  How many internal steps statements can still take, with \<open>cost g\<close> for a goroutine that is started.
\<close>

function weight :: "('g \<Rightarrow> nat) \<Rightarrow> ('g, 'c) stmt list \<Rightarrow> nat" where
  "weight cost [] = 0"
| "weight cost (s # r) =
     (case s of
        Go g \<Rightarrow> Suc (cost g)
      | Either a b \<Rightarrow> Suc (weight cost a + weight cost b)
      | _ \<Rightarrow> 1) + weight cost r"
  by pat_completeness auto

termination
  by (relation "measure (\<lambda>(_, r). size_list size r)") auto

definition load :: "('g \<Rightarrow> nat) \<Rightarrow> ('g, 'c) life \<Rightarrow> nat" where
  "load cost s = sum_list (map (\<lambda>(g, r). weight cost r) (snd s))"

lemma weight_append [simp]: "weight cost (a @ b) = weight cost a + weight cost b"
  by (induction cost a rule: weight.induct) auto

lemma effect_weight:
  assumes "(Internal, sh', push, new) \<in> set (effect handler bz st sh)"
  shows "weight cost (push @ r) + sum_list (map cost new) < weight cost (st # r)"
  using assms by (cases st) (auto split: if_splits)

section \<open>The discipline\<close>

text \<open>
  \<open>prog\<close> gives the statements of a goroutine, \<open>handler\<close> the goroutine for a request of a server,
  \<open>drainer\<close> the one that shuts a server, \<open>closer\<close> the one that closes a channel. The servers in
  \<open>graceful\<close> wait for their requests without a time limit. \<open>allowed\<close> says who does what.
\<close>

definition allowed ::
    "(server \<Rightarrow> 'g) \<Rightarrow> ('c \<Rightarrow> 'g) \<Rightarrow> 'g \<Rightarrow> server set \<Rightarrow> 'g \<Rightarrow> ('g, 'c) stmt \<Rightarrow> bool" where
  "allowed handler closer main graceful g st \<longleftrightarrow>
     (case st of
        WaitWg \<Rightarrow> g = main
      | AwaitSignal \<Rightarrow> g = main
      | Cancel \<Rightarrow> g = main
      | Publish \<Rightarrow> g = main
      | Go g' \<Rightarrow> g' \<noteq> main \<and> g' \<notin> range handler
      | AwaitCancel \<Rightarrow> g \<noteq> main
      | AwaitPeer \<Rightarrow> g \<noteq> main
      | Drain s \<Rightarrow> g \<noteq> main \<and> g \<notin> range handler
      | Loop (UntilClosed c) b \<Rightarrow> g \<noteq> main \<and> g \<notin> range handler \<and> g \<notin> range closer
      | Loop gd b \<Rightarrow> g \<noteq> main
      | Leave \<Rightarrow> g \<in> range handler
      | _ \<Rightarrow> True)
     \<and> (g \<in> handler ` (- graceful) \<longrightarrow> st = Leave)"

locale wait_group =
  fixes prog :: "'g \<Rightarrow> ('g, 'c) stmt list"
    and handler :: "server \<Rightarrow> 'g"
    and drainer :: "server \<Rightarrow> 'g"
    and closer :: "'c \<Rightarrow> 'g"
    and main :: 'g
    and graceful :: "server set"
    and cost :: "'g \<Rightarrow> nat"
  assumes handlers: "inj handler" "main \<notin> range handler"
    and main_tokens: "tokens False (prog main) 0 = Some 0"
    and handler_tokens: "tokens True (prog (handler s)) 0 = Some 0"
    and goroutine_tokens: "g \<noteq> main \<Longrightarrow> g \<notin> range handler \<Longrightarrow> tokens True (prog g) 1 = Some 0"
    and all_allowed: "every (allowed handler closer main graceful g) (prog g)"
    and main_waits: "\<exists>pre. prog main = pre @ [WaitWg] \<and> Cancel \<in> set pre \<and> every (\<lambda>s. s \<noteq> WaitWg) pre"
    and drains: "s \<in> graceful \<Longrightarrow> Go (drainer s) \<in> set (prog main) \<and> Drain s \<in> set (prog (drainer s))"
    and closes: "Go (closer c) \<in> set (prog main) \<and> CloseChan c \<in> set (prog (closer c))"
    and costs: "weight cost (prog g) \<le> cost g"
begin

abbreviation may_do :: "'g \<Rightarrow> ('g, 'c) stmt \<Rightarrow> bool" where
  "may_do \<equiv> allowed handler closer main graceful"

text \<open>Every goroutine has tokens that fit its statements, and the counter is their sum.\<close>

definition balanced :: "('g, 'c) life \<Rightarrow> bool" where
  "balanced s \<longleftrightarrow> (\<exists>ks. list_all2 (\<lambda>(g, r) k. tokens (g \<noteq> main) r k = Some 0) (snd s) ks
     \<and> counter (fst s) = int (sum_list ks))"

text \<open>The first goroutine is main, and only it; WaitWg is its last statement.\<close>

definition main_ok :: "('g, 'c) life \<Rightarrow> bool" where
  "main_ok s \<longleftrightarrow> snd s \<noteq> [] \<and> fst (snd s ! 0) = main \<and> (\<forall>i < length (snd s). i \<noteq> 0 \<longrightarrow> fst (snd s ! i) \<noteq> main)
     \<and> (snd (snd s ! 0) = [] \<or> (\<exists>pre. snd (snd s ! 0) = pre @ [WaitWg] \<and> every (\<lambda>s. s \<noteq> WaitWg) pre))
     \<and> (Cancel \<in> set (snd (snd s ! 0)) \<or> cancelled (fst s))"

definition lawful :: "('g, 'c) life \<Rightarrow> bool" where
  "lawful s \<longleftrightarrow> (\<forall>(g, r) \<in> set (snd s). every (may_do g) r)"

text \<open>A statement of a goroutine that main starts is still to come, or has been done.\<close>

definition due :: "'g \<Rightarrow> ('g, 'c) stmt \<Rightarrow> bool \<Rightarrow> ('g, 'c) life \<Rightarrow> bool" where
  "due g st done s \<longleftrightarrow> Go g \<in> set (snd (snd s ! 0)) \<or> (\<exists>r. (g, r) \<in> set (snd s) \<and> st \<in> set r) \<or> done"

definition quiet :: "('g, 'c) life \<Rightarrow> bool" where
  "quiet s \<longleftrightarrow> (\<forall>v \<in> drainedServers (fst s). v \<in> shutServers (fst s) \<and> \<not> busy handler (snd s) v)"

definition settled :: "('g, 'c) life \<Rightarrow> bool" where
  "settled s \<longleftrightarrow> (\<forall>(g, r) \<in> set (snd s). r = [] \<or> g \<in> handler ` (- graceful))"

definition life_inv :: "('g, 'c) life \<Rightarrow> bool" where
  "life_inv s \<longleftrightarrow> balanced s \<and> main_ok s \<and> lawful s \<and> quiet s
     \<and> (\<forall>v \<in> graceful. due (drainer v) (Drain v) (v \<in> drainedServers (fst s)) s)
     \<and> (\<forall>c. due (closer c) (CloseChan c) (c \<in> closedChans (fst s)) s)
     \<and> (snd (snd s ! 0) = [] \<longrightarrow> settled s)"

lemma balanced_start: "balanced (start_life prog main ans)"
  using main_tokens by (auto simp: balanced_def start_life_def intro!: exI [of _ "[0]"])

lemma life_inv_start: "life_inv (start_life prog main ans)"
proof -
  have "lawful (start_life prog main ans)" "quiet (start_life prog main ans)"
    using all_allowed by (auto simp: lawful_def quiet_def start_life_def)
  moreover have "main_ok (start_life prog main ans)" "prog main \<noteq> []"
    using main_waits by (auto simp: main_ok_def start_life_def)
  ultimately show ?thesis
    using balanced_start drains closes by (auto simp: life_inv_def due_def start_life_def)
qed

end

section \<open>The discipline is kept\<close>

lemma effect_new:
  "(l, sh', push, new) \<in> set (effect handler bz st sh) \<Longrightarrow>
   new = [] \<or> (\<exists>g. st = Go g \<and> new = [g]) \<or> (\<exists>v. st = Serve v \<and> v \<notin> shutServers sh \<and> sh' = sh \<and> new = [handler v])"
  by (cases st) (auto split: if_splits)

lemma effect_mono:
  assumes "(l, sh', push, new) \<in> set (effect handler bz st sh)"
  shows "answers sh' = answers sh" "cancelled sh \<longrightarrow> cancelled sh'" "signalled sh \<longrightarrow> signalled sh'"
    "closedChans sh \<subseteq> closedChans sh'" "shutServers sh \<subseteq> shutServers sh'" "drainedServers sh \<subseteq> drainedServers sh'"
    "drainedServers sh' \<subseteq> drainedServers sh \<union> {v. st = Drain v \<and> v \<in> shutServers sh' \<and> \<not> bz v}"
  using assms by (cases st; auto split: if_splits)+

lemma sum_list_update_nat:
  "i < length ks \<Longrightarrow> sum_list (ks[i := k' :: nat]) + ks ! i = sum_list ks + k'"
  by (induction ks arbitrary: i) (auto split: nat.split)

lemma busy_step:
  assumes "busy handler (ts[i := (g, push @ r)] @ map (\<lambda>g. (g, prog g)) new) v"
    and "i < length ts" and "ts ! i = (g, st # r)" and "(l, sh', push, new) \<in> set (effect handler bz st sh)"
  shows "busy handler ts v \<or> handler v \<in> set new"
proof -
  have "unleft (push @ r) \<Longrightarrow> unleft (st # r)"
    using effect_every [OF _ assms(4), of "\<lambda>s. s \<noteq> Leave" r] unfolding unleft_def by blast
  moreover have "(g, st # r) \<in> set ts" using assms(2,3) nth_mem [of i ts] by simp
  moreover obtain r' where r': "(handler v, r') \<in> set (ts[i := (g, push @ r)] @ map (\<lambda>g. (g, prog g)) new)" "unleft r'"
    using assms(1) by (auto simp: busy_def)
  moreover have "(handler v, r') \<in> insert (g, push @ r) (set ts) \<or> handler v \<in> set new"
    using r'(1) set_update_subset_insert [of ts i "(g, push @ r)"] by auto
  ultimately show ?thesis unfolding busy_def by blast
qed

context wait_group
begin

lemma main_no_handler [simp]: "handler v \<noteq> main"
  using handlers(2) by (metis rangeI)

lemma balanced_step:
  assumes "balanced (sh, ts)" and "lawful (sh, ts)" and "i < length ts" and "ts ! i = (g, st # r)"
    and "(l, sh', push, new) \<in> set (effect handler (busy handler ts) st sh)"
  shows "balanced (sh', ts[i := (g, push @ r)] @ map (\<lambda>g. (g, prog g)) new)"
proof -
  from assms(1) obtain ks where ks: "list_all2 (\<lambda>(g, r) k. tokens (g \<noteq> main) r k = Some 0) ts ks"
    and cnt: "counter sh = int (sum_list ks)" by (auto simp: balanced_def)
  let ?n = "if \<exists>s. st = Serve s then 0 else 1 :: nat"
  have i: "i < length ks" using ks assms(3) by (simp add: list_all2_lengthD)
  have "tokens (g \<noteq> main) (st # r) (ks ! i) = Some 0"
    using list_all2_nthD [OF ks assms(3)] assms(4) by simp
  from effect_tokens [OF this assms(5)] obtain k' where k': "tokens (g \<noteq> main) (push @ r) k' = Some 0"
    and c: "counter sh' + int (ks ! i) = counter sh + int (k' + (if \<exists>s. st = Serve s then 0 else length new))" by blast
  let ?ks = "ks[i := k'] @ map (\<lambda>_. ?n) new"
  have "may_do g st" using assms(2,3,4) nth_mem [of i ts] by (auto simp: lawful_def)
  then have "list_all2 (\<lambda>(g, r) k. tokens (g \<noteq> main) r k = Some 0) (map (\<lambda>g. (g, prog g)) new) (map (\<lambda>_. ?n) new)"
    using effect_new [OF assms(5)] main_no_handler goroutine_tokens handler_tokens by (auto simp: allowed_def)
  moreover have "list_all2 (\<lambda>(g, r) k. tokens (g \<noteq> main) r k = Some 0) (ts[i := (g, push @ r)]) (ks[i := k'])"
    using k' by (intro list_all2_update_cong ks) simp
  ultimately have "list_all2 (\<lambda>(g, r) k. tokens (g \<noteq> main) r k = Some 0)
      (ts[i := (g, push @ r)] @ map (\<lambda>g. (g, prog g)) new) ?ks"
    by (rule list_all2_appendI [rotated])
  moreover have "sum_list (map (\<lambda>_. ?n) new) = (if \<exists>s. st = Serve s then 0 else length new)"
    by (simp add: sum_list_triv)
  then have "counter sh' = int (sum_list ?ks)"
    using c cnt sum_list_update_nat [OF i, of k'] by simp
  ultimately show ?thesis by (auto simp: balanced_def intro!: exI [of _ ?ks])
qed

lemma lawful_step:
  assumes "lawful (sh, ts)" and "i < length ts" and "ts ! i = (g, st # r)"
    and "(l, sh', push, new) \<in> set (effect handler (busy handler ts) st sh)"
  shows "lawful (sh', ts[i := (g, push @ r)] @ map (\<lambda>g. (g, prog g)) new)"
proof -
  have "every (may_do g) (st # r)" using assms(1-3) nth_mem [of i ts] by (fastforce simp: lawful_def)
  from effect_every [OF this assms(4)] have "every (may_do g) (push @ r)" .
  with assms(1) all_allowed show ?thesis
    by (auto simp: lawful_def dest: set_update_subset_insert [THEN subsetD])
qed

lemma quiet_step:
  assumes "quiet (sh, ts)" and "lawful (sh, ts)" and "i < length ts" and "ts ! i = (g, st # r)"
    and eff: "(l, sh', push, new) \<in> set (effect handler (busy handler ts) st sh)"
  shows "quiet (sh', ts[i := (g, push @ r)] @ map (\<lambda>g. (g, prog g)) new)"
proof -
  have "may_do g st" using assms(2,3,4) nth_mem [of i ts] by (auto simp: lawful_def)
  then have new: "handler v \<in> set new \<Longrightarrow> st = Serve v \<and> v \<notin> shutServers sh" for v
    using effect_new [OF eff] handlers by (auto simp: allowed_def inj_eq)
  have "v \<in> shutServers sh' \<and> \<not> busy handler (ts[i := (g, push @ r)] @ map (\<lambda>g. (g, prog g)) new) v"
    if v: "v \<in> drainedServers sh'" for v
  proof -
    from effect_mono(7) [OF eff] v have "v \<in> drainedServers sh \<or> st = Drain v \<and> v \<in> shutServers sh' \<and> \<not> busy handler ts v" by auto
    then have "v \<in> shutServers sh' \<and> \<not> busy handler ts v \<and> handler v \<notin> set new"
      using assms(1) effect_mono(5) [OF eff] new [of v] by (auto simp: quiet_def)
    with busy_step [OF _ assms(3,4) eff] show ?thesis by blast
  qed
  then show ?thesis by (simp add: quiet_def)
qed

lemma main_ok_step:
  assumes "main_ok (sh, ts)" and "lawful (sh, ts)" and i: "i < length ts" and ti: "ts ! i = (g, st # r)"
    and eff: "(l, sh', push, new) \<in> set (effect handler (busy handler ts) st sh)"
  shows "main_ok (sh', ts[i := (g, push @ r)] @ map (\<lambda>g. (g, prog g)) new)"
proof -
  have may: "may_do g st" using assms(2) i ti nth_mem [of i ts] by (auto simp: lawful_def)
  have new: "g' \<in> set new \<Longrightarrow> g' \<noteq> main" for g'
    using effect_new [OF eff] may handlers(2) by (auto simp: allowed_def)
  let ?ts = "ts[i := (g, push @ r)] @ map (\<lambda>g. (g, prog g)) new"
  have ts: "ts \<noteq> []" "fst (ts ! 0) = main" "\<And>j. j < length ts \<Longrightarrow> j \<noteq> 0 \<Longrightarrow> fst (ts ! j) \<noteq> main"
    using assms(1) by (auto simp: main_ok_def)
  have hd: "?ts ! 0 = (if i = 0 then (g, push @ r) else ts ! 0)" using ts(1) by (auto simp: nth_append)
  have "fst (?ts ! j) \<noteq> main" if j: "j < length ?ts" "j \<noteq> 0" for j
  proof (cases "j < length ts")
    case True
    with ts(3) [of j] j ti show ?thesis by (cases "i = j") (simp_all add: nth_append)
  next
    case False
    with j new [of "new ! (j - length ts)"] show ?thesis by (simp add: nth_append)
  qed
  moreover have "fst (?ts ! 0) = main" using hd ts(2) ti by (cases "i = 0") simp_all
  moreover have "snd (?ts ! 0) = [] \<or> (\<exists>pre. snd (?ts ! 0) = pre @ [WaitWg] \<and> every (\<lambda>s. s \<noteq> WaitWg) pre)"
  proof (cases "i = 0")
    case True
    with assms(1) ti obtain pre where pre: "st # r = pre @ [WaitWg]" "every (\<lambda>s. s \<noteq> WaitWg) pre"
      by (auto simp: main_ok_def)
    show ?thesis
    proof (cases pre)
      case Nil
      with pre(1) eff have "push @ r = []" by (auto split: if_splits)
      with True hd show ?thesis by simp
    next
      case (Cons x pre')
      with pre have x: "every (\<lambda>s. s \<noteq> WaitWg) (st # pre')" "r = pre' @ [WaitWg]" by auto
      from effect_every [OF x(1) eff] x(2) True hd show ?thesis
        by (intro disjI2 exI [of _ "push @ pre'"]) simp
    qed
  qed (use assms(1) hd in \<open>simp add: main_ok_def\<close>)
  moreover have "Cancel \<in> set (snd (?ts ! 0)) \<or> cancelled sh'"
  proof (cases "i = 0 \<and> st = Cancel")
    case True
    with eff show ?thesis by auto
  next
    case False
    have "Cancel \<in> set (snd (ts ! 0)) \<or> cancelled sh" using assms(1) by (simp add: main_ok_def)
    with False ti hd effect_mono(2) [OF eff] show ?thesis by (cases "i = 0") auto
  qed
  moreover have "?ts \<noteq> []" using ts(1) by simp
  ultimately show ?thesis unfolding main_ok_def fst_conv snd_conv by blast
qed

end


context wait_group
begin

lemma due_step:
  assumes "due g0 st0 d (sh, ts)" and "ts \<noteq> []" and i: "i < length ts" and ti: "ts ! i = (g, st # r)"
    and eff: "(l, sh', push, new) \<in> set (effect handler bz st sh)"
    and "st0 \<in> set (prog g0)" and "st = st0 \<Longrightarrow> d'" and "d \<Longrightarrow> d'"
  shows "due g0 st0 d' (sh', ts[i := (g, push @ r)] @ map (\<lambda>g. (g, prog g)) new)"
proof -
  let ?ts = "ts[i := (g, push @ r)] @ map (\<lambda>g. (g, prog g)) new"
  have hd: "?ts ! 0 = (if i = 0 then (g, push @ r) else ts ! 0)" using assms(2) by (auto simp: nth_append)
  have here: "(g, push @ r) \<in> set ?ts" using i set_update_memI [of i ts] by auto
  consider "Go g0 \<in> set (snd (ts ! 0))" | r0 where "(g0, r0) \<in> set ts" "st0 \<in> set r0" | d
    using assms(1) by (auto simp: due_def)
  then show ?thesis
  proof cases
    case 1
    show ?thesis
    proof (cases "i = 0 \<and> st = Go g0")
      case True
      with eff have "new = [g0]" by simp
      with assms(6) show ?thesis unfolding due_def snd_conv by auto
    next
      case False
      with 1 ti hd show ?thesis by (cases "i = 0") (auto simp: due_def)
    qed
  next
    case 2
    then obtain j where j: "j < length ts" "ts ! j = (g0, r0)" by (auto simp: in_set_conv_nth)
    show ?thesis
    proof (cases "j = i")
      case True
      with j ti 2(2) have "g0 = g" "st = st0 \<or> st0 \<in> set (push @ r)" by auto
      with assms(7) here show ?thesis unfolding due_def snd_conv by blast
    next
      case False
      with j have "(g0, r0) \<in> set ?ts" by (metis UnCI length_list_update nth_list_update_neq nth_mem set_append)
      with 2(2) show ?thesis unfolding due_def snd_conv by blast
    qed
  qed (use assms(8) in \<open>simp add: due_def\<close>)
qed

lemma leaves_handler:
  assumes "every (may_do g) r" and "unleft r"
  shows "g \<in> range handler"
proof (rule ccontr)
  assume "g \<notin> range handler"
  then have "may_do g s \<Longrightarrow> s \<noteq> Leave" for s by (auto simp: allowed_def)
  with every_mono [OF assms(1), of "\<lambda>s. s \<noteq> Leave"] assms(2) show False by (simp add: unleft_def)
qed

lemma no_tokens:
  assumes "balanced (sh, ts)" and "counter sh = 0" and "(g, r) \<in> set ts" and "g \<noteq> main"
  shows "r = [] \<or> unleft r"
proof -
  from assms(1) obtain ks where ks: "list_all2 (\<lambda>(g, r) k. tokens (g \<noteq> main) r k = Some 0) ts ks"
    and "counter sh = int (sum_list ks)" by (auto simp: balanced_def)
  with assms(2) have zero: "\<forall>k \<in> set ks. k = 0" by simp
  from assms(3) obtain i where "i < length ts" "ts ! i = (g, r)" by (auto simp: in_set_conv_nth)
  with list_all2_nthD [OF ks, of i] assms(4) have "tokens True r (ks ! i) = Some 0" by simp
  moreover have "ks ! i = 0" using zero \<open>i < length ts\<close> list_all2_lengthD [OF ks] by simp
  ultimately have "tokens True r 0 = Some 0" by simp
  then show ?thesis by (cases r) (auto split: if_splits)
qed

lemma wait_settles:
  assumes "life_inv (sh, ts)" and "snd (ts ! 0) = [WaitWg]" and "counter sh = 0" and "(g, r) \<in> set ts" and "g \<noteq> main"
  shows "r = [] \<or> g \<in> handler ` (- graceful)"
proof (rule ccontr)
  assume not: "\<not> ?thesis"
  have inv: "balanced (sh, ts)" "lawful (sh, ts)" "quiet (sh, ts)"
    "\<And>v. v \<in> graceful \<Longrightarrow> due (drainer v) (Drain v) (v \<in> drainedServers sh) (sh, ts)"
    using assms(1) by (auto simp: life_inv_def)
  note rest = no_tokens [OF inv(1) assms(3)]
  from rest [OF assms(4,5)] not have u: "unleft r" by simp
  moreover have "every (may_do g) r" using inv(2) assms(4) by (auto simp: lawful_def)
  ultimately obtain v where v: "g = handler v" using leaves_handler by blast
  with not have "v \<in> graceful" by auto
  from inv(4) [OF this] assms(2) consider r' where "(drainer v, r') \<in> set ts" "Drain v \<in> set r'" | "v \<in> drainedServers sh"
    by (auto simp: due_def)
  then show False
  proof cases
    case 1
    then have law: "every (may_do (drainer v)) r'" using inv(2) by (auto simp: lawful_def)
    with every_mem 1(2) have "may_do (drainer v) (Drain v)" by blast
    then have "drainer v \<noteq> main" "drainer v \<notin> range handler" by (simp_all add: allowed_def)
    with rest [OF 1(1)] leaves_handler [OF law] 1(2) show False by auto
  next
    case 2
    with inv(3) have "\<not> busy handler ts v" by (simp add: quiet_def)
    with assms(4) v u show False by (auto simp: busy_def)
  qed
qed

lemma settled_step:
  assumes inv: "life_inv (sh, ts)" and i: "i < length ts" and ti: "ts ! i = (g, st # r)"
    and eff: "(l, sh', push, new) \<in> set (effect handler (busy handler ts) st sh)"
    and ended: "snd ((ts[i := (g, push @ r)] @ map (\<lambda>g. (g, prog g)) new) ! 0) = []"
  shows "settled (sh', ts[i := (g, push @ r)] @ map (\<lambda>g. (g, prog g)) new)"
proof (cases "i = 0")
  case True
  have "snd (ts ! 0) = [] \<or> (\<exists>pre. snd (ts ! 0) = pre @ [WaitWg] \<and> every (\<lambda>s. s \<noteq> WaitWg) pre)"
    using inv by (simp add: life_inv_def main_ok_def)
  moreover from True ended i have "push = []" "r = []" by (auto simp: nth_append split: if_splits)
  ultimately have st: "st = WaitWg" "snd (ts ! 0) = [WaitWg]" using True ti by auto
  with eff have c: "counter sh = 0" "new = []" by (auto split: if_splits)
  have "x = [] \<or> h \<in> handler ` (- graceful)" if x: "(h, x) \<in> set (ts[0 := (g, [])])" for h x
  proof -
    from x obtain j where j: "j < length ts" "ts[0 := (g, [])] ! j = (h, x)" by (auto simp: in_set_conv_nth)
    show ?thesis
    proof (cases j)
      case 0
      with j show ?thesis by auto
    next
      case (Suc n)
      with j have "ts ! j = (h, x)" by simp
      with j(1) Suc inv nth_mem [of j ts] have "(h, x) \<in> set ts" "h \<noteq> main" by (fastforce simp: life_inv_def main_ok_def)+
      with wait_settles [OF inv st(2) c(1)] show ?thesis by blast
    qed
  qed
  with True c(2) \<open>push = []\<close> \<open>r = []\<close> show ?thesis unfolding settled_def by auto
next
  case False
  have "ts \<noteq> []" using i by auto
  with False ended have "snd (ts ! 0) = []" by (simp add: nth_append)
  with inv have set: "settled (sh, ts)" by (simp add: life_inv_def)
  have mem: "(g, st # r) \<in> set ts" using i ti nth_mem [of i ts] by simp
  with set have g: "g \<in> handler ` (- graceful)" by (auto simp: settled_def)
  moreover have "may_do g st" using inv mem by (auto simp: life_inv_def lawful_def)
  ultimately have "st = Leave" by (simp add: allowed_def)
  with eff have "new = []" by simp
  with set g show ?thesis
    by (auto simp: settled_def dest: set_update_subset_insert [THEN subsetD])
qed

lemma life_inv_step:
  assumes inv: "life_inv (sh, ts)" and "life_step prog handler (sh, ts) l (sh', ts')"
  shows "life_inv (sh', ts')"
  using assms(2)
proof (cases rule: life_step_cases)
  case 1
  with inv show ?thesis
    by (auto simp: life_inv_def balanced_def main_ok_def lawful_def quiet_def due_def settled_def)
next
  case (2 i g st r push new)
  note i = 2(1,2) and eff = 2(3) and ts' = 2(4)
  have parts: "balanced (sh, ts)" "main_ok (sh, ts)" "lawful (sh, ts)" "quiet (sh, ts)" "ts \<noteq> []"
    using inv by (auto simp: life_inv_def main_ok_def)
  have "due (drainer v) (Drain v) (v \<in> drainedServers sh') (sh', ts')" if v: "v \<in> graceful" for v
    unfolding ts'
  proof (rule due_step [OF _ parts(5) i eff])
    show "due (drainer v) (Drain v) (v \<in> drainedServers sh) (sh, ts)" using inv v by (simp add: life_inv_def)
    show "st = Drain v \<Longrightarrow> v \<in> drainedServers sh'" using eff by (auto split: if_splits)
  qed (use drains [OF v] effect_mono(6) [OF eff] in auto)
  moreover have "due (closer c) (CloseChan c) (c \<in> closedChans sh') (sh', ts')" for c
    unfolding ts'
  proof (rule due_step [OF _ parts(5) i eff])
    show "due (closer c) (CloseChan c) (c \<in> closedChans sh) (sh, ts)" using inv by (simp add: life_inv_def)
    show "st = CloseChan c \<Longrightarrow> c \<in> closedChans sh'" using eff by auto
  qed (use closes [of c] effect_mono(4) [OF eff] in auto)
  moreover have "snd (ts' ! 0) = [] \<longrightarrow> settled (sh', ts')"
    unfolding ts' using settled_step [OF inv i eff] by blast
  ultimately show ?thesis
    unfolding life_inv_def fst_conv snd_conv ts'
    using balanced_step [OF parts(1,3) i eff] main_ok_step [OF parts(2,3) i eff]
      lawful_step [OF parts(3) i eff] quiet_step [OF parts(4,3) i eff] by blast
qed

lemma life_inv_run: "life_run prog handler s s' \<Longrightarrow> life_inv s \<Longrightarrow> life_inv s'"
proof (induction rule: life_run.induct)
  case (step s' l s'')
  then show ?case by (cases s'; cases s'') (auto intro: life_inv_step)
qed

end

section \<open>The end\<close>

text \<open>With no input and no internal step left, a statement waits for one of these.\<close>

lemma effect_blocked:
  assumes "\<forall>x \<in> set (effect handler bz st sh). fst x \<noteq> Internal"
  shows "(st = WaitWg \<and> counter sh \<noteq> 0) \<or> (st = AwaitSignal \<and> \<not> signalled sh) \<or> (st = AwaitCancel \<and> \<not> cancelled sh)
    \<or> (st = AwaitPeer \<and> \<not> answers sh) \<or> (\<exists>v. st = Drain v \<and> bz v)
    \<or> (\<exists>b. st = Loop UntilCancelled b \<and> \<not> cancelled sh) \<or> (\<exists>c b. st = Loop (UntilClosed c) b \<and> c \<notin> closedChans sh)"
proof (cases st)
  case (Loop gd b)
  with assms show ?thesis by (cases gd) (auto split: if_splits)
qed (use assms in \<open>auto split: if_splits\<close>)

lemma life_run_answers: "life_run prog handler s s' \<Longrightarrow> answers (fst s') = answers (fst s)"
proof (induction rule: life_run.induct)
  case (step s' l s'')
  obtain sh' ts' sh'' ts'' where "s' = (sh', ts')" "s'' = (sh'', ts'')" by fastforce
  with step show ?case by (auto elim!: life_step_cases dest: effect_mono(1))
qed simp

lemma quiet_run_signalled: "quiet_run prog handler s n s' \<Longrightarrow> signalled (fst s) \<Longrightarrow> signalled (fst s')"
proof (induction rule: quiet_run.induct)
  case (step n s' s'')
  obtain sh' ts' sh'' ts'' where "s' = (sh', ts')" "s'' = (sh'', ts'')" by fastforce
  with step show ?case by (auto elim!: life_step_cases dest: effect_mono(3))
qed simp

context wait_group
begin

lemma load_step:
  assumes "life_step prog handler s Internal s'"
  shows "load cost s' < load cost s"
proof -
  obtain sh ts sh' ts' where s: "s = (sh, ts)" "s' = (sh', ts')" by fastforce
  with assms have "life_step prog handler (sh, ts) Internal (sh', ts')" by simp
  then show ?thesis
  proof (cases rule: life_step_cases)
    case (2 i g st r push new)
    have "sum_list (map (\<lambda>g. weight cost (prog g)) new) \<le> sum_list (map cost new)"
      using costs by (intro sum_list_mono)
    moreover have "sum_list (map (\<lambda>(g, r). weight cost r) (ts[i := (g, push @ r)])) + weight cost (st # r)
        = sum_list (map (\<lambda>(g, r). weight cost r) ts) + weight cost (push @ r)"
      using sum_list_update_nat [of i "map (\<lambda>(g, r). weight cost r) ts" "weight cost (push @ r)"] 2(1,2)
      by (simp add: map_update del: weight.simps)
    moreover have "load cost s' = sum_list (map (\<lambda>(g, r). weight cost r) (ts[i := (g, push @ r)]))
        + sum_list (map (\<lambda>g. weight cost (prog g)) new)"
      unfolding s load_def snd_conv 2(4) by (simp add: comp_def)
    moreover have "load cost s = sum_list (map (\<lambda>(g, r). weight cost r) ts)" by (simp add: s load_def)
    ultimately show ?thesis using effect_weight [OF 2(3), of cost r] by linarith
  qed simp
qed

lemma quiet_run_load: "quiet_run prog handler s n s' \<Longrightarrow> n + load cost s' \<le> load cost s"
  by (induction rule: quiet_run.induct) (auto dest: load_step)

lemma stuck_over:
  assumes inv: "life_inv (sh, ts)" and "signalled sh" and "answers sh"
    and stuck: "\<And>s'. \<not> life_step prog handler (sh, ts) Internal s'"
  shows "over (sh, ts)"
proof -
  have law: "every (may_do g) r" if "(g, r) \<in> set ts" for g r
    using inv that by (auto simp: life_inv_def lawful_def)
  have blocked: "(st = WaitWg \<and> counter sh \<noteq> 0) \<or> (st = AwaitCancel \<and> \<not> cancelled sh)
    \<or> (\<exists>v. st = Drain v \<and> busy handler ts v)
    \<or> (\<exists>b. st = Loop UntilCancelled b \<and> \<not> cancelled sh) \<or> (\<exists>c b. st = Loop (UntilClosed c) b \<and> c \<notin> closedChans sh)"
    if "(g, st # r) \<in> set ts" for g st r
  proof -
    from that obtain i where "i < length ts" "ts ! i = (g, st # r)" by (auto simp: in_set_conv_nth)
    with life_stepI [of i ts] stuck have "(Internal, sh', push, new) \<notin> set (effect handler (busy handler ts) st sh)"
      for sh' push new by blast
    then have "\<forall>x \<in> set (effect handler (busy handler ts) st sh). fst x \<noteq> Internal" by auto
    with effect_blocked [of handler "busy handler ts" st sh] assms(2,3) show ?thesis by blast
  qed
  have may: "may_do g st" if "(g, st # r) \<in> set ts" for g st r using law [OF that] by simp
  obtain r0 where r0: "ts ! 0 = (main, r0)" "(main, r0) \<in> set ts"
    using inv nth_mem [of 0 ts] by (cases "ts ! 0") (auto simp: life_inv_def main_ok_def)
  have main: "r0 = [] \<or> r0 = [WaitWg] \<and> counter sh \<noteq> 0"
  proof (cases r0)
    case (Cons st r)
    with blocked [of main st r] may [of main st r] r0(2) have "st = WaitWg" "counter sh \<noteq> 0"
      by (auto simp: allowed_def)
    moreover from inv r0(1) Cons obtain pre where "st # r = pre @ [WaitWg]" "every (\<lambda>s. s \<noteq> WaitWg) pre"
      by (auto simp: life_inv_def main_ok_def)
    ultimately show ?thesis using Cons by (cases pre) auto
  qed simp
  then have cancelled: "cancelled sh" and no_go: "Go g \<notin> set (snd (ts ! 0))" for g
    using inv r0(1) by (auto simp: life_inv_def main_ok_def)
  have handlers_end: "r = []" if "(handler v, r) \<in> set ts" for v r
  proof (cases r)
    case (Cons st r')
    with that blocked [of "handler v" st r'] may [of "handler v" st r'] cancelled show ?thesis
      by (auto simp: allowed_def)
  qed
  have idle: "\<not> busy handler ts v" for v using handlers_end [of v] by (force simp: busy_def)
  have ends: "r = []" if "(g, r) \<in> set ts" "g \<noteq> main" "g \<in> range closer \<or> (\<forall>c. c \<in> closedChans sh)" for g r
  proof (cases r)
    case (Cons st r')
    with that blocked [of g st r'] may [of g st r'] cancelled idle show ?thesis by (auto simp: allowed_def)
  qed
  have closed: "c \<in> closedChans sh" for c
  proof (rule ccontr)
    assume "c \<notin> closedChans sh"
    moreover have "due (closer c) (CloseChan c) (c \<in> closedChans sh) (sh, ts)" using inv by (simp add: life_inv_def)
    ultimately obtain r where r: "(closer c, r) \<in> set ts" "CloseChan c \<in> set r"
      using no_go by (auto simp: due_def)
    from closes [of c] have "may_do main (Go (closer c))" using all_allowed [of main] every_mem by blast
    then have "closer c \<noteq> main" by (simp add: allowed_def)
    with ends [OF r(1)] r(2) show False by auto
  qed
  then have others: "r = []" if "(g, r) \<in> set ts" "g \<noteq> main" for g r using ends that by blast
  have "r0 = []"
  proof (rule ccontr)
    assume "r0 \<noteq> []"
    with main have wait: "r0 = [WaitWg]" "counter sh \<noteq> 0" by auto
    from inv obtain ks where ks: "list_all2 (\<lambda>(g, r) k. tokens (g \<noteq> main) r k = Some 0) ts ks"
      and cnt: "counter sh = int (sum_list ks)" by (auto simp: life_inv_def balanced_def)
    have "ks ! i = 0" if "i < length ks" for i
    proof -
      have i: "i < length ts" using that list_all2_lengthD [OF ks] by simp
      obtain g r where gr: "ts ! i = (g, r)" "(g, r) \<in> set ts" using i nth_mem [of i ts] by (cases "ts ! i") auto
      have t: "tokens (g \<noteq> main) r (ks ! i) = Some 0" using list_all2_nthD [OF ks i] gr(1) by simp
      show ?thesis
      proof (cases "g = main")
        case True
        with inv gr(1) i have "i = 0" by (auto simp: life_inv_def main_ok_def)
        with gr(1) r0(1) wait(1) have "r = [WaitWg]" by simp
        with t True show ?thesis by simp
      next
        case False
        from others [OF gr(2) False] t False show ?thesis by simp
      qed
    qed
    then have "sum_list ks = 0" by (metis in_set_conv_nth sum_list_eq_0_iff)
    with cnt wait(2) show False by simp
  qed
  have "r = []" if "(g, r) \<in> set ts" for g r
  proof (cases "g = main")
    case True
    from that obtain i where i: "i < length ts" "ts ! i = (g, r)" by (auto simp: in_set_conv_nth)
    with inv True have "i = 0" by (auto simp: life_inv_def main_ok_def)
    with i r0(1) \<open>r0 = []\<close> show ?thesis by simp
  next
    case False
    from others [OF that False] show ?thesis .
  qed
  then show ?thesis by (auto simp: over_def)
qed

text \<open>The three theorems of the discipline, on the runs from the start.\<close>

lemma main_returns_last:
  assumes "life_run prog handler (start_life prog main ans) s"
  shows "0 \<le> counter (fst s) \<and> (has_returned main s \<longrightarrow> settled s)"
proof -
  have inv: "life_inv s" using life_inv_run [OF assms life_inv_start] .
  then have "0 \<le> counter (fst s)" by (auto simp: life_inv_def balanced_def)
  moreover have "settled s" if "has_returned main s"
  proof -
    from that obtain i where i: "i < length (snd s)" "snd s ! i = (main, [])" by (auto simp: has_returned_def in_set_conv_nth)
    with inv have "i = 0" by (auto simp: life_inv_def main_ok_def)
    with inv i show ?thesis by (simp add: life_inv_def)
  qed
  ultimately show ?thesis by blast
qed

lemma shutdown_ends:
  assumes "life_run prog handler (start_life prog main True) s" and "signalled (fst s)" and "quiet_run prog handler s n s'"
  shows "n \<le> load cost s \<and> (over s' \<or> (\<exists>s''. life_step prog handler s' Internal s''))"
proof -
  have r: "life_run prog handler (start_life prog main True) s'"
    using life_run_trans [OF quiet_run_run [OF assms(3)] assms(1)] .
  obtain sh ts where s': "s' = (sh, ts)" by fastforce
  have "life_inv (sh, ts)" "signalled sh" "answers sh"
    using life_inv_run [OF r life_inv_start] quiet_run_signalled [OF assms(3,2)] life_run_answers [OF r] s'
    by (simp_all add: start_life_def)
  with stuck_over [of sh ts] quiet_run_load [OF assms(3)] s' show ?thesis by fastforce
qed

lemma silent_peer_blocks:
  assumes "life_run prog handler (start_life prog main False) s" and "(g, AwaitPeer # r) \<in> set (snd s)"
    and "life_run prog handler s s'"
  shows "\<not> has_returned main s'"
proof -
  have silent: "\<not> answers (fst s)" using life_run_answers [OF assms(1)] by (simp add: start_life_def)
  from assms(3) have waits: "(g, AwaitPeer # r) \<in> set (snd s')"
  proof (induction rule: life_run.induct)
    case (step s1 l s2)
    obtain sh1 ts1 sh2 ts2 where s12: "s1 = (sh1, ts1)" "s2 = (sh2, ts2)" by fastforce
    with step.hyps(2) have "life_step prog handler (sh1, ts1) l (sh2, ts2)" by simp
    then show ?case
    proof (cases rule: life_step_cases)
      case (2 i h st rr push new)
      have "\<not> answers sh1" using life_run_answers [OF step.hyps(1)] silent s12 by simp
      with 2(3) have "st \<noteq> AwaitPeer" by auto
      moreover from step.IH s12 obtain j where j: "j < length ts1" "ts1 ! j = (g, AwaitPeer # r)"
        by (auto simp: in_set_conv_nth)
      ultimately have "i \<noteq> j" using 2(2) by auto
      with j have "ts1[i := (h, push @ rr)] ! j = (g, AwaitPeer # r)" by simp
      with j(1) have "(g, AwaitPeer # r) \<in> set (ts1[i := (h, push @ rr)])" by (metis length_list_update nth_mem)
      with 2(4) s12 show ?thesis by simp
    qed (use step.IH s12 in simp)
  qed (use assms(2) in simp)
  have run: "life_run prog handler (start_life prog main False) s'" using life_run_trans [OF assms(3,1)] .
  have "may_do g AwaitPeer"
    using life_inv_run [OF run life_inv_start] waits by (auto simp: life_inv_def lawful_def)
  then have "g \<notin> handler ` (- graceful)" by (auto simp: allowed_def)
  with waits have "\<not> settled s'" by (auto simp: settled_def)
  with main_returns_last [OF run] show ?thesis by blast
qed

end

end
