(* ===== verification/Shutdown.thy ===== *)
theory Shutdown
  imports Lifecycle
begin

text \<open>
  The goroutines of both programs, from their start in main to the end of the process: the
  statements of every function that starts a goroutine, is one, or waits for one. Both programs
  obey the discipline of \<open>Lifecycle\<close>.
\<close>

section \<open>The edge router\<close>

datatype edge_task = EdgeMain | EdgeStart_task | EdgeListener | EdgeGC | EdgeIncoming | EdgeOutgoing
  | EdgeSession | EdgeCheckNew | EdgeMetrics | EdgePrometheus | EdgePrometheusListener | EdgeScrape
  | EdgeHealth | EdgeHealthListener | EdgeHealthRequest

datatype edge_chan = OutgoingChannel

type_synonym edge_stmts = "(edge_task, edge_chan) stmt list"

text \<open>The garbage collection, the metrics, the notifications of a session.\<close>

definition messageGC_life :: edge_stmts where
  "messageGC_life = [Loop UntilCancelled [], DoneWg]"

definition recordMetrics_life :: edge_stmts where
  "recordMetrics_life = [Loop UntilCancelled [], DoneWg]"

definition CheckNewMessages_life :: "('g, 'c) stmt list" where
  "CheckNewMessages_life = [Loop UntilEndedOrCancelled [], DoneWg]"

text \<open>The goroutine of the listener; whether with TLS or without, it serves and is done.\<close>

definition listen_life :: edge_stmts where
  "listen_life = [Serve Websockets, DoneWg]"

text \<open>
  The two other servers with the goroutines of their listeners; \<open>wg.Go\<close> is Add, go and a Done at the
  end. The health server gives its requests five seconds. A request of either is answered by one
  handler.
\<close>

definition serve_metrics_life :: edge_stmts where
  "serve_metrics_life = [Serve PrometheusServer, DoneWg]"

definition runPrometheusMetricsServer_life :: edge_stmts where
  "runPrometheusMetricsServer_life =
     [AddWg 1, Go EdgePrometheusListener, AwaitCancel, Shut PrometheusServer, Drain PrometheusServer, DoneWg]"

definition serve_health_life :: edge_stmts where
  "serve_health_life = [Serve HealthServer, DoneWg]"

definition runHealthServer_life :: edge_stmts where
  "runHealthServer_life =
     [AddWg 1, Go EdgeHealthListener, AwaitCancel, Shut HealthServer, Either [Drain HealthServer] [], DoneWg]"

definition request_life :: "('g, 'c) stmt list" where
  "request_life = [Leave]"

text \<open>The answer of the health server to \<open>/health\<close>: header, status, body.\<close>

record http_response =
  header :: "(string \<times> string) list"
  status :: nat
  body :: bytes

definition healthResponse :: http_response where
  "healthResponse = \<lparr>header = [(''Content-Type'', ''application/json'')], status = 200,
     body = ''{\"status\":\"healthy\"}''\<rparr>"

text \<open>The old connection answers a ping, or a router is looked for until the context ends.\<close>

definition TryConnectRouter_life :: edge_stmts where
  "TryConnectRouter_life = [Either [] [Loop UntilEndedOrCancelled []]]"

definition handleIncomingMessages_life :: edge_stmts where
  "handleIncomingMessages_life = [Loop UntilCancelled [Either [] TryConnectRouter_life], DoneWg]"

definition handleOutgoingMessages_life :: edge_stmts where
  "handleOutgoingMessages_life =
     [Loop UntilCancelled [Loop (UntilClosed OutgoingChannel) [Either [] TryConnectRouter_life]], DoneWg]"

text \<open>
  A connection: Accept fails, or the connection becomes a websocket and is refused, or it gets a
  session with a goroutine for its notifications.
\<close>

definition session_life :: edge_stmts where
  "session_life = [AddWg 1, Go EdgeCheckNew, Loop UntilEnded []]"

definition handleHttpConnection_life :: edge_stmts where
  "handleHttpConnection_life =
     [AddWg 1, Either [DoneWg, Leave] [Leave, Either [] session_life, DoneWg]]"

text \<open>
  StartEdgeRouter. On the connection to the router, if there is one, it waits for the answer to its
  Disconnect and for the end of the connection, with a context of their own that does not end.
\<close>

definition StartEdgeRouter_life :: edge_stmts where
  "StartEdgeRouter_life =
     [AddWg 2, Go EdgeListener, Go EdgeGC, AddWg 2, Go EdgeIncoming, Go EdgeOutgoing,
      AwaitCancel, Either [] [AwaitPeer, AwaitPeer], Shut Websockets, Drain Websockets,
      CloseChan OutgoingChannel, DoneWg]"

definition runWithStderr_life :: edge_stmts where
  "runWithStderr_life =
     [AddWg 1, Go EdgeStart_task, AddWg 2, Go EdgeMetrics, Go EdgePrometheus, AddWg 1, Go EdgeHealth,
      Publish, AwaitSignal, Cancel, WaitWg]"

fun edge_prog :: "edge_task \<Rightarrow> edge_stmts" where
  "edge_prog EdgeMain = runWithStderr_life"
| "edge_prog EdgeStart_task = StartEdgeRouter_life"
| "edge_prog EdgeListener = listen_life"
| "edge_prog EdgeGC = messageGC_life"
| "edge_prog EdgeIncoming = handleIncomingMessages_life"
| "edge_prog EdgeOutgoing = handleOutgoingMessages_life"
| "edge_prog EdgeSession = handleHttpConnection_life"
| "edge_prog EdgeCheckNew = CheckNewMessages_life"
| "edge_prog EdgeMetrics = recordMetrics_life"
| "edge_prog EdgePrometheus = runPrometheusMetricsServer_life"
| "edge_prog EdgePrometheusListener = serve_metrics_life"
| "edge_prog EdgeScrape = request_life"
| "edge_prog EdgeHealth = runHealthServer_life"
| "edge_prog EdgeHealthListener = serve_health_life"
| "edge_prog EdgeHealthRequest = request_life"

fun edge_handler :: "server \<Rightarrow> edge_task" where
  "edge_handler Websockets = EdgeSession"
| "edge_handler PrometheusServer = EdgeScrape"
| "edge_handler HealthServer = EdgeHealthRequest"

fun edge_drainer :: "server \<Rightarrow> edge_task" where
  "edge_drainer Websockets = EdgeStart_task"
| "edge_drainer PrometheusServer = EdgePrometheus"
| "edge_drainer HealthServer = EdgeHealth"

text \<open>The statements a goroutine and those it starts can still take, without input.\<close>

fun edge_cost :: "edge_task \<Rightarrow> nat" where
  "edge_cost EdgeMain = 60"
| "edge_cost EdgeStart_task = 24"
| "edge_cost EdgeSession = 15"
| "edge_cost EdgePrometheus = 8"
| "edge_cost EdgeHealth = 9"
| "edge_cost EdgeScrape = 1"
| "edge_cost EdgeHealthRequest = 1"
| "edge_cost _ = 2"

lemmas life_defs = messageGC_life_def recordMetrics_life_def CheckNewMessages_life_def listen_life_def
  serve_metrics_life_def runPrometheusMetricsServer_life_def serve_health_life_def runHealthServer_life_def
  request_life_def TryConnectRouter_life_def handleIncomingMessages_life_def handleOutgoingMessages_life_def
  session_life_def handleHttpConnection_life_def StartEdgeRouter_life_def runWithStderr_life_def

lemma server_UNIV: "(UNIV :: server set) = {Websockets, PrometheusServer, HealthServer}"
  by (auto intro: server.exhaust)

lemma edge_handlers: "range edge_handler = {EdgeSession, EdgeScrape, EdgeHealthRequest}"
  "edge_handler ` (- {Websockets, PrometheusServer}) = {EdgeHealthRequest}"
proof -
  show "range edge_handler = {EdgeSession, EdgeScrape, EdgeHealthRequest}" by (simp add: server_UNIV)
  have "- {Websockets, PrometheusServer} = {HealthServer}" using server_UNIV by auto
  then show "edge_handler ` (- {Websockets, PrometheusServer}) = {EdgeHealthRequest}" by simp
qed

interpretation edge_life: wait_group edge_prog edge_handler edge_drainer "\<lambda>_. EdgeStart_task" EdgeMain
  "{Websockets, PrometheusServer}" edge_cost
proof
  show "inj edge_handler" by (rule injI) (metis edge_handler.elims edge_task.distinct)
  show "EdgeMain \<notin> range edge_handler" by (simp add: edge_handlers)
  show "tokens False (edge_prog EdgeMain) 0 = Some 0" by (simp add: life_defs)
  show "tokens True (edge_prog (edge_handler s)) 0 = Some 0" for s
    by (cases s) (simp_all add: life_defs unleft_def)
  show "g \<noteq> EdgeMain \<Longrightarrow> g \<notin> range edge_handler \<Longrightarrow> tokens True (edge_prog g) 1 = Some 0" for g
    by (cases g) (simp_all add: edge_handlers life_defs)
  show "every (allowed edge_handler (\<lambda>_. EdgeStart_task) EdgeMain {Websockets, PrometheusServer} g) (edge_prog g)" for g
    by (cases g) (simp_all add: life_defs allowed_def edge_handlers)
  show "\<exists>pre. edge_prog EdgeMain = pre @ [WaitWg] \<and> Cancel \<in> set pre \<and> every (\<lambda>s. s \<noteq> WaitWg) pre"
    by (rule exI [of _ "butlast runWithStderr_life"]) (simp add: life_defs)
  show "s \<in> {Websockets, PrometheusServer} \<Longrightarrow>
      Go (edge_drainer s) \<in> set (edge_prog EdgeMain) \<and> Drain s \<in> set (edge_prog (edge_drainer s))" for s
    by (auto simp: life_defs)
  show "Go EdgeStart_task \<in> set (edge_prog EdgeMain) \<and> CloseChan c \<in> set (edge_prog EdgeStart_task)" for c
    by (cases c) (simp add: life_defs)
  show "weight edge_cost (edge_prog g) \<le> edge_cost g" for g
    by (cases g) (simp_all add: life_defs)
qed

section \<open>The router\<close>

datatype router_task = RouterMain | RouterStart_task | RouterListener | RouterGC | RouterIncoming
  | RouterOutgoing | RouterSession | RouterCheckNew | RouterTopic | RouterMetrics | RouterPrometheus
  | RouterPrometheusListener | RouterScrape | RouterHealth | RouterHealthListener | RouterHealthRequest

datatype router_chan = Incoming_R | Outgoing_R

type_synonym router_stmts = "(router_task, router_chan) stmt list"

definition messageGC_R_life :: router_stmts where
  "messageGC_R_life = [Loop UntilCancelled [], DoneWg]"

definition recordMetrics_R_life :: router_stmts where
  "recordMetrics_R_life = [Loop UntilCancelled [], DoneWg]"

definition listen_R_life :: router_stmts where
  "listen_R_life = [Serve Websockets, DoneWg]"

definition serve_metrics_R_life :: router_stmts where
  "serve_metrics_R_life = [Serve PrometheusServer, DoneWg]"

definition runPrometheusMetricsServer_R_life :: router_stmts where
  "runPrometheusMetricsServer_R_life =
     [AddWg 1, Go RouterPrometheusListener, AwaitCancel, Shut PrometheusServer, Drain PrometheusServer, DoneWg]"

definition serve_health_R_life :: router_stmts where
  "serve_health_R_life = [Serve HealthServer, DoneWg]"

definition runHealthServer_R_life :: router_stmts where
  "runHealthServer_R_life =
     [AddWg 1, Go RouterHealthListener, AwaitCancel, Shut HealthServer, Either [Drain HealthServer] [], DoneWg]"

definition healthResponse_R :: http_response where
  "healthResponse_R = \<lparr>header = [(''Content-Type'', ''application/json'')], status = 200,
     body = ''{\"status\":\"healthy\"}''\<rparr>"

definition handleIncomingMessages_R_life :: router_stmts where
  "handleIncomingMessages_R_life = [Loop UntilCancelled [Loop (UntilClosed Incoming_R) []], DoneWg]"

definition handleOutgoingMessages_R_life :: router_stmts where
  "handleOutgoingMessages_R_life = [Loop UntilCancelled [Loop (UntilClosed Outgoing_R) []], DoneWg]"

definition handleSubscription_life :: router_stmts where
  "handleSubscription_life = [Loop UntilCancelled [], DoneWg]"

text \<open>The first subscriber of a subject starts a reader of its topic.\<close>

definition handleSubscribe_R_life :: router_stmts where
  "handleSubscribe_R_life = [Either [] [AddWg 1, Go RouterTopic]]"

definition session_R_life :: router_stmts where
  "session_R_life = [AddWg 1, Go RouterCheckNew, Loop UntilEnded [Either [] handleSubscribe_R_life]]"

definition handleHttpConnection_R_life :: router_stmts where
  "handleHttpConnection_R_life =
     [AddWg 1, Either [DoneWg, Leave] [Leave, Either [] session_R_life, DoneWg]]"

definition StartRouter_life :: router_stmts where
  "StartRouter_life =
     [AddWg 4, Go RouterListener, Go RouterIncoming, Go RouterOutgoing, Go RouterGC, AwaitCancel,
      CloseChan Incoming_R, CloseChan Outgoing_R, Shut Websockets, Drain Websockets, DoneWg]"

definition main_R_life :: router_stmts where
  "main_R_life =
     [AddWg 2, Go RouterMetrics, Go RouterPrometheus, AddWg 1, Go RouterHealth, AddWg 1, Go RouterStart_task,
      AwaitSignal, Cancel, WaitWg]"

fun router_prog :: "router_task \<Rightarrow> router_stmts" where
  "router_prog RouterMain = main_R_life"
| "router_prog RouterStart_task = StartRouter_life"
| "router_prog RouterListener = listen_R_life"
| "router_prog RouterGC = messageGC_R_life"
| "router_prog RouterIncoming = handleIncomingMessages_R_life"
| "router_prog RouterOutgoing = handleOutgoingMessages_R_life"
| "router_prog RouterSession = handleHttpConnection_R_life"
| "router_prog RouterCheckNew = CheckNewMessages_life"
| "router_prog RouterTopic = handleSubscription_life"
| "router_prog RouterMetrics = recordMetrics_R_life"
| "router_prog RouterPrometheus = runPrometheusMetricsServer_R_life"
| "router_prog RouterPrometheusListener = serve_metrics_R_life"
| "router_prog RouterScrape = request_life"
| "router_prog RouterHealth = runHealthServer_R_life"
| "router_prog RouterHealthListener = serve_health_R_life"
| "router_prog RouterHealthRequest = request_life"

fun router_handler :: "server \<Rightarrow> router_task" where
  "router_handler Websockets = RouterSession"
| "router_handler PrometheusServer = RouterScrape"
| "router_handler HealthServer = RouterHealthRequest"

fun router_drainer :: "server \<Rightarrow> router_task" where
  "router_drainer Websockets = RouterStart_task"
| "router_drainer PrometheusServer = RouterPrometheus"
| "router_drainer HealthServer = RouterHealth"

fun router_cost :: "router_task \<Rightarrow> nat" where
  "router_cost RouterMain = 60"
| "router_cost RouterStart_task = 24"
| "router_cost RouterSession = 15"
| "router_cost RouterPrometheus = 8"
| "router_cost RouterHealth = 9"
| "router_cost RouterScrape = 1"
| "router_cost RouterHealthRequest = 1"
| "router_cost _ = 2"

lemmas life_defs_R = messageGC_R_life_def recordMetrics_R_life_def CheckNewMessages_life_def listen_R_life_def
  serve_metrics_R_life_def runPrometheusMetricsServer_R_life_def serve_health_R_life_def runHealthServer_R_life_def
  request_life_def handleIncomingMessages_R_life_def handleOutgoingMessages_R_life_def handleSubscription_life_def
  handleSubscribe_R_life_def session_R_life_def handleHttpConnection_R_life_def StartRouter_life_def main_R_life_def

lemma router_handlers: "range router_handler = {RouterSession, RouterScrape, RouterHealthRequest}"
  "router_handler ` (- {Websockets, PrometheusServer}) = {RouterHealthRequest}"
proof -
  show "range router_handler = {RouterSession, RouterScrape, RouterHealthRequest}" by (simp add: server_UNIV)
  have "- {Websockets, PrometheusServer} = {HealthServer}" using server_UNIV by auto
  then show "router_handler ` (- {Websockets, PrometheusServer}) = {RouterHealthRequest}" by simp
qed

interpretation router_life: wait_group router_prog router_handler router_drainer "\<lambda>_. RouterStart_task" RouterMain
  "{Websockets, PrometheusServer}" router_cost
proof
  show "inj router_handler" by (rule injI) (metis router_handler.elims router_task.distinct)
  show "RouterMain \<notin> range router_handler" by (simp add: router_handlers)
  show "tokens False (router_prog RouterMain) 0 = Some 0" by (simp add: life_defs_R)
  show "tokens True (router_prog (router_handler s)) 0 = Some 0" for s
    by (cases s) (simp_all add: life_defs_R unleft_def)
  show "g \<noteq> RouterMain \<Longrightarrow> g \<notin> range router_handler \<Longrightarrow> tokens True (router_prog g) 1 = Some 0" for g
    by (cases g) (simp_all add: router_handlers life_defs_R)
  show "every (allowed router_handler (\<lambda>_. RouterStart_task) RouterMain {Websockets, PrometheusServer} g) (router_prog g)" for g
    by (cases g) (simp_all add: life_defs_R allowed_def router_handlers)
  show "\<exists>pre. router_prog RouterMain = pre @ [WaitWg] \<and> Cancel \<in> set pre \<and> every (\<lambda>s. s \<noteq> WaitWg) pre"
    by (rule exI [of _ "butlast main_R_life"]) (simp add: life_defs_R)
  show "s \<in> {Websockets, PrometheusServer} \<Longrightarrow>
      Go (router_drainer s) \<in> set (router_prog RouterMain) \<and> Drain s \<in> set (router_prog (router_drainer s))" for s
    by (auto simp: life_defs_R)
  show "Go RouterStart_task \<in> set (router_prog RouterMain) \<and> CloseChan c \<in> set (router_prog RouterStart_task)" for c
    by (cases c) (simp_all add: life_defs_R)
  show "weight router_cost (router_prog g) \<le> router_cost g" for g
    by (cases g) (simp_all add: life_defs_R)
qed

section \<open>Properties\<close>

text \<open>
  C8: the edge router goes down in order. The counter of its wait group never falls below zero,
  and when main returns from it, every goroutine of the program, every session of an agent and
  every scrape of the metrics has ended (only requests of the health server, which get five
  seconds, may be left). And it does go down: once the signal has come, if the calls
  between the statements return (locks and data are the subject of other theories), if the waits
  on the connection to the router end, and as long as nothing new arrives (no connection, message
  or timer), the goroutines take at most as many steps as their statements weigh, and stop only
  when all of them, main included, have ended.
\<close>

theorem edge_shutdown_completes:
  assumes "life_run edge_prog edge_handler (start_life edge_prog EdgeMain True) s"
  shows "0 \<le> counter (fst s)
    \<and> (has_returned EdgeMain s \<longrightarrow> (\<forall>(g, r) \<in> set (snd s). r = [] \<or> g = EdgeHealthRequest))
    \<and> (signalled (fst s) \<and> quiet_run edge_prog edge_handler s n s' \<longrightarrow>
         n \<le> load edge_cost s \<and> (over s' \<or> (\<exists>s''. life_step edge_prog edge_handler s' Internal s'')))"
  using edge_life.main_returns_last [OF assms] edge_life.shutdown_ends [OF assms]
  unfolding edge_life.settled_def edge_handlers singleton_iff by blast

theorem edge_shutdown_completes_witness:
  "43 \<le> load edge_cost (drive edge_prog edge_handler (replicate 7 (0, 0) @ [(0, 1)]) (start_life edge_prog EdgeMain True))"
proof -
  let ?s = "drive edge_prog edge_handler (replicate 7 (0, 0) @ [(0, 1)]) (start_life edge_prog EdgeMain True)"
  let ?ms = "replicate 2 (0 :: nat, 0 :: nat) @ replicate 7 (1, 0) @ [(1, 1)] @ replicate 6 (1, 0) @ replicate 2 (2, 0) @ replicate 6 (3, 0)
    @ replicate 4 (4, 0) @ [(4, 1), (4, 0)] @ concat (map (\<lambda>i. replicate 2 (i, 0)) [5, 6, 7, 8, 9, 10]) @ [(0, 0)]"
  have sig: "signalled (fst ?s)" by code_simp
  have "drives_quietly edge_prog edge_handler ?ms ?s" by code_simp
  from drives_quietly_run [OF this]
  have "quiet_run edge_prog edge_handler ?s (length ?ms) (drive edge_prog edge_handler ?ms ?s)" .
  moreover have "length ?ms = 43" by simp
  ultimately have "quiet_run edge_prog edge_handler ?s 43 (drive edge_prog edge_handler ?ms ?s)" by (simp only:)
  with edge_shutdown_completes [OF drive_run] sig show ?thesis by blast
qed

text \<open>
  C9: the router goes down in order, in the same sense: main returns from its wait group only
  after every other goroutine, session and reader of a topic has ended, and after a signal, if the
  calls between the statements return (a session may wait for a lock that an earlier Send has left
  behind) and as long as nothing new arrives, all of them end within the weight of their statements.
\<close>

theorem router_shutdown_completes:
  assumes "life_run router_prog router_handler (start_life router_prog RouterMain True) s"
  shows "0 \<le> counter (fst s)
    \<and> (has_returned RouterMain s \<longrightarrow> (\<forall>(g, r) \<in> set (snd s). r = [] \<or> g = RouterHealthRequest))
    \<and> (signalled (fst s) \<and> quiet_run router_prog router_handler s n s' \<longrightarrow>
         n \<le> load router_cost s \<and> (over s' \<or> (\<exists>s''. life_step router_prog router_handler s' Internal s'')))"
  using router_life.main_returns_last [OF assms] router_life.shutdown_ends [OF assms]
  unfolding router_life.settled_def router_handlers singleton_iff by blast

theorem router_shutdown_completes_witness:
  "let s = drive router_prog router_handler (replicate 7 (0, 0)) (start_life router_prog RouterMain True)
   in signalled (fst (fst s\<lparr>signalled := True\<rparr>, snd s)) \<and> 3 \<le> load router_cost (fst s\<lparr>signalled := True\<rparr>, snd s)"
proof -
  let ?s = "drive router_prog router_handler (replicate 7 (0, 0)) (start_life router_prog RouterMain True)"
  let ?t = "(fst ?s\<lparr>signalled := True\<rparr>, snd ?s)" and ?ms = "[(0 :: nat, 0 :: nat), (0, 0), (4, 0)]"
  have "life_step router_prog router_handler ?s Input ?t" using life_step.signal by (cases ?s) auto
  then have run: "life_run router_prog router_handler (start_life router_prog RouterMain True) ?t"
    using life_run.step [OF drive_run] by blast
  have "drives_quietly router_prog router_handler ?ms ?t" by code_simp
  from drives_quietly_run [OF this]
  have "quiet_run router_prog router_handler ?t (length ?ms) (drive router_prog router_handler ?ms ?t)" .
  moreover have "length ?ms = 3" by simp
  ultimately have "quiet_run router_prog router_handler ?t 3 (drive router_prog router_handler ?ms ?t)" by (simp only:)
  moreover have sig: "signalled (fst ?t)" by simp
  ultimately have "3 \<le> load router_cost ?t" using router_shutdown_completes [OF run] by blast
  with sig show ?thesis unfolding Let_def by blast
qed

text \<open>
  The waits of StartEdgeRouter on its connection to the router, for the answer to its Disconnect and
  for the end of the connection, have no time limit. If they do not end (the router neither answers
  nor hangs up, and nothing has torn the connection down), main never returns from the wait group,
  whatever happens from then on.
\<close>

lemma silent_router_blocks_shutdown:
  assumes "life_run edge_prog edge_handler (start_life edge_prog EdgeMain False) s"
    and "(EdgeStart_task, AwaitPeer # r) \<in> set (snd s)"
    and "life_run edge_prog edge_handler s s'"
  shows "\<not> has_returned EdgeMain s'"
  using assms by (rule edge_life.silent_peer_blocks)

end
