(* ===== verification/Backlog.thy ===== *)
theory Backlog
  imports EdgeRouter
begin

text \<open>
  The sending loop of the edge router between its own channel operations. handleOutgoingMessages is
  the only receiver of the outgoing channel and also sends on it: a message that could not be
  written is put back (edgerouter.go:1073) before the reconnection. Here one round is cut into the
  receive, the write and the send back, so that the handlers of the sessions and the loop that
  reads from the router run in between.
\<close>

section \<open>The sections of a round\<close>

datatype sender = AtRange | AtWrite MmtpMessage | AtResend MmtpMessage

definition outgoing_take :: "EdgeRouter \<Rightarrow> EdgeRouter \<times> sender" where
  "outgoing_take er =
     (case cbuf (outgoingChannel er) of
        [] \<Rightarrow> (er, AtRange)
      | outgoingMessage # rest \<Rightarrow>
          (er\<lparr>outgoingChannel := (outgoingChannel er)\<lparr>cbuf := rest\<rparr>\<rparr>,
           if GetMsgType (Some outgoingMessage) \<noteq> MsgType_PROTOCOL_MESSAGE then AtRange
           else AtWrite outgoingMessage))"

definition outgoing_write :: "Env \<Rightarrow> MmtpMessage \<Rightarrow> er_state \<Rightarrow> er_state \<times> sender" where
  "outgoing_write env outgoingMessage s =
     (let (er, io) = s
      in case write_io env io outgoingMessage of
           (io, Some _) \<Rightarrow> ((er, io), AtResend outgoingMessage)
         | (io, None) \<Rightarrow>
             (let t = GetProtocolMsgType (GetProtocolMessage (Some outgoingMessage))
              in if t = ProtocolMessageType_SUBSCRIBE_MESSAGE \<or> t = ProtocolMessageType_UNSUBSCRIBE_MESSAGE
                 then ((er\<lparr>awaitResponse := mput (GetUuid (Some outgoingMessage)) outgoingMessage (awaitResponse er)\<rparr>, io), AtRange)
                 else ((er, io), AtRange)))"

definition outgoing_resend :: "Env \<Rightarrow> bool \<Rightarrow> dial list \<Rightarrow> MmtpMessage \<Rightarrow> er_state \<Rightarrow> (er_state, unit) result" where
  "outgoing_resend env ping dials outgoingMessage s =
     (let (er, io) = s
      in bind_result (er_send er outgoingMessage)
           (\<lambda>er _. Return (er, TryConnectRouter env ping dials er io) ()) (\<lambda>er. (er, io)))"

text \<open>Run one after the other without anything in between they are the round of handleOutgoingMessages.\<close>

lemma outgoing_sections:
  assumes "cbuf (outgoingChannel er) \<noteq> []"
  shows "handleOutgoingMessages env ping dials (er, io) =
     (case outgoing_take er of
        (er, AtWrite m) \<Rightarrow>
          (case outgoing_write env m (er, io) of
             (s, AtResend m) \<Rightarrow> outgoing_resend env ping dials m s
           | (s, _) \<Rightarrow> Return s ())
      | (er, _) \<Rightarrow> Return (er, io) ())"
  using assms
  by (cases "cbuf (outgoingChannel er)")
    (auto simp: handleOutgoingMessages_def outgoing_take_def outgoing_write_def outgoing_resend_def Let_def
      split: prod.splits option.splits)

text \<open>
  What can happen: a section of the loop, as far as it returns, or a step of the rest of the edge
  router. The connection may be lost or made anew between any two steps.
\<close>

inductive backlog_step :: "Env \<Rightarrow> SigChecker \<Rightarrow> EdgeRouter \<times> sender \<Rightarrow> EdgeRouter \<times> sender \<Rightarrow> bool" for env chk where
  take: "cbuf (outgoingChannel er) \<noteq> [] \<Longrightarrow> backlog_step env chk (er, AtRange) (outgoing_take er)"
| written: "outgoing_write env m (er, io) = ((er', io'), p) \<Longrightarrow> backlog_step env chk (er, AtWrite m) (er', p)"
| resend: "outgoing_resend env ping dials m (er, io) = Return (er', io') () \<Longrightarrow>
    backlog_step env chk (er, AtResend m) (er', AtRange)"
| connect: "connect_agent env req (er, io) = ((er', io'), r) \<Longrightarrow> backlog_step env chk (er, p) (er', p)"
| message: "state_of (handle_message env chk req alg a m n (er, io)) = (er', io') \<Longrightarrow>
    backlog_step env chk (er, p) (er', p)"
| check: "CheckNewMessages env ts (agentHeap er a, io) = (ag, io') \<Longrightarrow>
    backlog_step env chk (er, p) (upd_agent a (\<lambda>_. ag) er, p)"
| incoming: "state_of (handleIncomingMessages env canceled ping dials (er, io)) = (er', io') \<Longrightarrow>
    backlog_step env chk (er, p) (er', p)"
| gc: "messageGC env (er, io) = (er', io') \<Longrightarrow> backlog_step env chk (er, p) (er', p)"

section \<open>A full channel\<close>

definition chan_full :: "'a Chan \<Rightarrow> bool" where
  "chan_full ch \<longleftrightarrow> \<not> cclosed ch \<and> ccap ch \<le> length (cbuf ch)"

lemma er_send_full: "chan_full (outgoingChannel er) \<Longrightarrow> er_send er m = Wait er ''channel is full''"
  by (simp add: er_send_def chan_send_def chan_full_def)

abbreviation chan_of :: "(er_state, 'a) result \<Rightarrow> MmtpMessage Chan" where
  "chan_of r \<equiv> outgoingChannel (fst (state_of r))"

lemma chan_of_upd [simp]: "outgoingChannel (upd_agent a f er) = outgoingChannel er"
  by (simp add: upd_agent_def)

lemma chan_of_go_on [simp]: "chan_of (bind_result r (\<lambda>s _. Return s v) (\<lambda>s. s)) = chan_of r"
  by (cases r) auto

lemma send_frozen:
  "chan_full (outgoingChannel er) \<Longrightarrow> outgoingChannel er' = outgoingChannel er \<Longrightarrow>
   chan_of (bind_result (er_send er' m) f (\<lambda>er. (er, io))) = outgoingChannel er"
  using er_send_full [of er' m] by simp

lemma handleSubscribe_frozen:
  "chan_full (outgoingChannel er) \<Longrightarrow> chan_of (handleSubscribe env m a req (er, io)) = outgoingChannel er"
  by (auto simp: handleSubscribe_def handleSubscribeSubject_def handleSubscribeDirect_def Let_def send_frozen
      split: option.split SubjectOrDirectMessages.split prod.split)

lemma handleUnsubscribe_frozen:
  "chan_full (outgoingChannel er) \<Longrightarrow> chan_of (handleUnsubscribe env m a (er, io)) = outgoingChannel er"
  by (auto simp: handleUnsubscribe_def handleUnsubscribeSubject_def handleUnsubscribeDirect_def Let_def send_frozen
      split: option.split Unsubscribe_SubjectOrDirectMessages.split prod.split)

lemma handleSend_frozen:
  "chan_full (outgoingChannel er) \<Longrightarrow> chan_of (handleSend env chk req alg m a (er, io)) = outgoingChannel er"
  by (auto simp: handleSend_def Let_def send_frozen split: option.split result.split)

lemma on_agent_frozen: "chan_of (on_agent a f (er, io)) = outgoingChannel er"
  by (cases "f (agentHeap er a, io)") (auto simp: on_agent_def)

lemma handle_message_frozen:
  assumes "chan_full (outgoingChannel er)"
  shows "chan_of (handle_message env chk req alg a m n (er, io)) = outgoingChannel er"
proof -
  note frozen = handleSubscribe_frozen [OF assms] handleUnsubscribe_frozen [OF assms] handleSend_frozen [OF assms]
    on_agent_frozen
  show ?thesis
    by (auto simp: handle_message_def Let_def frozen
        split: MsgType.split option.split ProtocolMessageType.split prod.split)
qed

lemma handle_response_frozen:
  assumes "chan_full (outgoingChannel er)"
  shows "chan_of (handle_response env rm (er, io)) = outgoingChannel er"
proof -
  have del: "outgoingChannel (fst (deliver_contents env now cs (e, i))) = outgoingChannel e" for now cs e i
    using deliver_contents_spec [of env now cs e i] by auto
  show ?thesis
    by (auto simp: handle_response_def Let_def send_frozen [OF assms] del split: option.split prod.split)
qed

lemma handleIncomingMessages_frozen:
  assumes "chan_full (outgoingChannel er)"
  shows "chan_of (handleIncomingMessages env canceled ping dials (er, io)) = outgoingChannel er"
proof -
  have notify: "chan_of (handleNotify env md (er, i)) = outgoingChannel er" for md i
    using send_frozen [OF assms refl] by (simp add: handleNotify_def NewString_def Let_def)
  show ?thesis
    by (auto simp: handleIncomingMessages_def Let_def handle_response_frozen [OF assms] notify
        split: sum.split prod.split option.split MmtpMessage_Body.split)
qed

lemma connect_agent_frozen: "connect_agent env req (er, io) = ((er', io'), r) \<Longrightarrow> outgoingChannel er' = outgoingChannel er"
  by (auto simp: connect_agent_def saved_or_new_def alloc_agent_def new_token_def Let_def
      split: sum.splits if_splits option.splits prod.splits)

definition stuck_sender :: "MmtpMessage \<Rightarrow> MmtpMessage Chan \<Rightarrow> EdgeRouter \<times> sender \<Rightarrow> bool" where
  "stuck_sender m ch s \<longleftrightarrow> snd s = AtResend m \<and> outgoingChannel (fst s) = ch"

lemma stuck_step:
  assumes "backlog_step env chk s s'" and "chan_full ch" and "stuck_sender m ch s"
  shows "stuck_sender m ch s'"
  using assms
proof (induction rule: backlog_step.induct)
  case (resend ping dials m er io er' io')
  then show ?case by (auto simp: stuck_sender_def outgoing_resend_def er_send_full)
next
  case (connect req er io er' io' r p)
  then show ?case using connect_agent_frozen [OF connect.hyps] by (auto simp: stuck_sender_def)
next
  case (message req alg a m n er io er' io' p)
  then show ?case using handle_message_frozen [of er env chk req alg a m n io] by (auto simp: stuck_sender_def)
next
  case (incoming canceled ping dials er io er' io' p)
  then show ?case using handleIncomingMessages_frozen [of er env canceled ping dials io] by (auto simp: stuck_sender_def)
next
  case (gc er io er' io' p)
  then show ?case by (auto simp: stuck_sender_def messageGC_def NowUnix_def Let_def)
qed (auto simp: stuck_sender_def)

lemma stuck_forever:
  assumes "(backlog_step env chk)\<^sup>*\<^sup>* s s'" and "chan_full ch" and "stuck_sender m ch s"
  shows "stuck_sender m ch s'"
  using assms by (induction rule: rtranclp_induct) (auto intro: stuck_step)

section \<open>Properties\<close>

text \<open>
  C32: a lost connection to the router can stop the edge router for good. Let the outgoing channel
  be full, as it gets when the router does not take messages fast enough, and let the loop take
  the next message; before its write fails an agent's accepted Send takes the free place. The loop
  is then left in its send back on the full channel, of which it is the only receiver: from there,
  short of a shutdown, no sequence of steps, of other sessions, of the loop that reads from the
  router or of new connections to it, ever changes the channel or moves the loop on.
\<close>

theorem full_channel_stops_sending:
  assumes "cbuf (outgoingChannel er) = m # rest" and "length (m # rest) = ccap (outgoingChannel er)"
    and "\<not> cclosed (outgoingChannel er)" and "MsgType m = MsgType_PROTOCOL_MESSAGE"
    and "AuthenticateConsumer req mrn = (alg, au, err)"
    and "MsgType m2 = MsgType_PROTOCOL_MESSAGE"
    and "GetProtocolMessage (Some m2) = Some p2" and "ProtocolMsgType p2 = ProtocolMessageType_SEND_MESSAGE"
    and "GetSendMessage (Some p2) = Some sm" and "(n::nat) \<le> 50 * 1024"
    and "send_accepted chk req alg m2 (agentHeap er a)"
    and "write_io env io m = (io', Some e)"
  shows "\<exists>er'. (backlog_step env chk)\<^sup>*\<^sup>* (er, AtRange) (er', AtResend m)
    \<and> cbuf (outgoingChannel er') = rest @ [m2]
    \<and> (\<forall>s. (backlog_step env chk)\<^sup>*\<^sup>* (er', AtResend m) s \<longrightarrow>
         snd s = AtResend m \<and> outgoingChannel (fst s) = outgoingChannel er'
         \<and> (\<forall>ping dials io. \<exists>w. outgoing_resend env ping dials m (fst s, io) = Wait (fst s, io) w))"
proof -
  let ?ch = "outgoingChannel er"
  let ?e1 = "er\<lparr>outgoingChannel := ?ch\<lparr>cbuf := rest\<rparr>\<rparr>"
  have take: "outgoing_take er = (?e1, AtWrite m)"
    using assms(1,4) by (simp add: outgoing_take_def)
  have ready: "chan_ready (outgoingChannel ?e1)" using assms(2,3) by (simp add: chan_ready_def)
  obtain h where h: "handleSend env chk req alg m2 a (?e1, io) =
       Return (?e1\<lparr>outgoingChannel := ?ch\<lparr>cbuf := rest @ [m2]\<rparr>, agentHeap := h\<rparr>,
         fst (respond env io (goodResponse (Uuid m2)))) ()"
    using send_accepted_delivers [OF assms(5) _ _ ready, of m2 sm chk a env io] assms(7,9,11) by auto
  let ?e2 = "?e1\<lparr>outgoingChannel := ?ch\<lparr>cbuf := rest @ [m2]\<rparr>, agentHeap := h\<rparr>"
  have msg: "state_of (handle_message env chk req alg a m2 n (?e1, io))
      = (?e2, fst (respond env io (goodResponse (Uuid m2))))"
    using assms(6-8,10) h by (simp add: handle_message_def MessageSizeLimit_def Let_def)
  have wr: "outgoing_write env m (?e2, io) = ((?e2, io'), AtResend m)"
    using assms(12) by (simp add: outgoing_write_def)
  have "backlog_step env chk (er, AtRange) (?e1, AtWrite m)"
    using backlog_step.take [of er env chk] assms(1) take by simp
  moreover have "backlog_step env chk (?e1, AtWrite m) (?e2, AtWrite m)" using msg by (rule backlog_step.message)
  moreover have "backlog_step env chk (?e2, AtWrite m) (?e2, AtResend m)" using wr by (rule backlog_step.written)
  ultimately have run: "(backlog_step env chk)\<^sup>*\<^sup>* (er, AtRange) (?e2, AtResend m)"
    by (meson r_into_rtranclp rtranclp_trans)
  have full: "chan_full (outgoingChannel ?e2)" using assms(2,3) by (simp add: chan_full_def)
  have "snd s = AtResend m \<and> outgoingChannel (fst s) = outgoingChannel ?e2
      \<and> (\<forall>ping dials io. \<exists>w. outgoing_resend env ping dials m (fst s, io) = Wait (fst s, io) w)"
    if "(backlog_step env chk)\<^sup>*\<^sup>* (?e2, AtResend m) s" for s
    using stuck_forever [OF that full, of m] full
    by (auto simp: stuck_sender_def outgoing_resend_def er_send_full)
  with run show ?thesis by (intro exI [of _ ?e2]) simp
qed

definition full_er :: EdgeRouter where
  "full_er = sample_er\<lparr>outgoingChannel := \<lparr>cbuf = [sample_msg ''m'' ''s'' 20], ccap = 1, cclosed = False\<rparr>\<rparr>"

theorem full_channel_stops_sending_witness:
  "\<exists>er'. (backlog_step (sample_env (\<lambda>_. 10) (\<lambda>_. None)) (\<lambda>_ _ _ sig. sig = ''sig''))\<^sup>*\<^sup>*
       (full_er, AtRange) (er', AtResend (sample_msg ''m'' ''s'' 20))
     \<and> cbuf (outgoingChannel er') = [sample_msg ''n'' ''s'' 20]"
proof -
  let ?m = "sample_msg ''m'' ''s'' 20" and ?m2 = "sample_msg ''n'' ''s'' 20" and ?req = "sample_request (Some ''urn:mrn:a'')"
    and ?env = "sample_env (\<lambda>_. 10) (\<lambda>_. None)" and ?chk = "\<lambda>_ _ _ sig. sig = ''sig''" and ?io = "sample_io [] (\<lambda>_. True)"
  have auth: "AuthenticateConsumer ?req ''urn:mrn:a'' = (ECDSAWithSHA256, True, None)"
    by (rule sample_request_auth) simp_all
  define p where "p = the (GetProtocolMessage (Some ?m2))"
  define sm where "sm = the (GetSendMessage (Some p))"
  have p: "GetProtocolMessage (Some ?m2) = Some p" "ProtocolMsgType p = ProtocolMessageType_SEND_MESSAGE"
    "GetSendMessage (Some p) = Some sm" by (simp_all add: sm_def p_def)
  have acc: "send_accepted ?chk ?req ECDSAWithSHA256 ?m2 (agentHeap full_er 0)"
    by (simp add: send_accepted_def sample_request_def sample_app_def full_er_def)
  have ch: "cbuf (outgoingChannel full_er) = [?m]" "length [?m] = ccap (outgoingChannel full_er)"
    "\<not> cclosed (outgoingChannel full_er)" by (simp_all add: full_er_def)
  have ty: "MsgType ?m = MsgType_PROTOCOL_MESSAGE" "MsgType ?m2 = MsgType_PROTOCOL_MESSAGE"
    by simp_all
  obtain io' e where w: "write_io ?env ?io ?m = (io', Some e)"
    by (simp add: write_io_def WriteMessage_def sample_defs Let_def)
  show ?thesis
    using full_channel_stops_sending [OF ch ty(1) auth ty(2) p _ acc w, of 0] by auto
qed

end
