(* ===== verification/Spec2Isabelle.thy ===== *)
theory Spec2Isabelle
  imports Network Metrics Packet LockUse Interleaving Listen Typing Shutdown Backlog
begin

text \<open>
  The Maritime Messaging Service (MMS): a verification library for its two programs, the edge
  router (src/edgerouter/edgerouter.go) and the router (src/router/router.go), and for the Go
  packages they share.

  The program. Agents hold a websocket to an edge router, edge routers hold one to a router, and
  routers exchange messages over libp2p publish/subscribe. All of them speak MMTP, a protobuf
  protocol (src/mmtp). A client opens with Connect, is authenticated by the certificate of its TLS
  connection, and then subscribes to subjects or to direct messages, sends signed messages, and
  fetches what is stored for it. Both programs keep the messages of a client in the same message
  store (src/consumer) until they are received or expire, and announce new ones by Notify. The
  edge router is itself a client of its router: it forwards the Sends and subscriptions of its
  agents through the outgoing channel, and turns each Notify of the router into a Receive.

  Theories and sources.
    MmsPrelude     Go values: byte strings, errors, maps (association lists; locale go_map),
                   buffered channels, strings functions; the result of running a function
                   (Return, Panic, or Wait on a lock or channel, each with the state).
    Mmtp           mmtp/mmtp.pb.go: messages as records, oneofs as datatypes, enumerations, getters.
    Rw             utils/rw, utils/errMsg: reading and writing messages on a websocket; a
                   connection is its unread frames, its failures, and the log of frames and
                   closes (locale message_writer).
    Consumer       consumer/consumer.go: QueueMessage, BulkQueueMessages, notify,
                   CheckNewMessages, HandleReceive, HandleFetch, HandleDisconnect, and the loops
                   of the garbage collection (locale message_queue, used for the stored messages
                   and for the notifications).
    Auth           utils/auth/auth.go: AuthenticateConsumer, getSignatureAlgorithm,
                   VerifySignatureOnMessage, GetMrnFromCertificate.
    Certs          utils/revocation, utils/cert, genkey, the certificate callbacks of both
                   programs, the key file of the router.
    Subscriptions  the contract of both Subscription types (locale subscription_set) and the
                   abstract registry subject -> subscribers that the handlers refine.
    Session        what the connection handlers of both programs share.
    EdgeRouter     the state of the edge router (record EdgeRouter: maps of addresses into a heap
                   of agents, as Go's maps share pointers), handleHttpConnection from handshake to
                   deferred close, every message handler, handleIncomingMessages,
                   handleOutgoingMessages, TryConnectRouter, messageGC.
    MmsRouter      the same for the router. Its RWMutexes are part of the state, because
                   handleSend does not free them on every path.
    Backlog        the sending loop of the edge router cut into its operations on the outgoing
                   channel, among which other goroutines may fill the channel.
    EdgeStart      the start, the stop and main of the edge router, its sending loop.
    RouterStart    setupLibP2P, the peer search, the stop and main of the router, its sending loop
                   (whose joins and publishes may go otherwise each round), the rounds of a topic's
                   reader with the checks of the context (subscription_round).
    Relay          both programs composed: the way of a Send from the agents of one edge router
                   over the router to the agents of another.
    Network        the same across two routers, as one run.
    Listen         the TLS configurations and HTTP listeners of both programs, and the handshakes
                   of crypto/tls up to the request that the connection handlers authenticate:
                   versions, certificate callbacks, session tickets and what a resumption checks.
    Typing         the types of the messages the edge router queues, keeps and stores.
    Locks          goroutines with RWMutexes and shared variables, one operation at a time; the
                   discipline that excludes deadlocks and races (locale lock_discipline).
    LockUse        the lock operations and shared accesses of every function of both programs that
                   has some, which obey the discipline with the exceptions the theorems name.
    Interleaving   QueueMessage and HandleReceive cut into their critical sections, run by any
                   number of goroutines on one consumer.
    Lifecycle      goroutines that start and await each other: wait group, context, channels and HTTP
                   servers, as statements with a step relation; the discipline, counted in tokens,
                   under which a wait group waits for all and a shutdown ends (locale wait_group).
    Shutdown       the statements of every goroutine of both programs, which obey the discipline; the
                   Prometheus and health servers.
    Metrics        the gauges of recordMetrics.
    Packet         utils/packet: Inspect.
    Spec2Isabelle  this theory: properties that span the programs.
  A definition has the name of the function it models; the suffix _R marks the router's version of
  a name both programs use, the suffix _locks the lock operations of a function, the suffix _life
  its part in starting and ending goroutines. Parts of a long function (the loops of handleSend,
  the branches of handleHttpConnection) are definitions of their own, composed as in the code.

  What the lemmas show. Consumer: the exact effect of each request on store, notifications and
  connection, on success and on a failed write. Auth and Certs: exactly when a client, a signature
  or a certificate is accepted. EdgeRouter and MmsRouter: the steps (er_step, r_step) with their
  reachable states, an invariant of every reachable state (er_ok, r_ok) and frame lemmas (keeps,
  keeps_R) that each handler composes; the delivery of a Send to exactly its receivers; the
  handlers of subscriptions as refinements of the registry; the outcomes of Connect; where a
  handler panics or waits for ever. EdgeStart and RouterStart: the sending loops empty their
  queues; what a shutdown does to messages still queued; how main ends. Backlog: a full outgoing
  channel stops the sending loop for good once it must put a message back. Relay: an accepted Send
  that meets the router and the edge routers with free locks and empty queues is stored for the
  agents of the other edge routers at the same router, if it is within its expiry window by the
  clock of the receiving edge router, and dropped there otherwise. Listen: which certificates stand
  behind the sessions of both programs, and what becomes of a revoked one. Typing: every handler
  keeps the messages of an edge router well-typed. LockUse: the locks of the edge
  router never deadlock as long as its channels have room and its reads and writes end, those of the
  router only after a Send without a UUID; which variables race. Interleaving: no message is lost or
  delivered twice between the sections. Shutdown: main returns after every other goroutine; after a
  signal all of them end, if the waits of the edge router on its connection to the router do.
  Network: a Send on a subject crosses the router network to the subscribers at a far edge router,
  under the same conditions on queues, locks and expiry. Here: what the receiving router
  stores for its subscribers; an edge router with a certificate is admitted by its router.

  Loops and bounds. The handler of a connection (agent_loop, er_loop) terminates by the number of
  unread frames: every round reads one, and a connection without frames fails to read. The peer
  search terminates by 10 - attempts, the sending loop of the router by the length of its queue.
  The sending loop of the edge router may put a message back, so outgoing_loop has fuel; while
  the link to the router works, one more than the length of the queue is enough. UUIDs and times
  come from streams (newUuid, clock) that every call advances. Times and expiry are Go's int64
  Unix seconds, modelled as int: they are only compared, never computed with beyond a subtraction.

  Parameters. protobuf encoding (marshal, unmarshal), UUIDs, clock, x509 signature checks, OCSP and
  CRL parsing, file and key parsing, dialling, libp2p joins, publishing and peers, flag parsing.
  A property that depends on one of them says so as a hypothesis (for instance that a frame decodes
  to the message it encodes), and its witness gives a concrete function.

  Granularity. In the theories of the handlers one handler call, one round of a background loop,
  or one garbage collection is one step; the steps of different connections interleave freely in
  er_reach and r_reach. Three other views look inside a step. LockUse has the lock operations and
  shared accesses alone, one at a time, for any list of calls per goroutine; what a call sees is an
  argument, so that its traces include those of the program. A write on a connection, and a send on
  a channel with room, end by themselves there; that a full outgoing channel blocks a sender is in
  the handlers (Wait) and in Backlog. Interleaving has the data of one consumer, with what lies between taking
  and freeing one mutex as one step. Backlog has the outgoing channel of the edge router alone, one
  operation at a time. Iteration over a Go map, whose order Go leaves open and changes from one
  iteration to the next, is in the order of the association list; where a property compares two
  iterations (fetch_then_receive) it is stated up to order, with multisets, and elsewhere the order
  of contents within one answer stands for one of those the program may choose. Lifecycle leaves the
  data out altogether: its steps are starts, ends and waits, internal or by input from outside. The
  number of internal steps left is bounded by the weight of the statements (edge_cost,
  router_cost), so that no fuel is needed. Panics are not in it; those of a shutdown are in
  EdgeStart and RouterStart.

  Not modelled. The reflection code of mmtp.pb.go (Reset, String, ProtoReflect, Descriptor, the raw
  descriptor: glue to the protobuf runtime that nothing here calls by itself), logging, the
  internals of TLS, libp2p, websockets, mDNS and net/http (record layer, compression, pings beyond
  their outcome), the handler of promhttp, and the flag package beyond the values it gives.
\<close>

section \<open>Properties across the programs\<close>

text \<open>
  A Send on a subject that an edge router hands to one router reaches the edge routers of
  another: the first router queues it, publishes its encoding on the topic of the subject; the
  second, given these bytes from a foreign peer, accepts them, and stores the very same message,
  with its notification, for every edge router subscribed to the subject there.
\<close>

lemma network_delivery:
  assumes "GetSubjectOrRecipient (headerOf m) = Some (ApplicationMessageHeader_Subject s)"
    and "MsgType m = MsgType_PROTOCOL_MESSAGE" and "Uuid m \<noteq> ''''"
    and "marshal env m = Some b" and "codec_ok env m"
    and "uuidValid env (Uuid m)" and "uuidVersion4 p2pB (Uuid m)" and "hostID p2pA \<noteq> hostID p2pB"
    and "joins p2pA s" and "publishes p2pA (topic_of A s) b"
    and "send_free A" and "chan_ready (outgoingChannel_R A)" and "cbuf (outgoingChannel_R A) = []"
    and "\<not> writer (subMu B)" and "chan_ready (incomingChannel B)" and "cbuf (incomingChannel B) = []"
    and "mget (subscriptions_R B) s \<noteq> None"
    and "clock env (clockn ioB) \<le> GetExpires (headerOf m)"
    and "GetExpires (headerOf m) \<le> clock env (clockn ioB) + 2592000"
  shows "\<exists>A1 A2 B1 B2 ioA' ioB'. handleSend_R env m a (A, ioA) = Return (A1, ioA') ()
    \<and> handleOutgoingMessages_R env p2pA A1 = Return A2 () \<and> published A2 = published A @ [(topic_of A s, b)]
    \<and> handleSubscription env p2pB (hostID p2pA) b B = Return B1 ()
    \<and> handleIncomingMessages_R env (B1, ioB) = Return (B2, ioB') ()
    \<and> (\<forall>e \<in> subscribers_of B s. mget (Messages (erHeap B2 e)) (Uuid m) = Some m
          \<and> mget (Notifications (erHeap B2 e)) (Uuid m) = Some m)"
proof -
  from headerOf_Some_appMsg [OF assms(1)] obtain am where app: "appMsgOf m = Some am"
    by (cases "appMsgOf m") auto
  then obtain sm where sm: "GetSendMessage (GetProtocolMessage (Some m)) = Some sm"
    by (cases "GetSendMessage (GetProtocolMessage (Some m))") auto
  from handleSend_R_queues [OF sm assms(3,11,12), of a env ioA] assms(13) obtain A1 where
    A1: "handleSend_R env m a (A, ioA) = Return (A1, fst (respond env ioA (goodResponse (Uuid m)))) ()"
      "cbuf (outgoingChannel_R A1) = [m]" "topicHandles A1 = topicHandles A" "published A1 = published A" by auto
  define A1' where "A1' = A1\<lparr>outgoingChannel_R := (outgoingChannel_R A1)\<lparr>cbuf := []\<rparr>\<rparr>"
  have A2: "handleOutgoingMessages_R env p2pA A1 = Return (publish p2pA b s A1') ()"
    using A1(2) assms(1,2,4) app by (simp add: handleOutgoingMessages_R_def A1'_def Let_def)
  have t: "topic_of A1' s = topic_of A s" "published A1' = published A"
    using A1(3,4) by (simp_all add: topic_of_def A1'_def)
  have "published (publish p2pA b s A1') = published A @ [(topic_of A s, b)]"
    using publish_eq [of p2pA s A1' b] assms(9,10) t by auto
  moreover
  define B1 where "B1 = B\<lparr>incomingChannel := (incomingChannel B)\<lparr>cbuf := [m]\<rparr>\<rparr>"
  have B1: "handleSubscription env p2pB (hostID p2pA) b B = Return B1 ()"
    using assms(2,4-8,15,16) sm by (simp add: handleSubscription_def codec_ok_def B1_def)
  from assms(17) obtain sub where sub: "mget (subscriptions_R B) s = Some sub" by auto
  let ?B2 = "B1\<lparr>incomingChannel := (incomingChannel B1)\<lparr>cbuf := []\<rparr>,
      erHeap := queue_all m (map snd (Subscribers_R sub)) (erHeap B)\<rparr>"
  have "handleIncomingMessages_R env (B1, ioB) = Return (?B2, ioB\<lparr>clockn := Suc (clockn ioB)\<rparr>) ()"
    using assms(1,2,14,18,19) app sub
    by (simp add: handleIncomingMessages_R_def B1_def NowUnix_def ExpirationLimit_R_def queue_subscription_def RLock_def Let_def)
  moreover have "\<forall>e \<in> subscribers_of B s. mget (Messages (erHeap ?B2 e)) (Uuid m) = Some m
      \<and> mget (Notifications (erHeap ?B2 e)) (Uuid m) = Some m"
    using assms(3) sub by (simp add: subscribers_of_def queue_all_Messages queue_all_Notifications)
  ultimately show ?thesis using A1(1) A2 B1 by blast
qed


text \<open>
  C23: an edge router that starts with a client certificate connects under the MRN of this
  certificate, and a router that sees the same certificate on the connection admits it: the router
  opens and registers a new session under the lower-cased MRN, and the edge router takes its answer
  for an acceptance. The certificate needs a supported key and no UID attributes that differ.
\<close>

theorem edge_router_authenticates:
  assumes "runWithStderr ke me args = Some (Inr (er, io))"
    and "parseFlags me args = Flags fl" and "LoadCertPool ke (f_tlsCAs fl) = Inr pool"
    and "fst (dialRouter me (f_routerAddr fl) pool (f_insecure fl))"
    and "f_clientCertPath fl \<noteq> ''''" and "f_clientCertKeyPath fl \<noteq> ''''"
    and "loadX509KeyPair me (f_clientCertPath fl) (f_clientCertKeyPath fl) = Some (Some cert)"
    and "mrn = GetMrnFromCertificate cert" and "mrn \<noteq> ''''"
    and "key_alg (PublicKeyOf cert) alg" and "\<forall>s \<in> uid_values cert. EqualFold s mrn"
    and "PeerCertificates req = Some (cert # chain)"
    and "readers (erMu r) = 0" and "\<not> writer (erMu r)" and "link_up io" and "link_up rio"
    and "hello = connectRequest (newUuid env 0) mrn"
    and "answer = mkResponse (newUuid envR (Suc (uuidn rio)))
           ((goodResponse (newUuid env 0))\<lparr>RM_ReconnectToken := Some (newUuid envR (uuidn rio))\<rparr>)"
    and "marshal env hello = Some b" and "unmarshal envR b = Some hello"
    and "marshal envR answer = Some a" and "unmarshal env a = Some answer"
    and "inbox (the (ws rio)) = b # bs" and "inbox (the (ws io)) = a # as"
  shows "\<exists>io' r' rio' e. connectMMTPToRouter env er io = (io', None) \<and> framesOf io' = framesOf io @ [b]
    \<and> connect_R envR req (r, rio) = Return (r', rio') (Some e) \<and> framesOf rio' = framesOf rio @ [a]
    \<and> Mrn (erHeap r' e) = ToLower mrn \<and> mget (edgeRouters r') (ToLower mrn) = Some e
    \<and> Messages (erHeap r' e) = []"
proof -
  from assms(1-9) have own: "ownMrn er = mrn" and u: "uuidn io = 0"
    by (auto simp: runWithStderr_def clientCertFunc_def createEdgeRouter_def NewEdgeRouter_def
        split: prod.splits sum.splits)
  from assms(15,16) obtain w rw where w: "ws io = Some w" "\<And>n. \<not> writeFails w n"
    and rw: "ws rio = Some rw" "\<And>n. \<not> writeFails rw n" by (auto simp: link_up_def)
  have edge: "\<exists>io'. connectMMTPToRouter env er io = (io', None) \<and> framesOf io' = framesOf io @ [b]"
    using w own u assms(17-19,22,24)
    by (simp add: connectMMTPToRouter_def NewString_def write_io_def WriteMessage_def ReadMessage_def framesOf_def Let_def)
  have auth: "AuthenticateConsumer req (ToLower mrn) = (alg, True, None)"
    using assms(9-12) by (auto simp: AuthenticateConsumer_True EqualFold_def)
  have read: "ReadMessage envR (ws rio) = (Some (rw\<lparr>inbox := bs\<rparr>), Inr (hello, length b))"
    using rw(1) assms(20,23) by (simp add: ReadMessage_def)
  have hello: "MsgType hello = MsgType_PROTOCOL_MESSAGE"
    "GetConnectMessage (GetProtocolMessage (Some hello)) = Some \<lparr>OwnMrn = Some mrn, Connect_ReconnectToken = None\<rparr>"
    "Uuid hello = newUuid env 0" by (simp_all add: assms(17) connectRequest_def)
  note eq = connect_R_authenticated [OF read hello(1,2), of req alg r, simplified, OF assms(9) auth]
  show ?thesis
    using edge rw assms(13,14,18,21)
    by (simp add: eq hello(3) find_er_def alloc_er_def register_er_def NewString_def upd_er_def new_consumer_def
        Lock_def respond_def write_io_def WriteMessage_def framesOf_def Let_def)
qed


definition sample_flags :: EdgeFlags where
  "sample_flags = \<lparr>f_routerAddr = ''wss://router'', f_ownMrn = '''', f_clientCertPath = ''c.pem'', f_clientCertKeyPath = ''k.pem'',
     f_clientCAs = '''', f_tlsCAs = '''', f_insecure = False\<rparr>"

definition sample_main :: "Conn \<Rightarrow> unit EdgeMainEnv" where
  "sample_main w = \<lparr>parseFlags = (\<lambda>_. Flags sample_flags),
     loadX509KeyPair = (\<lambda>_ _. Some (Some (sample_cert (Some ''urn:MRN:er'')))), dialRouter = (\<lambda>_ _ _. (True, Some w))\<rparr>"

definition sample_accept :: MmtpMessage where
  "sample_accept = mkResponse ''u1'' ((goodResponse ''u0'')\<lparr>RM_ReconnectToken := Some ''u0''\<rparr>)"

theorem edge_router_authenticates_witness:
  "\<exists>er io io' r' rio' e. runWithStderr (sample_keys '''') (sample_main (sample_conn [''u1''] (\<lambda>_. False))) [] = Some (Inr (er, io))
     \<and> connectMMTPToRouter (sample_env (\<lambda>_. 10) (\<lambda>_. Some sample_accept)) er io = (io', None)
     \<and> connect_R (sample_env (\<lambda>_. 10) (\<lambda>_. Some (connectRequest ''u0'' ''urn:MRN:er''))) (sample_request (Some ''urn:MRN:er''))
         (NewMMSRouter, sample_io [''u0''] (\<lambda>_. False)) = Return (r', rio') (Some e)
     \<and> mget (edgeRouters r') ''urn:mrn:er'' = Some e"
proof -
  let ?env = "sample_env (\<lambda>_. 10) (\<lambda>_. Some sample_accept)" and ?mrn = "''urn:MRN:er''"
    and ?envR = "sample_env (\<lambda>_. 10) (\<lambda>_. Some (connectRequest ''u0'' ''urn:MRN:er''))"
    and ?w = "sample_conn [''u1''] (\<lambda>_. False)" and ?rio = "sample_io [''u0''] (\<lambda>_. False)"
  let ?me = "sample_main ?w" and ?io = "\<lparr>ws = Some ?w, uuidn = 0, clockn = 0\<rparr>" and ?cert = "sample_cert (Some ?mrn)"
  have u: "newUuid ?env 0 = ''u0''" "newUuid ?envR 0 = ''u0''" "newUuid ?envR (Suc 0) = ''u1''" "uuidn ?rio = 0"
    by (simp_all add: sample_defs, code_simp+)
  have cert: "?mrn = GetMrnFromCertificate ?cert" "?mrn \<noteq> ''''" "key_alg (PublicKeyOf ?cert) ECDSAWithSHA256"
    "\<forall>s \<in> uid_values ?cert. EqualFold s ?mrn" "PeerCertificates (sample_request (Some ?mrn)) = Some (?cert # [])"
    by (simp_all add: GetMrnFromCertificate_def sample_cert_def key_alg_def uid_values_def sample_request_def)
  have fl: "parseFlags ?me [] = Flags sample_flags" "LoadCertPool (sample_keys '''') (f_tlsCAs sample_flags) = Inr None"
    "fst (dialRouter ?me (f_routerAddr sample_flags) None (f_insecure sample_flags))"
    "f_clientCertPath sample_flags \<noteq> ''''" "f_clientCertKeyPath sample_flags \<noteq> ''''"
    "loadX509KeyPair ?me (f_clientCertPath sample_flags) (f_clientCertKeyPath sample_flags) = Some (Some ?cert)"
    by (simp_all add: sample_main_def sample_flags_def LoadCertPool_def)
  have run: "runWithStderr (sample_keys '''') ?me [] = Some (Inr (NewEdgeRouter ?mrn, ?io))"
    using cert(1) by (simp add: runWithStderr_def sample_main_def sample_flags_def LoadCertPool_def clientCertFunc_def createEdgeRouter_def)
  have r: "readers (erMu NewMMSRouter) = 0" "\<not> writer (erMu NewMMSRouter)" "link_up ?io" "link_up ?rio"
    by (simp_all add: NewMMSRouter_def link_up_def sample_defs)
  have codec: "marshal ?env (connectRequest ''u0'' ?mrn) = Some ''u0''"
    "unmarshal ?envR ''u0'' = Some (connectRequest ''u0'' ?mrn)"
    "marshal ?envR sample_accept = Some ''u1''" "unmarshal ?env ''u1'' = Some sample_accept"
    "inbox (the (ws ?rio)) = ''u0'' # []" "inbox (the (ws ?io)) = ''u1'' # []"
    by (simp_all add: sample_defs connectRequest_def sample_accept_def)
  have l: "ToLower ?mrn = ''urn:mrn:er''" by code_simp
  from edge_router_authenticates [OF run fl cert(1-2) cert(3-5) r, of "connectRequest ''u0'' ?mrn" ?env sample_accept ?envR
      "''u0''" "''u1''" "[]" "[]"] u codec run l
  show ?thesis by (simp add: sample_accept_def) blast
qed

end
